theory Spec2Isabelle
  imports Complex_Main "HOL-Library.Char_ord" "HOL-Library.List_Lexorder"
begin

section \<open>Python values used by the sync service\<close>

text \<open>
  The service is Python. Exceptions are values of type \<open>exn\<close>; a computation that may
  raise returns \<open>exn + 'a\<close> with \<open>Inl\<close> for the raised exception. Python floats are
  modelled by the rational numbers they denote (no NaN, no infinity, no rounding of the
  one division the service performs); Python ints are \<open>int\<close>; \<open>str\<close> is \<open>string\<close>.
\<close>

datatype exn =
    KeyError string
  | ValueError string
  | ZeroDivisionError string
  | ConnectionError string
  | DatabaseError string

text \<open>\<open>str(e)\<close>, as interpolated by \<open>f"...{e}"\<close>: a \<open>KeyError\<close> prints the repr of its key.\<close>

definition py_repr :: "string \<Rightarrow> string" where
  "py_repr s = [CHR 0x27] @ s @ [CHR 0x27]"

fun exn_str :: "exn \<Rightarrow> string" where
  "exn_str (KeyError k) = py_repr k"
| "exn_str (ValueError m) = m"
| "exn_str (ZeroDivisionError m) = m"
| "exn_str (ConnectionError m) = m"
| "exn_str (DatabaseError m) = m"

text \<open>\<open>d[key]\<close> on a dict whose key may be absent.\<close>

definition getitem :: "'a option \<Rightarrow> string \<Rightarrow> exn + 'a" where
  "getitem v key = (case v of None \<Rightarrow> Inl (KeyError key) | Some x \<Rightarrow> Inr x)"

subsection \<open>\<open>int(str)\<close> and \<open>int(float)\<close>\<close>

definition py_isspace :: "char \<Rightarrow> bool" where
  "py_isspace c = ((of_char c :: nat) \<in> {9, 10, 11, 12, 13, 28, 29, 30, 31, 32, 133, 160})"

definition py_strip :: "string \<Rightarrow> string" where
  "py_strip s = rev (dropWhile py_isspace (rev (dropWhile py_isspace s)))"

definition is_digit :: "char \<Rightarrow> bool" where
  "is_digit c = (c \<in> set ''0123456789'')"

definition digit_val :: "char \<Rightarrow> nat" where
  "digit_val c = of_char c - 48"

text \<open>
  \<open>int(s)\<close> on a string whose characters are code points below 256: surrounding white
  space is stripped, one sign is allowed, then decimal digits, with single underscores
  allowed between two digits.
\<close>

fun py_digits :: "nat \<Rightarrow> string \<Rightarrow> nat option" where
  "py_digits acc [] = Some acc"
| "py_digits acc [c] = (if is_digit c then Some (10 * acc + digit_val c) else None)"
| "py_digits acc (c # d # ds) =
     (if is_digit c then py_digits (10 * acc + digit_val c) (d # ds)
      else if c = CHR ''_'' \<and> is_digit d then py_digits (10 * acc + digit_val d) ds
      else None)"

definition int_literal_error :: "string \<Rightarrow> exn" where
  "int_literal_error s = ValueError (''invalid literal for int() with base 10: '' @ py_repr s)"

definition py_int_str :: "string \<Rightarrow> exn + int" where
  "py_int_str s =
     (let t = py_strip s;
          neg = (t \<noteq> [] \<and> hd t = CHR ''-'');
          body = (if t \<noteq> [] \<and> (hd t = CHR ''-'' \<or> hd t = CHR ''+'') then tl t else t)
      in if body = [] \<or> \<not> is_digit (hd body) then Inl (int_literal_error s)
         else (case py_digits 0 body of
                 None \<Rightarrow> Inl (int_literal_error s)
               | Some n \<Rightarrow> Inr (if neg then - int n else int n)))"

text \<open>\<open>int(x)\<close> on a float truncates towards zero.\<close>

definition py_int_float :: "rat \<Rightarrow> int" where
  "py_int_float q = (if 0 \<le> q then \<lfloor>q\<rfloor> else \<lceil>q\<rceil>)"

subsection \<open>\<open>datetime.date\<close>\<close>

record date =
  year :: int
  month :: int
  day :: int

definition is_leap :: "int \<Rightarrow> bool" where
  "is_leap y = (y mod 4 = 0 \<and> (y mod 100 \<noteq> 0 \<or> y mod 400 = 0))"

definition days_in_month :: "int \<Rightarrow> int \<Rightarrow> int" where
  "days_in_month y m =
     (if m = 2 then (if is_leap y then 29 else 28)
      else if m = 4 \<or> m = 6 \<or> m = 9 \<or> m = 11 then 30 else 31)"

text \<open>
  The constructor \<open>date(y, m, d)\<close> checks year, month and day, in this order. The
  wording of the messages varies with the interpreter (the year message also prints the
  year); no property below depends on it.
\<close>

definition py_date :: "int \<Rightarrow> int \<Rightarrow> int \<Rightarrow> exn + date" where
  "py_date y m d =
     (if y < 1 \<or> 9999 < y then Inl (ValueError ''year is out of range'')
      else if m < 1 \<or> 12 < m then Inl (ValueError ''month must be in 1..12'')
      else if d < 1 \<or> days_in_month y m < d then Inl (ValueError ''day is out of range for month'')
      else Inr \<lparr>year = y, month = m, day = d\<rparr>)"

definition digit_char :: "nat \<Rightarrow> char" where
  "digit_char n = ''0123456789'' ! (n mod 10)"

text \<open>\<open>date.isoformat()\<close>: \<open>YYYY-MM-DD\<close>, zero padded.\<close>

definition isoformat :: "date \<Rightarrow> string" where
  "isoformat d =
     (let y = nat (year d); m = nat (month d); dd = nat (day d)
      in [digit_char (y div 1000), digit_char (y div 100), digit_char (y div 10), digit_char y]
         @ ''-'' @ [digit_char (m div 10), digit_char m]
         @ ''-'' @ [digit_char (dd div 10), digit_char dd])"

text \<open>
  The wall clock of one pass: \<open>date.today()\<close>, SQLite's \<open>CURRENT_TIMESTAMP\<close>, and the
  two \<open>datetime.now()\<close> readings (the one stored in \<open>synced_at\<close> and the one stored in
  \<open>last_sync\<close>), each held constant during the pass.
\<close>

record clock =
  today :: date
  current_timestamp :: string
  now_synced :: string
  now_finished :: string

section \<open>The position store (database.py)\<close>

text \<open>
  The tables are lists of rows in rowid order, with the columns the SQL statements of
  database.py name. The schema itself is not part of the repository: a column left out of
  an \<open>INSERT\<close> gets \<open>NULL\<close> (\<open>closed\<close>) or the statement's timestamp (\<open>updated_at\<close>),
  and a new row gets a rowid one larger than the largest in the table.
\<close>

record option_row =
  o_id :: int
  o_symbol :: string
  o_type :: string
  o_opened :: string
  o_strike :: rat
  o_expiration :: string
  o_premium :: rat
  o_contracts :: int
  o_closed :: "string option"
  o_updated_at :: string

record long_row =
  l_id :: int
  l_symbol :: string
  l_opened :: string
  l_shares :: int
  l_buy_price :: rat
  l_closed :: "string option"
  l_updated_at :: string

record database =
  tbl_symbols :: "string list"
  tbl_options :: "option_row list"
  tbl_long_positions :: "long_row list"

text \<open>
  An open connection: the tables, and the outcomes of the \<open>cursor.execute\<close> calls still
  to come (\<open>Some msg\<close>: the call raises a database error, such as a locked file or a
  violated constraint of the schema, and changes nothing; \<open>None\<close>, or an exhausted
  list: it succeeds). Every successful statement is followed by \<open>conn.commit()\<close> in
  the source, so a statement's effect is kept as soon as it is made.
\<close>

record connection = database +
  pending_faults :: "string option list"

record db_environment =
  db_file :: database
  db_connect_fault :: "string option"
  db_statement_faults :: "string option list"

definition get_db_connection :: "db_environment \<Rightarrow> exn + connection" where
  "get_db_connection e =
     (case db_connect_fault e of
        Some msg \<Rightarrow> Inl (DatabaseError msg)
      | None \<Rightarrow> Inr \<lparr>tbl_symbols = tbl_symbols (db_file e),
                      tbl_options = tbl_options (db_file e),
                      tbl_long_positions = tbl_long_positions (db_file e),
                      pending_faults = db_statement_faults e\<rparr>)"

definition conn_close :: "connection \<Rightarrow> database" where
  "conn_close conn =
     \<lparr>tbl_symbols = tbl_symbols conn, tbl_options = tbl_options conn,
      tbl_long_positions = tbl_long_positions conn\<rparr>"

definition cursor_execute :: "connection \<Rightarrow> string option \<times> connection" where
  "cursor_execute conn =
     (case pending_faults conn of
        [] \<Rightarrow> (None, conn)
      | f # fs \<Rightarrow> (f, conn\<lparr>pending_faults := fs\<rparr>))"

definition next_rowid :: "int list \<Rightarrow> int" where
  "next_rowid ids = (case ids of [] \<Rightarrow> 1 | x # xs \<Rightarrow> fold max xs x + 1)"

subsection \<open>The SQL statements, as functions on a table\<close>

text \<open>
  \<open>SELECT id FROM options WHERE symbol = ? AND type = ? AND strike = ? AND expiration = ?
  AND closed IS NULL\<close>, then \<open>fetchone()\<close>: the first matching row in table order.
\<close>

definition option_matches :: "string \<Rightarrow> string \<Rightarrow> rat \<Rightarrow> string \<Rightarrow> option_row \<Rightarrow> bool" where
  "option_matches symbol option_type strike expiration r =
     (o_symbol r = symbol \<and> o_type r = option_type \<and> o_strike r = strike
      \<and> o_expiration r = expiration \<and> o_closed r = None)"

definition select_option ::
  "string \<Rightarrow> string \<Rightarrow> rat \<Rightarrow> string \<Rightarrow> option_row list \<Rightarrow> option_row option" where
  "select_option symbol option_type strike expiration rows =
     find (option_matches symbol option_type strike expiration) rows"

text \<open>\<open>UPDATE options SET contracts = ?, premium = ?, updated_at = CURRENT_TIMESTAMP WHERE id = ?\<close>\<close>

definition update_option :: "clock \<Rightarrow> int \<Rightarrow> rat \<Rightarrow> int \<Rightarrow> option_row list \<Rightarrow> option_row list" where
  "update_option clk contracts premium i rows =
     map (\<lambda>r. if o_id r = i
               then r\<lparr>o_contracts := contracts, o_premium := premium,
                      o_updated_at := current_timestamp clk\<rparr>
               else r) rows"

text \<open>
  \<open>INSERT INTO options (symbol, type, opened, strike, expiration, premium, contracts)\<close>,
  with \<open>cursor.lastrowid\<close>.
\<close>

definition insert_option ::
  "clock \<Rightarrow> string \<Rightarrow> string \<Rightarrow> string \<Rightarrow> rat \<Rightarrow> string \<Rightarrow> rat \<Rightarrow> int \<Rightarrow> option_row list
     \<Rightarrow> int \<times> option_row list" where
  "insert_option clk symbol option_type opened strike expiration premium contracts rows =
     (let option_id = next_rowid (map o_id rows)
      in (option_id,
          rows @ [\<lparr>o_id = option_id, o_symbol = symbol, o_type = option_type,
                   o_opened = opened, o_strike = strike, o_expiration = expiration,
                   o_premium = premium, o_contracts = contracts, o_closed = None,
                   o_updated_at = current_timestamp clk\<rparr>]))"

text \<open>
  \<open>SELECT id, shares, buy_price FROM long_positions WHERE symbol = ? AND closed IS NULL
  ORDER BY opened DESC LIMIT 1\<close>: among the open rows of the symbol, the row with the
  greatest \<open>opened\<close> text, the first such row in table order.
\<close>

definition long_matches :: "string \<Rightarrow> long_row \<Rightarrow> bool" where
  "long_matches symbol r = (l_symbol r = symbol \<and> l_closed r = None)"

fun most_recent :: "long_row list \<Rightarrow> long_row option" where
  "most_recent [] = None"
| "most_recent (r # rs) =
     (case most_recent rs of
        None \<Rightarrow> Some r
      | Some b \<Rightarrow> if l_opened r < l_opened b then Some b else Some r)"

definition select_long :: "string \<Rightarrow> long_row list \<Rightarrow> long_row option" where
  "select_long symbol rows = most_recent (filter (long_matches symbol) rows)"

definition update_long :: "clock \<Rightarrow> int \<Rightarrow> rat \<Rightarrow> int \<Rightarrow> long_row list \<Rightarrow> long_row list" where
  "update_long clk shares buy_price i rows =
     map (\<lambda>r. if l_id r = i
               then r\<lparr>l_shares := shares, l_buy_price := buy_price,
                      l_updated_at := current_timestamp clk\<rparr>
               else r) rows"

definition insert_long ::
  "clock \<Rightarrow> string \<Rightarrow> string \<Rightarrow> int \<Rightarrow> rat \<Rightarrow> long_row list \<Rightarrow> int \<times> long_row list" where
  "insert_long clk symbol opened shares buy_price rows =
     (let position_id = next_rowid (map l_id rows)
      in (position_id,
          rows @ [\<lparr>l_id = position_id, l_symbol = symbol, l_opened = opened,
                   l_shares = shares, l_buy_price = buy_price, l_closed = None,
                   l_updated_at = current_timestamp clk\<rparr>]))"

text \<open>
  \<open>UPDATE options SET closed = ?, updated_at = CURRENT_TIMESTAMP WHERE closed IS NULL\<close>,
  with or without \<open>AND id NOT IN (...)\<close>; \<open>cursor.rowcount\<close> is the number of rows the
  \<open>WHERE\<close> clause selects. The same for \<open>long_positions\<close>, by symbol.
\<close>

definition close_option_row :: "clock \<Rightarrow> option_row \<Rightarrow> option_row" where
  "close_option_row clk r =
     r\<lparr>o_closed := Some (isoformat (today clk)), o_updated_at := current_timestamp clk\<rparr>"

definition close_options_where :: "clock \<Rightarrow> (option_row \<Rightarrow> bool) \<Rightarrow> option_row list \<Rightarrow> nat \<times> option_row list" where
  "close_options_where clk cond rows =
     (length (filter cond rows), map (\<lambda>r. if cond r then close_option_row clk r else r) rows)"

definition close_long_row :: "clock \<Rightarrow> long_row \<Rightarrow> long_row" where
  "close_long_row clk r =
     r\<lparr>l_closed := Some (isoformat (today clk)), l_updated_at := current_timestamp clk\<rparr>"

definition close_longs_where :: "clock \<Rightarrow> (long_row \<Rightarrow> bool) \<Rightarrow> long_row list \<Rightarrow> nat \<times> long_row list" where
  "close_longs_where clk cond rows =
     (length (filter cond rows), map (\<lambda>r. if cond r then close_long_row clk r else r) rows)"

subsection \<open>The functions of database.py\<close>

definition ensure_symbol_exists :: "connection \<Rightarrow> string \<Rightarrow> (exn + unit) \<times> connection" where
  "ensure_symbol_exists conn symbol =
     (case cursor_execute conn of
        (Some msg, c) \<Rightarrow> (Inl (DatabaseError msg), c)
      | (None, c) \<Rightarrow> (Inr (), c\<lparr>tbl_symbols := List.insert symbol (tbl_symbols c)\<rparr>))"

definition sync_option_position ::
  "clock \<Rightarrow> connection \<Rightarrow> string \<Rightarrow> string \<Rightarrow> rat \<Rightarrow> date \<Rightarrow> int \<Rightarrow> rat \<Rightarrow> date option
     \<Rightarrow> (exn + int) \<times> connection" where
  "sync_option_position clk conn symbol option_type strike expiration contracts premium opened =
     (case ensure_symbol_exists conn symbol of
        (Inl e, c1) \<Rightarrow> (Inl e, c1)
      | (Inr _, c1) \<Rightarrow>
          (let opened_date = (case opened of Some d \<Rightarrow> d | None \<Rightarrow> today clk) in
           case cursor_execute c1 of
             (Some msg, c2) \<Rightarrow> (Inl (DatabaseError msg), c2)
           | (None, c2) \<Rightarrow>
               (case select_option symbol option_type strike (isoformat expiration)
                       (tbl_options c2) of
                  Some existing \<Rightarrow>
                    (case cursor_execute c2 of
                       (Some msg, c3) \<Rightarrow> (Inl (DatabaseError msg), c3)
                     | (None, c3) \<Rightarrow>
                         (Inr (o_id existing),
                          c3\<lparr>tbl_options :=
                               update_option clk contracts premium (o_id existing)
                                 (tbl_options c3)\<rparr>))
                | None \<Rightarrow>
                    (case cursor_execute c2 of
                       (Some msg, c3) \<Rightarrow> (Inl (DatabaseError msg), c3)
                     | (None, c3) \<Rightarrow>
                         (let (option_id, rows) =
                                insert_option clk symbol option_type (isoformat opened_date)
                                  strike (isoformat expiration) premium contracts
                                  (tbl_options c3)
                          in (Inr option_id, c3\<lparr>tbl_options := rows\<rparr>))))))"

definition sync_long_position ::
  "clock \<Rightarrow> connection \<Rightarrow> string \<Rightarrow> int \<Rightarrow> rat \<Rightarrow> date option \<Rightarrow> (exn + int) \<times> connection" where
  "sync_long_position clk conn symbol shares buy_price opened =
     (case ensure_symbol_exists conn symbol of
        (Inl e, c1) \<Rightarrow> (Inl e, c1)
      | (Inr _, c1) \<Rightarrow>
          (let opened_date = (case opened of Some d \<Rightarrow> d | None \<Rightarrow> today clk) in
           case cursor_execute c1 of
             (Some msg, c2) \<Rightarrow> (Inl (DatabaseError msg), c2)
           | (None, c2) \<Rightarrow>
               (case select_long symbol (tbl_long_positions c2) of
                  Some existing \<Rightarrow>
                    (case cursor_execute c2 of
                       (Some msg, c3) \<Rightarrow> (Inl (DatabaseError msg), c3)
                     | (None, c3) \<Rightarrow>
                         (Inr (l_id existing),
                          c3\<lparr>tbl_long_positions :=
                               update_long clk shares buy_price (l_id existing)
                                 (tbl_long_positions c3)\<rparr>))
                | None \<Rightarrow>
                    (case cursor_execute c2 of
                       (Some msg, c3) \<Rightarrow> (Inl (DatabaseError msg), c3)
                     | (None, c3) \<Rightarrow>
                         (let (position_id, rows) =
                                insert_long clk symbol (isoformat opened_date) shares buy_price
                                  (tbl_long_positions c3)
                          in (Inr position_id, c3\<lparr>tbl_long_positions := rows\<rparr>))))))"

definition close_missing_options ::
  "clock \<Rightarrow> connection \<Rightarrow> int list \<Rightarrow> (exn + nat) \<times> connection" where
  "close_missing_options clk conn current_option_ids =
     (if current_option_ids = [] then
        (case cursor_execute conn of
           (Some msg, c) \<Rightarrow> (Inl (DatabaseError msg), c)
         | (None, c) \<Rightarrow>
             (let (count, rows) =
                    close_options_where clk (\<lambda>r. o_closed r = None) (tbl_options c)
              in (Inr count, c\<lparr>tbl_options := rows\<rparr>)))
      else
        (case cursor_execute conn of
           (Some msg, c) \<Rightarrow> (Inl (DatabaseError msg), c)
         | (None, c) \<Rightarrow>
             (let (count, rows) =
                    close_options_where clk
                      (\<lambda>r. o_closed r = None \<and> o_id r \<notin> set current_option_ids)
                      (tbl_options c)
              in (Inr count, c\<lparr>tbl_options := rows\<rparr>))))"

definition close_missing_long_positions ::
  "clock \<Rightarrow> connection \<Rightarrow> string list \<Rightarrow> (exn + nat) \<times> connection" where
  "close_missing_long_positions clk conn current_symbols =
     (if current_symbols = [] then
        (case cursor_execute conn of
           (Some msg, c) \<Rightarrow> (Inl (DatabaseError msg), c)
         | (None, c) \<Rightarrow>
             (let (count, rows) =
                    close_longs_where clk (\<lambda>r. l_closed r = None) (tbl_long_positions c)
              in (Inr count, c\<lparr>tbl_long_positions := rows\<rparr>)))
      else
        (case cursor_execute conn of
           (Some msg, c) \<Rightarrow> (Inl (DatabaseError msg), c)
         | (None, c) \<Rightarrow>
             (let (count, rows) =
                    close_longs_where clk
                      (\<lambda>r. l_closed r = None \<and> l_symbol r \<notin> set current_symbols)
                      (tbl_long_positions c)
              in (Inr count, c\<lparr>tbl_long_positions := rows\<rparr>))))"

section \<open>The broker client (ibkr_client.py)\<close>

text \<open>
  What the \<open>ib_async\<close> session gives: a contract and a position as the library's
  dataclasses type them, whether the session is up (\<open>ib.isConnected()\<close>), what the next
  \<open>connectAsync\<close> does (\<open>Some msg\<close>: it raises; \<open>None\<close>: it returns, and the session
  is up from then on) and what \<open>positions()\<close> returns.
\<close>

record contract =
  con_symbol :: string
  con_secType :: string
  con_strike :: rat
  con_lastTradeDateOrContractMonth :: string
  con_right :: string
  con_multiplier :: string

record ib_position =
  ibp_account :: string
  ibp_contract :: contract
  ibp_position :: rat
  ibp_avgCost :: rat

record ibkr_client =
  ib_isConnected :: bool
  flag_connected :: bool
  ib_connectAsync :: "string \<Rightarrow> int \<Rightarrow> int \<Rightarrow> string option"
  ib_positions :: "exn + ib_position list"

text \<open>The defaults of config.py.\<close>

definition tws_host :: string where "tws_host = ''127.0.0.1''"
definition tws_port :: int where "tws_port = 7497"
definition settings_client_id :: int where "settings_client_id = 1"

definition connect ::
  "ibkr_client \<Rightarrow> string option \<Rightarrow> int option \<Rightarrow> int option \<Rightarrow> bool \<times> ibkr_client" where
  "connect client host port client_id =
     (let h = (case host of None \<Rightarrow> tws_host | Some x \<Rightarrow> if x = [] then tws_host else x);
          p = (case port of None \<Rightarrow> tws_port | Some x \<Rightarrow> if x = 0 then tws_port else x);
          cid = (case client_id of None \<Rightarrow> settings_client_id
                 | Some x \<Rightarrow> if x = 0 then settings_client_id else x)
      in case ib_connectAsync client h p cid of
           None \<Rightarrow> (True, client\<lparr>ib_isConnected := True, flag_connected := True\<rparr>)
         | Some msg \<Rightarrow> (False, client\<lparr>flag_connected := False\<rparr>))"

definition is_connected :: "ibkr_client \<Rightarrow> bool" where
  "is_connected client = ib_isConnected client"

text \<open>
  The dict that \<open>get_positions\<close> builds for one position. A key is \<open>None\<close> when the
  dict does not have it: the four option keys are added only when \<open>secType\<close> is \<open>OPT\<close>.
\<close>

record position_data =
  pos_account :: "string option"
  pos_symbol :: "string option"
  pos_sec_type :: "string option"
  pos_position :: "rat option"
  pos_avg_cost :: "rat option"
  pos_strike :: "rat option"
  pos_expiration :: "string option"
  pos_right :: "string option"
  pos_multiplier :: "int option"

definition position_dict :: "ib_position \<Rightarrow> exn + position_data" where
  "position_dict pos =
     (let contract = ibp_contract pos;
          position_data =
            \<lparr>pos_account = Some (ibp_account pos), pos_symbol = Some (con_symbol contract),
             pos_sec_type = Some (con_secType contract), pos_position = Some (ibp_position pos),
             pos_avg_cost = Some (ibp_avgCost pos), pos_strike = None, pos_expiration = None,
             pos_right = None, pos_multiplier = None\<rparr>
      in if con_secType contract = ''OPT'' then
           (case (if con_multiplier contract \<noteq> [] then py_int_str (con_multiplier contract)
                  else Inr 100) of
              Inl e \<Rightarrow> Inl e
            | Inr m \<Rightarrow>
                Inr (position_data
                      \<lparr>pos_strike := Some (con_strike contract),
                       pos_expiration := Some (con_lastTradeDateOrContractMonth contract),
                       pos_right := Some (con_right contract),
                       pos_multiplier := Some m\<rparr>))
         else Inr position_data)"

fun position_dicts :: "ib_position list \<Rightarrow> exn + position_data list" where
  "position_dicts [] = Inr []"
| "position_dicts (pos # rest) =
     (case position_dict pos of
        Inl e \<Rightarrow> Inl e
      | Inr d \<Rightarrow> (case position_dicts rest of Inl e \<Rightarrow> Inl e | Inr ds \<Rightarrow> Inr (d # ds)))"

definition get_positions :: "ibkr_client \<Rightarrow> exn + position_data list" where
  "get_positions client =
     (if \<not> is_connected client then Inl (ConnectionError ''Not connected to IBKR'')
      else (case ib_positions client of
              Inl e \<Rightarrow> Inl e
            | Inr positions \<Rightarrow> position_dicts positions))"

section \<open>The sync service (sync_service.py)\<close>

record sync_result =
  success :: bool
  synced_at :: "string option"
  options_synced :: nat
  positions_synced :: nat
  options_closed :: nat
  positions_closed :: nat
  errors :: "string list"

record sync_service =
  last_sync :: "string option"
  last_sync_result :: "sync_result option"

definition parse_expiration :: "string \<Rightarrow> exn + date" where
  "parse_expiration exp_str =
     (case py_int_str (take 4 exp_str) of
        Inl e \<Rightarrow> Inl e
      | Inr y \<Rightarrow>
          (case py_int_str (take 2 (drop 4 exp_str)) of
             Inl e \<Rightarrow> Inl e
           | Inr m \<Rightarrow>
               (case py_int_str (take 2 (drop 6 exp_str)) of
                  Inl e \<Rightarrow> Inl e
                | Inr d \<Rightarrow> py_date y m d)))"

text \<open>
  The arguments of the call to \<open>sync_option_position\<close>, evaluated in the order of the
  source: nothing touches the store before the call, so an exception raised here leaves
  the connection as it was.
\<close>

definition option_request ::
  "position_data \<Rightarrow> exn + (string \<times> string \<times> rat \<times> date \<times> int \<times> rat)" where
  "option_request pos =
     (case getitem (pos_right pos) ''right'' of
        Inl e \<Rightarrow> Inl e
      | Inr r \<Rightarrow>
     (let option_type = (if r = ''C'' then ''Call'' else ''Put'') in
      case getitem (pos_expiration pos) ''expiration'' of
        Inl e \<Rightarrow> Inl e
      | Inr exp_str \<Rightarrow>
     (case parse_expiration exp_str of
        Inl e \<Rightarrow> Inl e
      | Inr expiration \<Rightarrow>
     (let multiplier = (case pos_multiplier pos of None \<Rightarrow> 100 | Some m \<Rightarrow> m) in
      case getitem (pos_avg_cost pos) ''avg_cost'' of
        Inl e \<Rightarrow> Inl e
      | Inr avg_cost \<Rightarrow>
     (if multiplier = 0 then Inl (ZeroDivisionError ''float division by zero'')
      else
     (let premium_per_contract = avg_cost / of_int multiplier in
      case getitem (pos_symbol pos) ''symbol'' of
        Inl e \<Rightarrow> Inl e
      | Inr symbol \<Rightarrow>
     (case getitem (pos_strike pos) ''strike'' of
        Inl e \<Rightarrow> Inl e
      | Inr strike \<Rightarrow>
     (case getitem (pos_position pos) ''position'' of
        Inl e \<Rightarrow> Inl e
      | Inr q \<Rightarrow>
          Inr (symbol, option_type, strike, expiration, abs (py_int_float q),
               premium_per_contract)))))))))"

definition stock_request :: "position_data \<Rightarrow> exn + (string \<times> int \<times> rat)" where
  "stock_request pos =
     (case getitem (pos_symbol pos) ''symbol'' of
        Inl e \<Rightarrow> Inl e
      | Inr symbol \<Rightarrow>
     (case getitem (pos_position pos) ''position'' of
        Inl e \<Rightarrow> Inl e
      | Inr q \<Rightarrow>
     (case getitem (pos_avg_cost pos) ''avg_cost'' of
        Inl e \<Rightarrow> Inl e
      | Inr buy_price \<Rightarrow> Inr (symbol, py_int_float q, buy_price))))"

text \<open>The body of the inner \<open>try\<close> for one position: what it did, or what it raised.\<close>

datatype outcome = OptionSynced int | StockSynced string | NotHandled

definition try_position ::
  "clock \<Rightarrow> connection \<Rightarrow> position_data \<Rightarrow> (exn + outcome) \<times> connection" where
  "try_position clk conn pos =
     (case getitem (pos_sec_type pos) ''sec_type'' of
        Inl e \<Rightarrow> (Inl e, conn)
      | Inr sec_type \<Rightarrow>
          if sec_type = ''OPT'' then
            (case option_request pos of
               Inl e \<Rightarrow> (Inl e, conn)
             | Inr (symbol, option_type, strike, expiration, contracts, premium) \<Rightarrow>
                 (case sync_option_position clk conn symbol option_type strike expiration
                         contracts premium None of
                    (Inl e, c) \<Rightarrow> (Inl e, c)
                  | (Inr option_id, c) \<Rightarrow> (Inr (OptionSynced option_id), c)))
          else if sec_type = ''STK'' then
            (case stock_request pos of
               Inl e \<Rightarrow> (Inl e, conn)
             | Inr (symbol, shares, buy_price) \<Rightarrow>
                 (case sync_long_position clk conn symbol shares buy_price None of
                    (Inl e, c) \<Rightarrow> (Inl e, c)
                  | (Inr position_id, c) \<Rightarrow> (Inr (StockSynced symbol), c)))
          else (Inr NotHandled, conn))"

definition error_msg :: "position_data \<Rightarrow> exn \<Rightarrow> string" where
  "error_msg pos e =
     ''Error syncing position ''
       @ (case pos_symbol pos of None \<Rightarrow> ''unknown'' | Some s \<Rightarrow> s) @ '': '' @ exn_str e"

record loop_state =
  st_conn :: connection
  st_option_ids :: "int list"
  st_stock_symbols :: "string list"
  st_result :: sync_result

text \<open>One iteration of \<open>for pos in positions\<close>, with its \<open>except Exception\<close>.\<close>

definition sync_item :: "clock \<Rightarrow> loop_state \<Rightarrow> position_data \<Rightarrow> loop_state" where
  "sync_item clk st pos =
     (case try_position clk (st_conn st) pos of
        (Inr (OptionSynced option_id), c) \<Rightarrow>
          st\<lparr>st_conn := c, st_option_ids := st_option_ids st @ [option_id],
             st_result := (st_result st)\<lparr>options_synced := options_synced (st_result st) + 1\<rparr>\<rparr>
      | (Inr (StockSynced symbol), c) \<Rightarrow>
          st\<lparr>st_conn := c, st_stock_symbols := st_stock_symbols st @ [symbol],
             st_result := (st_result st)\<lparr>positions_synced := positions_synced (st_result st) + 1\<rparr>\<rparr>
      | (Inr NotHandled, c) \<Rightarrow> st\<lparr>st_conn := c\<rparr>
      | (Inl e, c) \<Rightarrow>
          st\<lparr>st_conn := c,
             st_result := (st_result st)\<lparr>errors := errors (st_result st) @ [error_msg pos e]\<rparr>\<rparr>)"

definition process_positions :: "clock \<Rightarrow> loop_state \<Rightarrow> position_data list \<Rightarrow> loop_state" where
  "process_positions clk st positions = foldl (sync_item clk) st positions"

definition initial_result :: sync_result where
  "initial_result =
     \<lparr>success = False, synced_at = None, options_synced = 0, positions_synced = 0,
      options_closed = 0, positions_closed = 0, errors = []\<rparr>"

text \<open>The state on entry to the loop: \<open>option_ids = []\<close>, \<open>stock_symbols = []\<close>.\<close>

definition initial_state :: "connection \<Rightarrow> loop_state" where
  "initial_state conn =
     \<lparr>st_conn = conn, st_option_ids = [], st_stock_symbols = [], st_result = initial_result\<rparr>"

definition sync_failed :: "sync_result \<Rightarrow> exn \<Rightarrow> sync_result" where
  "sync_failed result e = result\<lparr>errors := errors result @ [''Sync failed: '' @ exn_str e]\<rparr>"

text \<open>
  The block between \<open>conn = get_db_connection()\<close> and \<open>conn.close()\<close>: the loop, then
  the two closure calls. An exception of a closure call leaves the block through
  \<open>finally\<close> and reaches the outer \<open>except\<close>, which is \<open>sync_failed\<close>.
\<close>

definition reconcile :: "clock \<Rightarrow> connection \<Rightarrow> position_data list \<Rightarrow> sync_result \<times> connection" where
  "reconcile clk conn positions =
     (let st = process_positions clk (initial_state conn) positions
      in case close_missing_options clk (st_conn st) (st_option_ids st) of
           (Inl e, c1) \<Rightarrow> (sync_failed (st_result st) e, c1)
         | (Inr n, c1) \<Rightarrow>
             (case close_missing_long_positions clk c1 (st_stock_symbols st) of
                (Inl e, c2) \<Rightarrow> (sync_failed ((st_result st)\<lparr>options_closed := n\<rparr>) e, c2)
              | (Inr m, c2) \<Rightarrow>
                  ((st_result st)\<lparr>options_closed := n, positions_closed := m, success := True,
                                  synced_at := Some (now_synced clk)\<rparr>, c2)))"

definition publish :: "clock \<Rightarrow> sync_service \<Rightarrow> sync_result \<Rightarrow> sync_service" where
  "publish clk svc result = svc\<lparr>last_sync := Some (now_finished clk), last_sync_result := Some result\<rparr>"

text \<open>\<open>if not ibkr_client.is_connected: connected = await ibkr_client.connect(...)\<close>\<close>

definition ensure_connected ::
  "ibkr_client \<Rightarrow> string option \<Rightarrow> int option \<Rightarrow> int option \<Rightarrow> bool \<times> ibkr_client" where
  "ensure_connected client host port client_id =
     (if \<not> is_connected client then connect client host port client_id else (True, client))"

definition sync_positions ::
  "clock \<Rightarrow> sync_service \<Rightarrow> ibkr_client \<Rightarrow> db_environment
     \<Rightarrow> string option \<Rightarrow> int option \<Rightarrow> int option
     \<Rightarrow> sync_result \<times> sync_service \<times> ibkr_client \<times> database" where
  "sync_positions clk svc client dbe host port client_id =
     (let (connected, client1) = ensure_connected client host port client_id
      in if \<not> connected then
           (initial_result\<lparr>errors := [''Failed to connect to IBKR'']\<rparr>, svc, client1, db_file dbe)
         else
           (case get_positions client1 of
              Inl e \<Rightarrow>
                (let result = sync_failed initial_result e
                 in (result, publish clk svc result, client1, db_file dbe))
            | Inr positions \<Rightarrow>
                (case get_db_connection dbe of
                   Inl e \<Rightarrow>
                     (let result = sync_failed initial_result e
                      in (result, publish clk svc result, client1, db_file dbe))
                 | Inr conn \<Rightarrow>
                     (let (result, c) = reconcile clk conn positions
                      in (result, publish clk svc result, client1, conn_close c)))))"

text \<open>\<open>get_sync_status\<close> of database.py and \<open>SyncService.get_status\<close>.\<close>

record db_status =
  open_options :: nat
  open_positions :: nat
  total_symbols :: nat

definition get_sync_status :: "connection \<Rightarrow> (exn + db_status) \<times> connection" where
  "get_sync_status conn =
     (case cursor_execute conn of
        (Some msg, c1) \<Rightarrow> (Inl (DatabaseError msg), c1)
      | (None, c1) \<Rightarrow>
          (case cursor_execute c1 of
             (Some msg, c2) \<Rightarrow> (Inl (DatabaseError msg), c2)
           | (None, c2) \<Rightarrow>
               (case cursor_execute c2 of
                  (Some msg, c3) \<Rightarrow> (Inl (DatabaseError msg), c3)
                | (None, c3) \<Rightarrow>
                    (Inr \<lparr>open_options = length (filter (\<lambda>r. o_closed r = None) (tbl_options c3)),
                          open_positions =
                            length (filter (\<lambda>r. l_closed r = None) (tbl_long_positions c3)),
                          total_symbols = length (remdups (tbl_symbols c3))\<rparr>, c3))))"

record status_view =
  status_connected :: bool
  status_last_sync :: "string option"
  status_last_sync_result :: "sync_result option"
  status_database :: "string + db_status"

definition get_status :: "sync_service \<Rightarrow> ibkr_client \<Rightarrow> db_environment \<Rightarrow> status_view" where
  "get_status svc client dbe =
     (let db_status =
            (case get_db_connection dbe of
               Inl e \<Rightarrow> Inl (exn_str e)
             | Inr conn \<Rightarrow>
                 (case get_sync_status conn of
                    (Inl e, c) \<Rightarrow> Inl (exn_str e)
                  | (Inr s, c) \<Rightarrow> Inr s))
      in \<lparr>status_connected = is_connected client, status_last_sync = last_sync svc,
          status_last_sync_result = last_sync_result svc, status_database = db_status\<rparr>)"

section \<open>Notions used to state the properties\<close>

text \<open>
  What a successful call of \<open>sync_option_position\<close> or \<open>sync_long_position\<close> from the
  loop does to its table: update the selected row, or insert one opened today.
\<close>

definition upsert_option ::
  "clock \<Rightarrow> string \<times> string \<times> rat \<times> date \<times> int \<times> rat \<Rightarrow> option_row list \<Rightarrow> int \<times> option_row list" where
  "upsert_option clk rq rows =
     (case rq of (symbol, option_type, strike, expiration, contracts, premium) \<Rightarrow>
        (case select_option symbol option_type strike (isoformat expiration) rows of
           Some existing \<Rightarrow> (o_id existing, update_option clk contracts premium (o_id existing) rows)
         | None \<Rightarrow>
             insert_option clk symbol option_type (isoformat (today clk)) strike
               (isoformat expiration) premium contracts rows))"

definition upsert_long ::
  "clock \<Rightarrow> string \<times> int \<times> rat \<Rightarrow> long_row list \<Rightarrow> int \<times> long_row list" where
  "upsert_long clk rq rows =
     (case rq of (symbol, shares, buy_price) \<Rightarrow>
        (case select_long symbol rows of
           Some existing \<Rightarrow> (l_id existing, update_long clk shares buy_price (l_id existing) rows)
         | None \<Rightarrow> insert_long clk symbol (isoformat (today clk)) shares buy_price rows))"

text \<open>The identity key of an option row, and of a request to \<open>sync_option_position\<close>.\<close>

definition option_key :: "option_row \<Rightarrow> string \<times> string \<times> rat \<times> string" where
  "option_key r = (o_symbol r, o_type r, o_strike r, o_expiration r)"

definition request_key ::
  "string \<times> string \<times> rat \<times> date \<times> int \<times> rat \<Rightarrow> string \<times> string \<times> rat \<times> string" where
  "request_key rq =
     (case rq of (symbol, option_type, strike, expiration, contracts, premium) \<Rightarrow>
        (symbol, option_type, strike, isoformat expiration))"

text \<open>The state in which the loop over the positions ends.\<close>

abbreviation loop_end :: "clock \<Rightarrow> connection \<Rightarrow> position_data list \<Rightarrow> loop_state" where
  "loop_end clk conn ps \<equiv> process_positions clk (initial_state conn) ps"


text \<open>The open rows of the option table, and the invariant that their keys are distinct.\<close>

definition open_option_rows :: "option_row list \<Rightarrow> option_row list" where
  "open_option_rows rows = filter (\<lambda>r. o_closed r = None) rows"

definition unique_open_keys :: "option_row list \<Rightarrow> bool" where
  "unique_open_keys rows = distinct (map option_key (open_option_rows rows))"

text \<open>
  A sequence of sync requests. Each pass meets its own clock, its own session (whatever
  the broker holds at that moment) and its own store faults; the service object and the
  store file are handed from one pass to the next.
\<close>

record pass =
  pass_clock :: clock
  pass_client :: ibkr_client
  pass_connect_fault :: "string option"
  pass_statement_faults :: "string option list"
  pass_host :: "string option"
  pass_port :: "int option"
  pass_client_id :: "int option"

fun run_passes :: "sync_service \<Rightarrow> database \<Rightarrow> pass list \<Rightarrow> sync_service \<times> database" where
  "run_passes svc db [] = (svc, db)"
| "run_passes svc db (p # ps) =
     (case sync_positions (pass_clock p) svc (pass_client p)
             \<lparr>db_file = db, db_connect_fault = pass_connect_fault p,
              db_statement_faults = pass_statement_faults p\<rparr>
             (pass_host p) (pass_port p) (pass_client_id p) of
        (result, svc', client', db') \<Rightarrow> run_passes svc' db' ps)"

text \<open>
  The exception, if any, that reading one position raises before the store is called: a
  missing key, an expiration that is not a date, a division by a zero multiplier.
\<close>

definition request_failure :: "position_data \<Rightarrow> exn option" where
  "request_failure pos =
     (case getitem (pos_sec_type pos) ''sec_type'' of
        Inl e \<Rightarrow> Some e
      | Inr sec_type \<Rightarrow>
          if sec_type = ''OPT'' then
            (case option_request pos of Inl e \<Rightarrow> Some e | Inr rq \<Rightarrow> None)
          else if sec_type = ''STK'' then
            (case stock_request pos of Inl e \<Rightarrow> Some e | Inr rq \<Rightarrow> None)
          else None)"

text \<open>
  The identity key that the loop hands to \<open>sync_option_position\<close> for an option position,
  when its symbol, right code, strike and expiration can be read (the type as line 75 of
  sync_service.py computes it), and the keys that the loop derives from a snapshot.
\<close>

definition loop_option_key :: "position_data \<Rightarrow> (string \<times> string \<times> rat \<times> string) option" where
  "loop_option_key pos =
     (case (pos_symbol pos, pos_right pos, pos_strike pos, pos_expiration pos) of
        (Some symbol, Some r, Some strike, Some exp_str) \<Rightarrow>
          (case parse_expiration exp_str of
             Inl e \<Rightarrow> None
           | Inr expiration \<Rightarrow>
               Some (symbol, if r = ''C'' then ''Call'' else ''Put'', strike, isoformat expiration))
      | _ \<Rightarrow> None)"

definition loop_option_keys :: "position_data list \<Rightarrow> (string \<times> string \<times> rat \<times> string) set" where
  "loop_option_keys positions =
     set (List.map_filter loop_option_key
            (filter (\<lambda>p. pos_sec_type p = Some ''OPT'') positions))"

text \<open>
  The identity key of an option position as the specification derives it: symbol, type,
  strike and expiration date, where the type is \<open>Call\<close> iff the right code starts with
  \<open>C\<close>, else \<open>Put\<close>. The option keys and the stock symbols of a snapshot; the keys and
  symbols that are open in the store.
\<close>

definition starts_with_C :: "string \<Rightarrow> bool" where
  "starts_with_C r = (case r of [] \<Rightarrow> False | c # cs \<Rightarrow> c = CHR ''C'')"

definition derived_option_key :: "position_data \<Rightarrow> (string \<times> string \<times> rat \<times> string) option" where
  "derived_option_key pos =
     (case (pos_symbol pos, pos_right pos, pos_strike pos, pos_expiration pos) of
        (Some symbol, Some r, Some strike, Some exp_str) \<Rightarrow>
          (case parse_expiration exp_str of
             Inl e \<Rightarrow> None
           | Inr expiration \<Rightarrow>
               Some (symbol, if starts_with_C r then ''Call'' else ''Put'', strike,
                     isoformat expiration))
      | _ \<Rightarrow> None)"

definition snapshot_option_keys :: "position_data list \<Rightarrow> (string \<times> string \<times> rat \<times> string) set" where
  "snapshot_option_keys positions =
     set (List.map_filter derived_option_key
            (filter (\<lambda>p. pos_sec_type p = Some ''OPT'') positions))"

definition snapshot_stock_symbols :: "position_data list \<Rightarrow> string set" where
  "snapshot_stock_symbols positions =
     set (List.map_filter pos_symbol (filter (\<lambda>p. pos_sec_type p = Some ''STK'') positions))"

text \<open>
  A snapshot whose right codes are read alike by the test of the loop and by the
  specification: no code other than \<open>C\<close> itself starts with \<open>C\<close>. The codes \<open>C\<close> and
  \<open>P\<close> that the provider documents are of this kind.
\<close>

definition plain_right_codes :: "position_data list \<Rightarrow> bool" where
  "plain_right_codes positions =
     list_all (\<lambda>p. case pos_right p of None \<Rightarrow> True | Some r \<Rightarrow> starts_with_C r \<longrightarrow> r = ''C'')
       positions"

text \<open>
  What the body of the inner \<open>try\<close> returned or raised for each position of a pass, in
  order, each position meeting the connection as the positions before it left it; the
  positions that returned, and those that raised.
\<close>

fun item_results :: "clock \<Rightarrow> connection \<Rightarrow> position_data list \<Rightarrow> (exn + outcome) list" where
  "item_results clk conn [] = []"
| "item_results clk conn (p # ps) =
     (case try_position clk conn p of (r, c) \<Rightarrow> r # item_results clk c ps)"

definition synced_positions :: "clock \<Rightarrow> connection \<Rightarrow> position_data list \<Rightarrow> position_data list" where
  "synced_positions clk conn positions =
     map fst (filter (\<lambda>pr. \<not> isl (snd pr)) (zip positions (item_results clk conn positions)))"

definition failed_positions :: "clock \<Rightarrow> connection \<Rightarrow> position_data list \<Rightarrow> position_data list" where
  "failed_positions clk conn positions =
     map fst (filter (\<lambda>pr. isl (snd pr)) (zip positions (item_results clk conn positions)))"


definition open_option_keys :: "option_row list \<Rightarrow> (string \<times> string \<times> rat \<times> string) set" where
  "open_option_keys rows = set (map option_key (open_option_rows rows))"

definition open_long_rows :: "long_row list \<Rightarrow> long_row list" where
  "open_long_rows rows = filter (\<lambda>r. l_closed r = None) rows"

definition open_share_symbols :: "long_row list \<Rightarrow> string set" where
  "open_share_symbols rows = set (map l_symbol (open_long_rows rows))"

text \<open>
  A pass without store faults, seen from each table: the requests that the readable
  option and stock positions of the snapshot make, in order; the messages of the
  positions that cannot be read; and the upserts of a list of requests, with the row ids
  they return.
\<close>

fun option_requests ::
  "position_data list \<Rightarrow> (string \<times> string \<times> rat \<times> date \<times> int \<times> rat) list" where
  "option_requests [] = []"
| "option_requests (p # ps) =
     (if pos_sec_type p = Some ''OPT'' then
        (case option_request p of
           Inl e \<Rightarrow> option_requests ps
         | Inr rq \<Rightarrow> rq # option_requests ps)
      else option_requests ps)"

fun stock_requests :: "position_data list \<Rightarrow> (string \<times> int \<times> rat) list" where
  "stock_requests [] = []"
| "stock_requests (p # ps) =
     (if pos_sec_type p = Some ''STK'' then
        (case stock_request p of
           Inl e \<Rightarrow> stock_requests ps
         | Inr rq \<Rightarrow> rq # stock_requests ps)
      else stock_requests ps)"

fun failure_messages :: "position_data list \<Rightarrow> string list" where
  "failure_messages [] = []"
| "failure_messages (p # ps) =
     (case request_failure p of
        None \<Rightarrow> failure_messages ps
      | Some e \<Rightarrow> error_msg p e # failure_messages ps)"

fun upsert_options ::
  "clock \<Rightarrow> (string \<times> string \<times> rat \<times> date \<times> int \<times> rat) list \<Rightarrow> option_row list
     \<Rightarrow> int list \<times> option_row list" where
  "upsert_options clk [] rows = ([], rows)"
| "upsert_options clk (rq # rqs) rows =
     (case upsert_option clk rq rows of
        (i, rows1) \<Rightarrow>
          (case upsert_options clk rqs rows1 of (ids, rows2) \<Rightarrow> (i # ids, rows2)))"

fun upsert_longs ::
  "clock \<Rightarrow> (string \<times> int \<times> rat) list \<Rightarrow> long_row list \<Rightarrow> int list \<times> long_row list" where
  "upsert_longs clk [] rows = ([], rows)"
| "upsert_longs clk (rq # rqs) rows =
     (case upsert_long clk rq rows of
        (i, rows1) \<Rightarrow>
          (case upsert_longs clk rqs rows1 of (ids, rows2) \<Rightarrow> (i # ids, rows2)))"

text \<open>The id of the row that the lookup of a request selects.\<close>

definition selected_option ::
  "string \<times> string \<times> rat \<times> date \<times> int \<times> rat \<Rightarrow> option_row list \<Rightarrow> int option" where
  "selected_option rq rows =
     (case rq of (symbol, option_type, strike, expiration, contracts, premium) \<Rightarrow>
        map_option o_id (select_option symbol option_type strike (isoformat expiration) rows))"

definition selected_long :: "string \<times> int \<times> rat \<Rightarrow> long_row list \<Rightarrow> int option" where
  "selected_long rq rows =
     (case rq of (symbol, shares, buy_price) \<Rightarrow> map_option l_id (select_long symbol rows))"

text \<open>
  The values that a list of writes leaves under a row id: those of the last write to
  that id. A write is a row id with the two values an update sets.
\<close>

fun last_write :: "(int \<times> 'a) list \<Rightarrow> int \<Rightarrow> 'a option" where
  "last_write [] y = None"
| "last_write ((i, v) # ws) y =
     (case last_write ws y of
        Some v' \<Rightarrow> Some v'
      | None \<Rightarrow> if i = y then Some v else None)"

fun write_options :: "clock \<Rightarrow> (int \<times> int \<times> rat) list \<Rightarrow> option_row list \<Rightarrow> option_row list" where
  "write_options clk [] rows = rows"
| "write_options clk ((i, contracts, premium) # ws) rows =
     write_options clk ws (update_option clk contracts premium i rows)"

fun write_longs :: "clock \<Rightarrow> (int \<times> int \<times> rat) list \<Rightarrow> long_row list \<Rightarrow> long_row list" where
  "write_longs clk [] rows = rows"
| "write_longs clk ((i, shares, buy_price) # ws) rows =
     write_longs clk ws (update_long clk shares buy_price i rows)"

definition option_values :: "string \<times> string \<times> rat \<times> date \<times> int \<times> rat \<Rightarrow> int \<times> rat" where
  "option_values rq =
     (case rq of (symbol, option_type, strike, expiration, contracts, premium) \<Rightarrow>
        (contracts, premium))"

text \<open>A row with its update time blanked: two tables are compared up to that column.\<close>

definition untimed_option :: "option_row \<Rightarrow> option_row" where
  "untimed_option r = r\<lparr>o_updated_at := []\<rparr>"

definition untimed_long :: "long_row \<Rightarrow> long_row" where
  "untimed_long r = r\<lparr>l_updated_at := []\<rparr>"

text \<open>The table that a closure statement leaves, given the ids or symbols to keep.\<close>

definition close_options_except :: "clock \<Rightarrow> int list \<Rightarrow> option_row list \<Rightarrow> option_row list" where
  "close_options_except clk ids rows =
     map (\<lambda>r. if o_closed r = None \<and> o_id r \<notin> set ids then close_option_row clk r else r) rows"

definition close_longs_except :: "clock \<Rightarrow> string list \<Rightarrow> long_row list \<Rightarrow> long_row list" where
  "close_longs_except clk symbols rows =
     map (\<lambda>r. if l_closed r = None \<and> l_symbol r \<notin> set symbols then close_long_row clk r else r) rows"

section \<open>Example data\<close>

text \<open>
  A clock, the open option row and the open share row of the two scenarios of the
  specification, the broker position that matches the option row, and a store holding
  both rows.
\<close>

definition example_clock :: clock where
  "example_clock =
     \<lparr>today = \<lparr>year = 2024, month = 5, day = 17\<rparr>, current_timestamp = ''2024-05-17 14:30:00'',
      now_synced = ''2024-05-17T14:30:00.120000'', now_finished = ''2024-05-17T14:30:00.125000''\<rparr>"

definition aapl_put_row :: option_row where
  "aapl_put_row =
     \<lparr>o_id = 1, o_symbol = ''AAPL'', o_type = ''Put'', o_opened = ''2024-04-02'', o_strike = 150,
      o_expiration = ''2024-06-21'', o_premium = 7 / 2, o_contracts = 2, o_closed = None,
      o_updated_at = ''2024-04-02 09:00:00''\<rparr>"

definition msft_row :: long_row where
  "msft_row =
     \<lparr>l_id = 1, l_symbol = ''MSFT'', l_opened = ''2024-03-11'', l_shares = 100, l_buy_price = 310,
      l_closed = None, l_updated_at = ''2024-03-11 09:00:00''\<rparr>"

definition example_db :: database where
  "example_db =
     \<lparr>tbl_symbols = [''AAPL'', ''MSFT''], tbl_options = [aapl_put_row],
      tbl_long_positions = [msft_row]\<rparr>"

definition healthy_store :: "database \<Rightarrow> db_environment" where
  "healthy_store db = \<lparr>db_file = db, db_connect_fault = None, db_statement_faults = []\<rparr>"

definition faulty_store :: "database \<Rightarrow> string option list \<Rightarrow> db_environment" where
  "faulty_store db faults = \<lparr>db_file = db, db_connect_fault = None, db_statement_faults = faults\<rparr>"

definition aapl_put_contract :: contract where
  "aapl_put_contract =
     \<lparr>con_symbol = ''AAPL'', con_secType = ''OPT'', con_strike = 150,
      con_lastTradeDateOrContractMonth = ''20240621'', con_right = ''P'', con_multiplier = ''100''\<rparr>"

definition aapl_put_position :: ib_position where
  "aapl_put_position =
     \<lparr>ibp_account = ''U1234567'', ibp_contract = aapl_put_contract, ibp_position = - 3,
      ibp_avgCost = 375\<rparr>"

definition aapl_put_item :: position_data where
  "aapl_put_item =
     \<lparr>pos_account = Some ''U1234567'', pos_symbol = Some ''AAPL'', pos_sec_type = Some ''OPT'',
      pos_position = Some (- 3), pos_avg_cost = Some 375, pos_strike = Some 150,
      pos_expiration = Some ''20240621'', pos_right = Some ''P'', pos_multiplier = Some 100\<rparr>"


text \<open>A session that is up and holds the given positions, and one that cannot be opened.\<close>

definition session_holding :: "ib_position list \<Rightarrow> ibkr_client" where
  "session_holding positions =
     \<lparr>ib_isConnected = True, flag_connected = True, ib_connectAsync = (\<lambda>h p c. None),
      ib_positions = Inr positions\<rparr>"

definition refusing_client :: ibkr_client where
  "refusing_client =
     \<lparr>ib_isConnected = False, flag_connected = False,
      ib_connectAsync = (\<lambda>h p c. Some ''Connection refused''), ib_positions = Inr []\<rparr>"

definition idle_service :: sync_service where
  "idle_service = \<lparr>last_sync = None, last_sync_result = None\<rparr>"

definition example_conn :: connection where
  "example_conn =
     \<lparr>tbl_symbols = [''AAPL'', ''MSFT''], tbl_options = [aapl_put_row],
      tbl_long_positions = [msft_row], pending_faults = []\<rparr>"

definition empty_db :: database where
  "empty_db = \<lparr>tbl_symbols = [], tbl_options = [], tbl_long_positions = []\<rparr>"

definition aapl_only_db :: database where
  "aapl_only_db =
     \<lparr>tbl_symbols = [''AAPL''], tbl_options = [aapl_put_row], tbl_long_positions = []\<rparr>"

definition open_connection :: "database \<Rightarrow> string option list \<Rightarrow> connection" where
  "open_connection db faults =
     \<lparr>tbl_symbols = tbl_symbols db, tbl_options = tbl_options db,
      tbl_long_positions = tbl_long_positions db, pending_faults = faults\<rparr>"

text \<open>A call whose right code the broker spells out, and the same put with multiplier 0.\<close>

definition aapl_call_position :: ib_position where
  "aapl_call_position =
     aapl_put_position\<lparr>ibp_contract := aapl_put_contract\<lparr>con_right := ''CALL''\<rparr>\<rparr>"

definition aapl_call_item :: position_data where
  "aapl_call_item = aapl_put_item\<lparr>pos_right := Some ''CALL''\<rparr>"

definition zero_multiplier_position :: ib_position where
  "zero_multiplier_position =
     aapl_put_position\<lparr>ibp_contract := aapl_put_contract\<lparr>con_multiplier := ''0''\<rparr>\<rparr>"

definition zero_multiplier_item :: position_data where
  "zero_multiplier_item = aapl_put_item\<lparr>pos_multiplier := Some 0\<rparr>"

text \<open>A pass whose snapshot lists the AAPL put twice, once per account.\<close>

definition doubled_pass :: pass where
  "doubled_pass =
     \<lparr>pass_clock = example_clock,
      pass_client = session_holding [aapl_put_position, aapl_put_position\<lparr>ibp_position := 5\<rparr>],
      pass_connect_fault = None, pass_statement_faults = [],
      pass_host = None, pass_port = None, pass_client_id = None\<rparr>"


definition later_clock :: clock where
  "later_clock =
     \<lparr>today = \<lparr>year = 2024, month = 5, day = 18\<rparr>, current_timestamp = ''2024-05-18 09:15:00'',
      now_synced = ''2024-05-18T09:15:00.301000'', now_finished = ''2024-05-18T09:15:00.306000''\<rparr>"

text \<open>Two passes in a row over the same snapshot, starting from an empty store.\<close>

definition first_run :: "sync_result \<times> sync_service \<times> ibkr_client \<times> database" where
  "first_run =
     sync_positions example_clock idle_service (session_holding [aapl_put_position])
       (healthy_store empty_db) None None None"

definition second_run :: "sync_result \<times> sync_service \<times> ibkr_client \<times> database" where
  "second_run =
     sync_positions later_clock (fst (snd first_run)) (session_holding [aapl_put_position])
       (healthy_store (snd (snd (snd first_run)))) None None None"

text \<open>A run that follows a published run and cannot connect.\<close>

definition refused_run :: "sync_result \<times> sync_service \<times> ibkr_client \<times> database" where
  "refused_run =
     sync_positions later_clock (fst (snd first_run)) refusing_client
       (healthy_store (snd (snd (snd first_run)))) None None None"

section \<open>Basic facts about the model\<close>

subsection \<open>Statements and store functions\<close>

lemma cursor_execute_tables:
  assumes "cursor_execute conn = (f, c)"
  shows "tbl_options c = tbl_options conn" and "tbl_long_positions c = tbl_long_positions conn"
    and "tbl_symbols c = tbl_symbols conn"
  using assms by (auto simp: cursor_execute_def split: list.splits)

lemma cursor_execute_same:
  "cursor_execute conn = (f, c) \<Longrightarrow>
     tbl_options c = tbl_options conn \<and> tbl_long_positions c = tbl_long_positions conn
     \<and> tbl_symbols c = tbl_symbols conn"
  by (auto simp: cursor_execute_def split: list.splits)

lemma ensure_symbol_exists_same:
  "ensure_symbol_exists conn symbol = (res, c) \<Longrightarrow>
     tbl_options c = tbl_options conn \<and> tbl_long_positions c = tbl_long_positions conn"
  by (auto simp: ensure_symbol_exists_def split: prod.splits option.splits
           dest: cursor_execute_same)

lemma cursor_execute_no_faults:
  "pending_faults conn = [] \<Longrightarrow> cursor_execute conn = (None, conn)"
  by (simp add: cursor_execute_def)

lemma ensure_symbol_exists_tables:
  assumes "ensure_symbol_exists conn symbol = (res, c)"
  shows "tbl_options c = tbl_options conn" and "tbl_long_positions c = tbl_long_positions conn"
  using assms
  by (auto simp: ensure_symbol_exists_def split: prod.splits option.splits
           dest: cursor_execute_tables)

lemma sync_option_position_Inr:
  assumes "sync_option_position clk conn symbol option_type strike expiration contracts premium None
             = (Inr i, c')"
  shows "(i, tbl_options c') =
           upsert_option clk (symbol, option_type, strike, expiration, contracts, premium)
             (tbl_options conn)"
    and "tbl_long_positions c' = tbl_long_positions conn"
  using assms
  by (auto simp: sync_option_position_def ensure_symbol_exists_def cursor_execute_def
                 upsert_option_def Let_def
           split: prod.splits option.splits sum.splits list.splits)

lemma sync_option_position_Inl:
  assumes "sync_option_position clk conn symbol option_type strike expiration contracts premium opened
             = (Inl e, c')"
  shows "tbl_options c' = tbl_options conn" and "tbl_long_positions c' = tbl_long_positions conn"
  using assms
  by (auto simp: sync_option_position_def ensure_symbol_exists_def cursor_execute_def Let_def
           split: prod.splits option.splits sum.splits list.splits)

lemma sync_long_position_Inr:
  assumes "sync_long_position clk conn symbol shares buy_price None = (Inr i, c')"
  shows "(i, tbl_long_positions c') = upsert_long clk (symbol, shares, buy_price) (tbl_long_positions conn)"
    and "tbl_options c' = tbl_options conn"
  using assms
  by (auto simp: sync_long_position_def ensure_symbol_exists_def cursor_execute_def
                 upsert_long_def Let_def
           split: prod.splits option.splits sum.splits list.splits)

lemma sync_long_position_Inl:
  assumes "sync_long_position clk conn symbol shares buy_price opened = (Inl e, c')"
  shows "tbl_options c' = tbl_options conn" and "tbl_long_positions c' = tbl_long_positions conn"
  using assms
  by (auto simp: sync_long_position_def ensure_symbol_exists_def cursor_execute_def Let_def
           split: prod.splits option.splits sum.splits list.splits)

lemma sync_option_position_no_faults:
  assumes "pending_faults conn = []"
  shows "sync_option_position clk conn symbol option_type strike expiration contracts premium None =
           (Inr (fst (upsert_option clk (symbol, option_type, strike, expiration, contracts, premium)
                        (tbl_options conn))),
            conn\<lparr>tbl_symbols := List.insert symbol (tbl_symbols conn),
                 tbl_options :=
                   snd (upsert_option clk (symbol, option_type, strike, expiration, contracts, premium)
                          (tbl_options conn))\<rparr>)"
  using assms
  by (auto simp: sync_option_position_def ensure_symbol_exists_def cursor_execute_def
                 upsert_option_def Let_def
           split: prod.splits option.splits)

lemma sync_long_position_no_faults:
  assumes "pending_faults conn = []"
  shows "sync_long_position clk conn symbol shares buy_price None =
           (Inr (fst (upsert_long clk (symbol, shares, buy_price) (tbl_long_positions conn))),
            conn\<lparr>tbl_symbols := List.insert symbol (tbl_symbols conn),
                 tbl_long_positions :=
                   snd (upsert_long clk (symbol, shares, buy_price) (tbl_long_positions conn))\<rparr>)"
  using assms
  by (auto simp: sync_long_position_def ensure_symbol_exists_def cursor_execute_def
                 upsert_long_def Let_def
           split: prod.splits option.splits)

subsection \<open>One position\<close>

lemma try_position_option:
  assumes "try_position clk conn pos = (Inr (OptionSynced i), c')"
  shows "pos_sec_type pos = Some ''OPT''"
    and "\<exists>rq. option_request pos = Inr rq
              \<and> (i, tbl_options c') = upsert_option clk rq (tbl_options conn)"
    and "tbl_long_positions c' = tbl_long_positions conn"
  using assms
  by (auto simp: try_position_def getitem_def
           split: option.splits sum.splits prod.splits if_splits
           dest: sync_option_position_Inr)

lemma try_position_stock:
  assumes "try_position clk conn pos = (Inr (StockSynced symbol), c')"
  shows "pos_sec_type pos = Some ''STK''"
    and "\<exists>rq i. stock_request pos = Inr rq \<and> fst rq = symbol
              \<and> (i, tbl_long_positions c') = upsert_long clk rq (tbl_long_positions conn)"
    and "tbl_options c' = tbl_options conn"
  using assms
  by (auto simp: try_position_def getitem_def
           split: option.splits sum.splits prod.splits if_splits
           dest: sync_long_position_Inr)

lemma try_position_not_handled:
  assumes "try_position clk conn pos = (Inr NotHandled, c')"
  shows "c' = conn" and "pos_sec_type pos \<noteq> Some ''OPT''" and "pos_sec_type pos \<noteq> Some ''STK''"
  using assms
  by (auto simp: try_position_def getitem_def
           split: option.splits sum.splits prod.splits if_splits)

lemma try_position_error:
  assumes "try_position clk conn pos = (Inl e, c')"
  shows "tbl_options c' = tbl_options conn" and "tbl_long_positions c' = tbl_long_positions conn"
  using assms
  by (auto simp: try_position_def getitem_def
           split: option.splits sum.splits prod.splits if_splits
           dest: sync_option_position_Inl sync_long_position_Inl)

lemma stock_request_symbol:
  "stock_request pos = Inr rq \<Longrightarrow> pos_symbol pos = Some (fst rq)"
  by (auto simp: stock_request_def getitem_def split: option.splits sum.splits)

lemma sync_item_cases:
  obtains
    (Option) i rq where "pos_sec_type pos = Some ''OPT''" and "option_request pos = Inr rq"
      and "(i, tbl_options (st_conn (sync_item clk st pos))) =
             upsert_option clk rq (tbl_options (st_conn st))"
      and "tbl_long_positions (st_conn (sync_item clk st pos)) = tbl_long_positions (st_conn st)"
      and "st_option_ids (sync_item clk st pos) = st_option_ids st @ [i]"
      and "st_stock_symbols (sync_item clk st pos) = st_stock_symbols st"
      and "errors (st_result (sync_item clk st pos)) = errors (st_result st)"
  | (Stock) i rq where "pos_sec_type pos = Some ''STK''" and "stock_request pos = Inr rq"
      and "(i, tbl_long_positions (st_conn (sync_item clk st pos))) =
             upsert_long clk rq (tbl_long_positions (st_conn st))"
      and "tbl_options (st_conn (sync_item clk st pos)) = tbl_options (st_conn st)"
      and "st_option_ids (sync_item clk st pos) = st_option_ids st"
      and "st_stock_symbols (sync_item clk st pos) = st_stock_symbols st @ [fst rq]"
      and "errors (st_result (sync_item clk st pos)) = errors (st_result st)"
  | (Skip) "pos_sec_type pos \<noteq> Some ''OPT''" and "pos_sec_type pos \<noteq> Some ''STK''"
      and "sync_item clk st pos = st"
  | (Error) e c where "try_position clk (st_conn st) pos = (Inl e, c)"
      and "tbl_options (st_conn (sync_item clk st pos)) = tbl_options (st_conn st)"
      and "tbl_long_positions (st_conn (sync_item clk st pos)) = tbl_long_positions (st_conn st)"
      and "st_option_ids (sync_item clk st pos) = st_option_ids st"
      and "st_stock_symbols (sync_item clk st pos) = st_stock_symbols st"
      and "errors (st_result (sync_item clk st pos)) = errors (st_result st) @ [error_msg pos e]"
proof (cases "try_position clk (st_conn st) pos")
  case (Pair res c)
  show thesis
  proof (cases res)
    case (Inl e)
    with Pair have t: "try_position clk (st_conn st) pos = (Inl e, c)" by simp
    show thesis
      by (rule Error[OF t]) (use t try_position_error[OF t] in \<open>simp_all add: sync_item_def\<close>)
  next
    case (Inr out)
    show thesis
    proof (cases out)
      case (OptionSynced i)
      with Pair Inr have t: "try_position clk (st_conn st) pos = (Inr (OptionSynced i), c)" by simp
      from try_position_option(2)[OF t] obtain rq where rq: "option_request pos = Inr rq"
        "(i, tbl_options c) = upsert_option clk rq (tbl_options (st_conn st))" by blast
      show thesis
        by (rule Option[OF try_position_option(1)[OF t] rq(1)])
           (use t rq try_position_option(3)[OF t] in \<open>simp_all add: sync_item_def\<close>)
    next
      case (StockSynced symbol)
      with Pair Inr have t: "try_position clk (st_conn st) pos = (Inr (StockSynced symbol), c)"
        by simp
      from try_position_stock(2)[OF t] obtain rq i where rq: "stock_request pos = Inr rq"
        "fst rq = symbol"
        "(i, tbl_long_positions c) = upsert_long clk rq (tbl_long_positions (st_conn st))"
        by blast
      show thesis
        by (rule Stock[OF try_position_stock(1)[OF t] rq(1), of i])
           (use t rq try_position_stock(3)[OF t] in \<open>simp_all add: sync_item_def\<close>)
    next
      case NotHandled
      with Pair Inr have t: "try_position clk (st_conn st) pos = (Inr NotHandled, c)" by simp
      show thesis
        by (rule Skip) (use t try_position_not_handled[OF t] in \<open>simp_all add: sync_item_def\<close>)
    qed
  qed
qed

lemma process_positions_Nil [simp]: "process_positions clk st [] = st"
  by (simp add: process_positions_def)

lemma process_positions_Cons [simp]:
  "process_positions clk st (p # ps) = process_positions clk (sync_item clk st p) ps"
  by (simp add: process_positions_def)


lemma process_positions_snoc:
  "process_positions clk st (ps @ [p]) = sync_item clk (process_positions clk st ps) p"
  by (simp add: process_positions_def)

subsection \<open>The closure step and the whole pass\<close>

lemma close_missing_options_Inr:
  assumes "close_missing_options clk conn ids = (Inr n, c')"
  shows "tbl_options c' =
           map (\<lambda>r. if o_closed r = None \<and> o_id r \<notin> set ids then close_option_row clk r else r)
               (tbl_options conn)"
    and "tbl_long_positions c' = tbl_long_positions conn"
    and "n = length (filter (\<lambda>r. o_closed r = None \<and> o_id r \<notin> set ids) (tbl_options conn))"
  using assms
  by (auto simp: close_missing_options_def close_options_where_def cursor_execute_def
           split: if_splits prod.splits option.splits list.splits)

lemma close_missing_options_Inl:
  assumes "close_missing_options clk conn ids = (Inl e, c')"
  shows "tbl_options c' = tbl_options conn" and "tbl_long_positions c' = tbl_long_positions conn"
  using assms
  by (auto simp: close_missing_options_def close_options_where_def cursor_execute_def
           split: if_splits prod.splits option.splits list.splits)

lemma close_missing_long_positions_Inr:
  assumes "close_missing_long_positions clk conn symbols = (Inr n, c')"
  shows "tbl_long_positions c' =
           map (\<lambda>r. if l_closed r = None \<and> l_symbol r \<notin> set symbols then close_long_row clk r else r)
               (tbl_long_positions conn)"
    and "tbl_options c' = tbl_options conn"
    and "n = length (filter (\<lambda>r. l_closed r = None \<and> l_symbol r \<notin> set symbols)
                       (tbl_long_positions conn))"
  using assms
  by (auto simp: close_missing_long_positions_def close_longs_where_def cursor_execute_def
           split: if_splits prod.splits option.splits list.splits)

lemma close_missing_long_positions_Inl:
  assumes "close_missing_long_positions clk conn symbols = (Inl e, c')"
  shows "tbl_options c' = tbl_options conn" and "tbl_long_positions c' = tbl_long_positions conn"
  using assms
  by (auto simp: close_missing_long_positions_def close_longs_where_def cursor_execute_def
           split: if_splits prod.splits option.splits list.splits)

lemma sync_item_success [simp]:
  "success (st_result (sync_item clk st pos)) = success (st_result st)"
  by (auto simp: sync_item_def split: prod.splits sum.splits outcome.splits)

lemma process_positions_success [simp]:
  "success (st_result (process_positions clk st ps)) = success (st_result st)"
  by (induction ps arbitrary: st) simp_all

lemma reconcile_cases:
  obtains
    (OptionsFault) e c1 where
      "close_missing_options clk (st_conn (loop_end clk conn ps)) (st_option_ids (loop_end clk conn ps))
         = (Inl e, c1)"
      and "reconcile clk conn ps = (sync_failed (st_result (loop_end clk conn ps)) e, c1)"
  | (LongsFault) n c1 e c2 where
      "close_missing_options clk (st_conn (loop_end clk conn ps)) (st_option_ids (loop_end clk conn ps))
         = (Inr n, c1)"
      and "close_missing_long_positions clk c1 (st_stock_symbols (loop_end clk conn ps)) = (Inl e, c2)"
      and "reconcile clk conn ps =
             (sync_failed ((st_result (loop_end clk conn ps))\<lparr>options_closed := n\<rparr>) e, c2)"
  | (Done) n c1 m c2 where
      "close_missing_options clk (st_conn (loop_end clk conn ps)) (st_option_ids (loop_end clk conn ps))
         = (Inr n, c1)"
      and "close_missing_long_positions clk c1 (st_stock_symbols (loop_end clk conn ps)) = (Inr m, c2)"
      and "reconcile clk conn ps =
             ((st_result (loop_end clk conn ps))
                \<lparr>options_closed := n, positions_closed := m, success := True,
                 synced_at := Some (now_synced clk)\<rparr>, c2)"
proof (cases "close_missing_options clk (st_conn (loop_end clk conn ps))
                (st_option_ids (loop_end clk conn ps))")
  case (Pair r1 c1)
  show thesis
  proof (cases r1)
    case (Inl e)
    with Pair show thesis by (intro OptionsFault[of e c1]) (simp_all add: reconcile_def)
  next
    case (Inr n)
    show thesis
    proof (cases "close_missing_long_positions clk c1 (st_stock_symbols (loop_end clk conn ps))")
      case (Pair r2 c2)
      show thesis
      proof (cases r2)
        case (Inl e)
        with Pair \<open>r1 = Inr n\<close>
          \<open>close_missing_options clk (st_conn (loop_end clk conn ps))
             (st_option_ids (loop_end clk conn ps)) = (r1, c1)\<close>
        show thesis by (intro LongsFault[of n c1 e c2]) (simp_all add: reconcile_def)
      next
        case (Inr m)
        with Pair \<open>r1 = Inr n\<close>
          \<open>close_missing_options clk (st_conn (loop_end clk conn ps))
             (st_option_ids (loop_end clk conn ps)) = (r1, c1)\<close>
        show thesis by (intro Done[of n c1 m c2]) (simp_all add: reconcile_def)
      qed
    qed
  qed
qed

lemma initial_state_success [simp]: "success (st_result (initial_state conn)) = False"
  by (simp add: initial_state_def initial_result_def)

lemma reconcile_success:
  assumes "reconcile clk conn ps = (result, c')" and "success result"
  shows "tbl_options c' =
           map (\<lambda>r. if o_closed r = None \<and> o_id r \<notin> set (st_option_ids (loop_end clk conn ps))
                     then close_option_row clk r else r)
               (tbl_options (st_conn (loop_end clk conn ps)))"
    and "tbl_long_positions c' =
           map (\<lambda>r. if l_closed r = None \<and> l_symbol r \<notin> set (st_stock_symbols (loop_end clk conn ps))
                     then close_long_row clk r else r)
               (tbl_long_positions (st_conn (loop_end clk conn ps)))"
    and "errors result = errors (st_result (loop_end clk conn ps))"
proof -
  have "tbl_options c' =
           map (\<lambda>r. if o_closed r = None \<and> o_id r \<notin> set (st_option_ids (loop_end clk conn ps))
                     then close_option_row clk r else r)
               (tbl_options (st_conn (loop_end clk conn ps)))
      \<and> tbl_long_positions c' =
           map (\<lambda>r. if l_closed r = None \<and> l_symbol r \<notin> set (st_stock_symbols (loop_end clk conn ps))
                     then close_long_row clk r else r)
               (tbl_long_positions (st_conn (loop_end clk conn ps)))
      \<and> errors result = errors (st_result (loop_end clk conn ps))"
  proof (cases rule: reconcile_cases[of clk conn ps])
    case (OptionsFault e c1)
    with assms(1) have "result = sync_failed (st_result (loop_end clk conn ps)) e" by simp
    then have "\<not> success result" by (simp add: sync_failed_def)
    with assms(2) show ?thesis by simp
  next
    case (LongsFault n c1 e c2)
    with assms(1) have "result = sync_failed ((st_result (loop_end clk conn ps))\<lparr>options_closed := n\<rparr>) e"
      by simp
    then have "\<not> success result" by (simp add: sync_failed_def)
    with assms(2) show ?thesis by simp
  next
    case (Done n c1 m c2)
    from Done(3) assms(1) have r: "result = (st_result (loop_end clk conn ps))
                \<lparr>options_closed := n, positions_closed := m, success := True,
                 synced_at := Some (now_synced clk)\<rparr>" and c: "c' = c2" by simp_all
    from close_missing_options_Inr[OF Done(1)] close_missing_long_positions_Inr[OF Done(2)] r c
    show ?thesis by simp
  qed
  then show "tbl_options c' =
           map (\<lambda>r. if o_closed r = None \<and> o_id r \<notin> set (st_option_ids (loop_end clk conn ps))
                     then close_option_row clk r else r)
               (tbl_options (st_conn (loop_end clk conn ps)))"
    and "tbl_long_positions c' =
           map (\<lambda>r. if l_closed r = None \<and> l_symbol r \<notin> set (st_stock_symbols (loop_end clk conn ps))
                     then close_long_row clk r else r)
               (tbl_long_positions (st_conn (loop_end clk conn ps)))"
    and "errors result = errors (st_result (loop_end clk conn ps))"
    by simp_all
qed

subsection \<open>The orchestrator\<close>

lemma sync_positions_connect_failed:
  assumes "ensure_connected client host port client_id = (False, client1)"
  shows "sync_positions clk svc client dbe host port client_id =
           (initial_result\<lparr>errors := [''Failed to connect to IBKR'']\<rparr>, svc, client1, db_file dbe)"
  using assms by (simp add: sync_positions_def)

lemma sync_positions_fetch_failed:
  assumes "ensure_connected client host port client_id = (True, client1)"
    and "get_positions client1 = Inl e"
  shows "sync_positions clk svc client dbe host port client_id =
           (sync_failed initial_result e, publish clk svc (sync_failed initial_result e),
            client1, db_file dbe)"
  using assms by (simp add: sync_positions_def Let_def)

lemma sync_positions_db_failed:
  assumes "ensure_connected client host port client_id = (True, client1)"
    and "get_positions client1 = Inr positions"
    and "get_db_connection dbe = Inl e"
  shows "sync_positions clk svc client dbe host port client_id =
           (sync_failed initial_result e, publish clk svc (sync_failed initial_result e),
            client1, db_file dbe)"
  using assms by (simp add: sync_positions_def Let_def)

lemma sync_positions_reconciled:
  assumes "ensure_connected client host port client_id = (True, client1)"
    and "get_positions client1 = Inr positions"
    and "get_db_connection dbe = Inr conn"
  shows "sync_positions clk svc client dbe host port client_id =
           (fst (reconcile clk conn positions),
            publish clk svc (fst (reconcile clk conn positions)),
            client1, conn_close (snd (reconcile clk conn positions)))"
  using assms by (simp add: sync_positions_def split: prod.splits)

lemma sync_positions_published:
  assumes "ensure_connected client host port client_id = (True, client1)"
    and "sync_positions clk svc client dbe host port client_id = (result, svc', client', db')"
  shows "svc' = publish clk svc result"
proof (cases "get_positions client1")
  case (Inl e)
  from sync_positions_fetch_failed[OF assms(1) Inl, where clk=clk and svc=svc and dbe=dbe] assms(2)
  show ?thesis by simp
next
  case (Inr positions)
  note fetched = this
  show ?thesis
  proof (cases "get_db_connection dbe")
    case (Inl e)
    from sync_positions_db_failed[OF assms(1) fetched Inl, where clk=clk and svc=svc] assms(2)
    show ?thesis by simp
  next
    case (Inr conn)
    from sync_positions_reconciled[OF assms(1) fetched Inr, where clk=clk and svc=svc] assms(2)
    show ?thesis by simp
  qed
qed

lemma ensure_connected_False_iff:
  "fst (ensure_connected client host port client_id) = False \<longleftrightarrow>
     \<not> is_connected client \<and> \<not> fst (connect client host port client_id)"
  by (simp add: ensure_connected_def)


lemma sync_positions_success:
  assumes "sync_positions clk svc client dbe host port client_id = (result, svc', client', db')"
    and "success result"
    and "get_positions (snd (ensure_connected client host port client_id)) = Inr positions"
  obtains conn where "get_db_connection dbe = Inr conn"
    and "reconcile clk conn positions = (result, snd (reconcile clk conn positions))"
    and "db' = conn_close (snd (reconcile clk conn positions))"
    and "svc' = publish clk svc result"
proof (cases "ensure_connected client host port client_id")
  case (Pair connected client1)
  show thesis
  proof (cases connected)
    case False
    with Pair have "ensure_connected client host port client_id = (False, client1)" by simp
    from sync_positions_connect_failed[OF this, where clk=clk and svc=svc and dbe=dbe] assms(1)
    have "\<not> success result" by (auto simp: initial_result_def)
    with assms(2) show thesis by simp
  next
    case True
    with Pair have ec: "ensure_connected client host port client_id = (True, client1)" by simp
    with assms(3) have gp: "get_positions client1 = Inr positions" by simp
    show thesis
    proof (cases "get_db_connection dbe")
      case (Inl e)
      from sync_positions_db_failed[OF ec gp Inl, where clk=clk and svc=svc] assms(1)
      have "\<not> success result" by (auto simp: initial_result_def sync_failed_def)
      with assms(2) show thesis by simp
    next
      case (Inr conn)
      from sync_positions_reconciled[OF ec gp Inr, where clk=clk and svc=svc] assms(1)
      show thesis by (intro that[of conn]) (auto simp: Inr)
    qed
  qed
qed

lemma get_db_connection_tables:
  assumes "get_db_connection dbe = Inr conn"
  shows "tbl_options conn = tbl_options (db_file dbe)"
    and "tbl_long_positions conn = tbl_long_positions (db_file dbe)"
    and "tbl_symbols conn = tbl_symbols (db_file dbe)"
    and "pending_faults conn = db_statement_faults dbe"
  using assms by (auto simp: get_db_connection_def split: option.splits)

lemma conn_close_tables [simp]:
  "tbl_options (conn_close c) = tbl_options c"
  "tbl_long_positions (conn_close c) = tbl_long_positions c"
  "tbl_symbols (conn_close c) = tbl_symbols c"
  by (simp_all add: conn_close_def)

lemma process_positions_no_options:
  assumes "\<forall>p\<in>set ps. pos_sec_type p \<noteq> Some ''OPT''"
  shows "st_option_ids (process_positions clk st ps) = st_option_ids st
         \<and> tbl_options (st_conn (process_positions clk st ps)) = tbl_options (st_conn st)"
  using assms
proof (induction ps arbitrary: st)
  case Nil
  then show ?case by simp
next
  case (Cons p ps)
  have "st_option_ids (sync_item clk st p) = st_option_ids st
        \<and> tbl_options (st_conn (sync_item clk st p)) = tbl_options (st_conn st)"
    by (cases rule: sync_item_cases[of p clk st]) (use Cons.prems in auto)
  with Cons show ?case by simp
qed

lemma process_positions_no_stocks:
  assumes "\<forall>p\<in>set ps. pos_sec_type p \<noteq> Some ''STK''"
  shows "st_stock_symbols (process_positions clk st ps) = st_stock_symbols st
         \<and> tbl_long_positions (st_conn (process_positions clk st ps)) = tbl_long_positions (st_conn st)"
  using assms
proof (induction ps arbitrary: st)
  case Nil
  then show ?case by simp
next
  case (Cons p ps)
  have "st_stock_symbols (sync_item clk st p) = st_stock_symbols st
        \<and> tbl_long_positions (st_conn (sync_item clk st p)) = tbl_long_positions (st_conn st)"
    by (cases rule: sync_item_cases[of p clk st]) (use Cons.prems in auto)
  with Cons show ?case by simp
qed

lemma initial_state_fields [simp]:
  "st_conn (initial_state conn) = conn"
  "st_option_ids (initial_state conn) = []"
  "st_stock_symbols (initial_state conn) = []"
  "st_result (initial_state conn) = initial_result"
  by (simp_all add: initial_state_def)


subsection \<open>What a synced option row holds\<close>

lemma option_matches_iff:
  "option_matches symbol option_type strike expiration r \<longleftrightarrow>
     option_key r = (symbol, option_type, strike, expiration) \<and> o_closed r = None"
  by (auto simp: option_matches_def option_key_def)

lemma upsert_option_row:
  assumes "(i, rows') = upsert_option clk (symbol, option_type, strike, expiration, contracts, premium) rows"
  shows "\<exists>r\<in>set rows'. o_id r = i \<and> o_closed r = None
           \<and> option_key r = (symbol, option_type, strike, isoformat expiration)
           \<and> o_contracts r = contracts \<and> o_premium r = premium"
proof (cases "select_option symbol option_type strike (isoformat expiration) rows")
  case None
  with assms show ?thesis
    by (auto simp: upsert_option_def insert_option_def Let_def option_key_def)
next
  case (Some existing)
  then have ex: "existing \<in> set rows"
    and m: "option_matches symbol option_type strike (isoformat expiration) existing"
    by (auto simp: select_option_def find_Some_iff)
  let ?r = "existing\<lparr>o_contracts := contracts, o_premium := premium,
                       o_updated_at := current_timestamp clk\<rparr>"
  from Some assms have i: "i = o_id existing"
    and rows': "rows' = update_option clk contracts premium (o_id existing) rows"
    by (simp_all add: upsert_option_def)
  from ex have "?r \<in> set rows'"
    unfolding rows' update_option_def by (auto simp: image_iff intro!: bexI[of _ existing])
  moreover from m i have "o_id ?r = i \<and> o_closed ?r = None
      \<and> option_key ?r = (symbol, option_type, strike, isoformat expiration)
      \<and> o_contracts ?r = contracts \<and> o_premium ?r = premium"
    by (simp add: option_matches_iff option_key_def)
  ultimately show ?thesis by blast
qed

lemma option_request_fields:
  assumes "option_request pos = Inr (symbol, option_type, strike, expiration, contracts, premium)"
  shows "pos_symbol pos = Some symbol"
    and "\<exists>r. pos_right pos = Some r \<and> option_type = (if r = ''C'' then ''Call'' else ''Put'')"
    and "pos_strike pos = Some strike"
    and "\<exists>s. pos_expiration pos = Some s \<and> parse_expiration s = Inr expiration"
    and "\<exists>q. pos_position pos = Some q \<and> contracts = \<bar>py_int_float q\<bar>"
    and "\<exists>a. pos_avg_cost pos = Some a
           \<and> premium = a / of_int (case pos_multiplier pos of None \<Rightarrow> 100 | Some m \<Rightarrow> m)"
  using assms
  by (auto simp: option_request_def getitem_def Let_def
           split: option.splits sum.splits if_splits)

lemma py_int_float_of_int [simp]: "py_int_float (of_int q) = q"
  by (simp add: py_int_float_def)


lemma initial_result_fields [simp]:
  "success initial_result = False" "synced_at initial_result = None"
  "errors initial_result = []" "options_synced initial_result = 0"
  "positions_synced initial_result = 0" "options_closed initial_result = 0"
  "positions_closed initial_result = 0"
  by (simp_all add: initial_result_def)

lemma sync_item_synced_at [simp]:
  "synced_at (st_result (sync_item clk st pos)) = synced_at (st_result st)"
  by (auto simp: sync_item_def split: prod.splits sum.splits outcome.splits)

lemma process_positions_synced_at [simp]:
  "synced_at (st_result (process_positions clk st ps)) = synced_at (st_result st)"
  by (induction ps arbitrary: st) simp_all


subsection \<open>Distinct keys among the open option rows\<close>

lemma open_option_rows_update [simp]:
  "map option_key (open_option_rows (update_option clk contracts premium i rows)) =
     map option_key (open_option_rows rows)"
  by (induction rows) (auto simp: open_option_rows_def update_option_def option_key_def)

lemma select_option_None_key:
  assumes "select_option symbol option_type strike expiration rows = None"
  shows "(symbol, option_type, strike, expiration) \<notin> set (map option_key (open_option_rows rows))"
  using assms
  by (auto simp: select_option_def find_None_iff option_matches_iff open_option_rows_def)

lemma upsert_option_unique:
  assumes "(i, rows') = upsert_option clk rq rows" and "unique_open_keys rows"
  shows "unique_open_keys rows'"
proof -
  obtain symbol option_type strike expiration contracts premium
    where rq: "rq = (symbol, option_type, strike, expiration, contracts, premium)"
    by (cases rq) auto
  show ?thesis
  proof (cases "select_option symbol option_type strike (isoformat expiration) rows")
    case None
    from select_option_None_key[OF None] assms show ?thesis
      by (auto simp: rq None upsert_option_def insert_option_def Let_def unique_open_keys_def
                     open_option_rows_def option_key_def)
  next
    case (Some existing)
    with assms show ?thesis
      by (simp add: rq upsert_option_def unique_open_keys_def)
  qed
qed

lemma open_option_rows_closed:
  "open_option_rows (map (\<lambda>r. if o_closed r = None \<and> o_id r \<notin> ids then close_option_row clk r else r) rows)
     = filter (\<lambda>r. o_id r \<in> ids) (open_option_rows rows)"
  by (induction rows) (auto simp: open_option_rows_def close_option_row_def)

lemma closure_unique:
  assumes "unique_open_keys rows"
  shows "unique_open_keys
           (map (\<lambda>r. if o_closed r = None \<and> o_id r \<notin> ids then close_option_row clk r else r) rows)"
  using assms by (simp add: unique_open_keys_def open_option_rows_closed distinct_map_filter)

lemma sync_item_unique:
  assumes "unique_open_keys (tbl_options (st_conn st))"
  shows "unique_open_keys (tbl_options (st_conn (sync_item clk st pos)))"
proof (cases rule: sync_item_cases[of pos clk st])
  case (Option i rq)
  from upsert_option_unique[OF Option(3) assms] show ?thesis .
qed (use assms in simp_all)

lemma process_positions_unique:
  assumes "unique_open_keys (tbl_options (st_conn st))"
  shows "unique_open_keys (tbl_options (st_conn (process_positions clk st ps)))"
  using assms by (induction ps arbitrary: st) (simp_all add: sync_item_unique)

lemma reconcile_unique:
  assumes "unique_open_keys (tbl_options conn)"
  shows "unique_open_keys (tbl_options (snd (reconcile clk conn ps)))"
proof -
  have loop: "unique_open_keys (tbl_options (st_conn (loop_end clk conn ps)))"
    using assms by (intro process_positions_unique) simp
  show ?thesis
  proof (cases rule: reconcile_cases[of clk conn ps])
    case (OptionsFault e c1)
    with loop close_missing_options_Inl(1)[OF OptionsFault(1)] show ?thesis by simp
  next
    case (LongsFault n c1 e c2)
    from closure_unique[OF loop] close_missing_options_Inr(1)[OF LongsFault(1)]
      close_missing_long_positions_Inl(1)[OF LongsFault(2)] LongsFault(3)
    show ?thesis by simp
  next
    case (Done n c1 m c2)
    from closure_unique[OF loop] close_missing_options_Inr(1)[OF Done(1)]
      close_missing_long_positions_Inr(2)[OF Done(2)] Done(3)
    show ?thesis by simp
  qed
qed

lemma sync_positions_unique:
  assumes "sync_positions clk svc client dbe host port client_id = (result, svc', client', db')"
    and "unique_open_keys (tbl_options (db_file dbe))"
  shows "unique_open_keys (tbl_options db')"
proof (cases "ensure_connected client host port client_id")
  case (Pair connected client1)
  show ?thesis
  proof (cases connected)
    case False
    with Pair have "ensure_connected client host port client_id = (False, client1)" by simp
    from sync_positions_connect_failed[OF this, where clk=clk and svc=svc and dbe=dbe] assms
    show ?thesis by simp
  next
    case True
    with Pair have ec: "ensure_connected client host port client_id = (True, client1)" by simp
    show ?thesis
    proof (cases "get_positions client1")
      case (Inl e)
      from sync_positions_fetch_failed[OF ec Inl, where clk=clk and svc=svc and dbe=dbe] assms
      show ?thesis by simp
    next
      case (Inr positions)
      note gp = this
      show ?thesis
      proof (cases "get_db_connection dbe")
        case (Inl e)
        from sync_positions_db_failed[OF ec gp Inl, where clk=clk and svc=svc] assms
        show ?thesis by simp
      next
        case (Inr conn)
        from get_db_connection_tables(1)[OF Inr] assms(2)
        have "unique_open_keys (tbl_options conn)" by simp
        from reconcile_unique[OF this, of clk positions]
          sync_positions_reconciled[OF ec gp Inr, where clk=clk and svc=svc] assms(1)
        show ?thesis by auto
      qed
    qed
  qed
qed


subsection \<open>A position that cannot be read\<close>

lemma request_failure_try_position:
  assumes "request_failure pos = Some e"
  shows "try_position clk conn pos = (Inl e, conn)"
  using assms
  by (auto simp: request_failure_def try_position_def split: sum.splits if_splits)

lemma sync_item_request_failure:
  assumes "request_failure pos = Some e"
  shows "sync_item clk st pos =
           st\<lparr>st_result := (st_result st)\<lparr>errors := errors (st_result st) @ [error_msg pos e]\<rparr>\<rparr>"
  by (simp add: sync_item_def request_failure_try_position[OF assms])

lemma sync_item_errors_grow:
  "\<exists>new. errors (st_result (sync_item clk st pos)) = errors (st_result st) @ new"
  by (cases rule: sync_item_cases[of pos clk st]) simp_all


subsection \<open>Rows kept and rows found by the two upserts\<close>

lemma fold_max_ge: "(a::int) \<le> fold max xs a \<and> (\<forall>y\<in>set xs. y \<le> fold max xs a)"
proof (induction xs arbitrary: a)
  case Nil
  then show ?case by simp
next
  case (Cons x xs)
  from Cons[of "max x a"] show ?case by auto
qed

lemma next_rowid_fresh: "next_rowid ids \<notin> set ids"
proof (cases ids)
  case Nil
  then show ?thesis by simp
next
  case (Cons x xs)
  from fold_max_ge[of x xs] have "\<forall>y\<in>set (x # xs). y < fold max xs x + 1" by auto
  with Cons show ?thesis by (auto simp: next_rowid_def)
qed

lemma upsert_option_distinct_ids:
  assumes "(i, rows') = upsert_option clk rq rows" and "distinct (map o_id rows)"
  shows "distinct (map o_id rows')"
proof -
  have "map o_id (update_option clk n p j rows) = map o_id rows" for n p j
    by (induction rows) (auto simp: update_option_def)
  with assms next_rowid_fresh[of "map o_id rows"] show ?thesis
    by (auto simp: upsert_option_def insert_option_def Let_def
             split: prod.splits option.splits)
qed

lemma upsert_option_keeps_rows:
  assumes "(i, rows') = upsert_option clk rq rows" and "r \<in> set rows"
  shows "\<exists>r'\<in>set rows'. o_id r' = o_id r \<and> o_closed r' = o_closed r \<and> option_key r' = option_key r"
proof -
  have "\<exists>r'\<in>set (update_option clk n p j rows).
          o_id r' = o_id r \<and> o_closed r' = o_closed r \<and> option_key r' = option_key r" for n p j
    using assms(2) by (induction rows) (auto simp: update_option_def option_key_def)
  with assms show ?thesis
    by (auto simp: upsert_option_def insert_option_def Let_def
             split: prod.splits option.splits)
qed

lemma most_recent_in: "most_recent rs = Some r \<Longrightarrow> r \<in> set rs"
  by (induction rs arbitrary: r) (auto split: option.splits if_splits)

lemma most_recent_None [simp]: "most_recent rs = None \<longleftrightarrow> rs = []"
  by (cases rs) (auto split: option.splits)

lemma upsert_long_keeps_rows:
  assumes "(i, rows') = upsert_long clk rq rows" and "r \<in> set rows"
  shows "\<exists>r'\<in>set rows'. l_closed r' = l_closed r \<and> l_symbol r' = l_symbol r"
proof -
  have "\<exists>r'\<in>set (update_long clk n p j rows). l_closed r' = l_closed r \<and> l_symbol r' = l_symbol r"
    for n p j
    using assms(2) by (induction rows) (auto simp: update_long_def)
  with assms show ?thesis
    by (auto simp: upsert_long_def insert_long_def Let_def
             split: prod.splits option.splits)
qed

lemma upsert_long_row:
  assumes "(i, rows') = upsert_long clk (symbol, shares, buy_price) rows"
  shows "\<exists>r\<in>set rows'. l_closed r = None \<and> l_symbol r = symbol"
proof (cases "select_long symbol rows")
  case None
  with assms show ?thesis by (auto simp: upsert_long_def insert_long_def Let_def)
next
  case (Some existing)
  from most_recent_in[OF Some[unfolded select_long_def]]
  have ex: "existing \<in> set rows" "l_symbol existing = symbol" "l_closed existing = None"
    by (auto simp: long_matches_def)
  from upsert_long_keeps_rows[OF assms ex(1)] ex(2,3) show ?thesis by auto
qed


subsection \<open>What the loop has collected when it ends\<close>

lemma loop_option_keys_snoc:
  "loop_option_keys (ps @ [p]) =
     loop_option_keys ps
       \<union> (if pos_sec_type p = Some ''OPT'' then set_option (loop_option_key p) else {})"
  by (cases "loop_option_key p") (auto simp: loop_option_keys_def map_filter_def)

lemma snapshot_stock_symbols_snoc:
  "snapshot_stock_symbols (ps @ [p]) =
     snapshot_stock_symbols ps
       \<union> (if pos_sec_type p = Some ''STK'' then set_option (pos_symbol p) else {})"
  by (cases "pos_symbol p") (auto simp: snapshot_stock_symbols_def map_filter_def)

lemma loop_option_keys_Nil [simp]: "loop_option_keys [] = {}"
  by (simp add: loop_option_keys_def map_filter_def)

lemma snapshot_stock_symbols_Nil [simp]: "snapshot_stock_symbols [] = {}"
  by (simp add: snapshot_stock_symbols_def map_filter_def)

lemma option_request_key:
  assumes "option_request pos = Inr rq"
  shows "loop_option_key pos = Some (request_key rq)"
proof -
  obtain symbol option_type strike expiration contracts premium
    where rq: "rq = (symbol, option_type, strike, expiration, contracts, premium)"
    by (cases rq) auto
  from option_request_fields(1-4)[OF assms[unfolded rq]] show ?thesis
    by (auto simp: loop_option_key_def request_key_def rq)
qed

lemma upsert_option_row_key:
  assumes "(i, rows') = upsert_option clk rq rows"
  shows "\<exists>r\<in>set rows'. o_id r = i \<and> o_closed r = None \<and> option_key r = request_key rq"
proof -
  obtain symbol option_type strike expiration contracts premium
    where rq: "rq = (symbol, option_type, strike, expiration, contracts, premium)"
    by (cases rq) auto
  from upsert_option_row[OF assms[unfolded rq]] show ?thesis
    by (auto simp: request_key_def rq)
qed

lemma loop_end_snoc: "loop_end clk conn (ps @ [p]) = sync_item clk (loop_end clk conn ps) p"
  by (simp add: process_positions_snoc)

lemma loop_distinct_ids:
  assumes "distinct (map o_id (tbl_options conn))"
  shows "distinct (map o_id (tbl_options (st_conn (loop_end clk conn ps))))"
proof (induction ps rule: rev_induct)
  case Nil
  with assms show ?case by simp
next
  case (snoc p ps)
  show ?case
  proof (cases rule: sync_item_cases[of p clk "loop_end clk conn ps"])
    case (Option i rq)
    from upsert_option_distinct_ids[OF Option(3) snoc] show ?thesis
      by (simp add: process_positions_snoc)
  qed (use snoc in \<open>simp_all add: process_positions_snoc\<close>)
qed

lemma loop_ids_open:
  "\<forall>i\<in>set (st_option_ids (loop_end clk conn ps)).
     \<exists>r\<in>set (tbl_options (st_conn (loop_end clk conn ps))).
       o_id r = i \<and> o_closed r = None \<and> option_key r \<in> loop_option_keys ps"
proof (induction ps rule: rev_induct)
  case Nil
  show ?case by simp
next
  case (snoc p ps)
  let ?st = "loop_end clk conn ps"
  have mono: "loop_option_keys ps \<subseteq> loop_option_keys (ps @ [p])"
    by (auto simp: loop_option_keys_snoc)
  have IH': "\<forall>i\<in>set (st_option_ids ?st). \<exists>r\<in>set (tbl_options (st_conn ?st)).
       o_id r = i \<and> o_closed r = None \<and> option_key r \<in> loop_option_keys (ps @ [p])"
    using snoc mono by blast
  show ?case
  proof (cases rule: sync_item_cases[of p clk ?st])
    case (Option i rq)
    have new: "\<exists>r\<in>set (tbl_options (st_conn (sync_item clk ?st p))).
                 o_id r = i \<and> o_closed r = None \<and> option_key r \<in> loop_option_keys (ps @ [p])"
      using upsert_option_row_key[OF Option(3)] option_request_key[OF Option(2)] Option(1)
      by (auto simp: loop_option_keys_snoc)
    have old: "\<exists>r\<in>set (tbl_options (st_conn (sync_item clk ?st p))).
                 o_id r = j \<and> o_closed r = None \<and> option_key r \<in> loop_option_keys (ps @ [p])"
      if "j \<in> set (st_option_ids ?st)" for j
    proof -
      from snoc that obtain r where r: "r \<in> set (tbl_options (st_conn ?st))" "o_id r = j"
        "o_closed r = None" "option_key r \<in> loop_option_keys ps" by blast
      from upsert_option_keeps_rows[OF Option(3) r(1)] obtain r' where
        "r' \<in> set (tbl_options (st_conn (sync_item clk ?st p)))" "o_id r' = o_id r"
        "o_closed r' = o_closed r" "option_key r' = option_key r" by blast
      with r(2-4) mono show ?thesis by (intro bexI[of _ r']) auto
    qed
    from new old show ?thesis by (auto simp: Option(5) process_positions_snoc)
  next
    case (Stock i rq)
    with IH' show ?thesis by (simp add: process_positions_snoc)
  next
    case Skip
    with IH' show ?thesis by (simp add: process_positions_snoc)
  next
    case (Error e c)
    with IH' show ?thesis by (simp add: process_positions_snoc)
  qed
qed

lemma loop_keys_found:
  assumes "errors (st_result (loop_end clk conn ps)) = []"
  shows "\<forall>k\<in>loop_option_keys ps.
           \<exists>r\<in>set (tbl_options (st_conn (loop_end clk conn ps))).
             o_closed r = None \<and> option_key r = k
             \<and> o_id r \<in> set (st_option_ids (loop_end clk conn ps))"
  using assms
proof (induction ps rule: rev_induct)
  case Nil
  show ?case by simp
next
  case (snoc p ps)
  let ?st = "loop_end clk conn ps"
  from sync_item_errors_grow[of clk ?st p] snoc.prems
  have "errors (st_result ?st) = []" by (auto simp: loop_end_snoc)
  note IH = snoc.IH[OF this]
  show ?case
  proof (cases rule: sync_item_cases[of p clk ?st])
    case (Option i rq)
    have new: "\<exists>r\<in>set (tbl_options (st_conn (sync_item clk ?st p))).
                 o_closed r = None \<and> option_key r = request_key rq \<and> o_id r = i"
      using upsert_option_row_key[OF Option(3)] by auto
    have old: "\<exists>r\<in>set (tbl_options (st_conn (sync_item clk ?st p))).
                 o_closed r = None \<and> option_key r = k \<and> o_id r \<in> set (st_option_ids ?st)"
      if "k \<in> loop_option_keys ps" for k
    proof -
      from IH that obtain r where r: "r \<in> set (tbl_options (st_conn ?st))"
        "o_closed r = None" "option_key r = k" "o_id r \<in> set (st_option_ids ?st)" by blast
      from upsert_option_keeps_rows[OF Option(3) r(1)] r(2-4) show ?thesis by auto
    qed
    show ?thesis
    proof
      fix k assume "k \<in> loop_option_keys (ps @ [p])"
      then consider "k \<in> loop_option_keys ps" | "k = request_key rq"
        using option_request_key[OF Option(2)] by (auto simp: loop_option_keys_snoc split: if_splits)
      then show "\<exists>r\<in>set (tbl_options (st_conn (loop_end clk conn (ps @ [p])))).
             o_closed r = None \<and> option_key r = k
             \<and> o_id r \<in> set (st_option_ids (loop_end clk conn (ps @ [p])))"
      proof cases
        case 1
        from old[OF 1] show ?thesis by (auto simp: Option(5) process_positions_snoc)
      next
        case 2
        with new show ?thesis by (auto simp: Option(5) process_positions_snoc)
      qed
    qed
  next
    case (Stock i rq)
    with IH show ?thesis by (simp add: loop_option_keys_snoc process_positions_snoc)
  next
    case Skip
    with IH show ?thesis by (simp add: loop_option_keys_snoc process_positions_snoc)
  next
    case (Error e c)
    with snoc.prems show ?thesis by (simp add: loop_end_snoc)
  qed
qed

lemma loop_symbols_open:
  "\<forall>s\<in>set (st_stock_symbols (loop_end clk conn ps)).
     s \<in> snapshot_stock_symbols ps
     \<and> (\<exists>r\<in>set (tbl_long_positions (st_conn (loop_end clk conn ps))).
           l_closed r = None \<and> l_symbol r = s)"
proof (induction ps rule: rev_induct)
  case Nil
  show ?case by simp
next
  case (snoc p ps)
  let ?st = "loop_end clk conn ps"
  have mono: "snapshot_stock_symbols ps \<subseteq> snapshot_stock_symbols (ps @ [p])"
    by (auto simp: snapshot_stock_symbols_snoc)
  have IH': "\<forall>s\<in>set (st_stock_symbols ?st). s \<in> snapshot_stock_symbols (ps @ [p])
     \<and> (\<exists>r\<in>set (tbl_long_positions (st_conn ?st)). l_closed r = None \<and> l_symbol r = s)"
    using snoc mono by blast
  show ?case
  proof (cases rule: sync_item_cases[of p clk ?st])
    case (Stock i rq)
    obtain symbol shares buy_price where rq: "rq = (symbol, shares, buy_price)" by (cases rq) auto
    have new: "fst rq \<in> snapshot_stock_symbols (ps @ [p])
               \<and> (\<exists>r\<in>set (tbl_long_positions (st_conn (sync_item clk ?st p))).
                     l_closed r = None \<and> l_symbol r = fst rq)"
      using upsert_long_row[OF Stock(3)[unfolded rq]] stock_request_symbol[OF Stock(2)] Stock(1)
      by (auto simp: snapshot_stock_symbols_snoc rq)
    have old: "s \<in> snapshot_stock_symbols (ps @ [p])
               \<and> (\<exists>r\<in>set (tbl_long_positions (st_conn (sync_item clk ?st p))).
                     l_closed r = None \<and> l_symbol r = s)"
      if "s \<in> set (st_stock_symbols ?st)" for s
    proof -
      from snoc that obtain r where r: "s \<in> snapshot_stock_symbols ps"
        "r \<in> set (tbl_long_positions (st_conn ?st))" "l_closed r = None" "l_symbol r = s" by blast
      from upsert_long_keeps_rows[OF Stock(3) r(2)] obtain r' where
        "r' \<in> set (tbl_long_positions (st_conn (sync_item clk ?st p)))"
        "l_closed r' = l_closed r" "l_symbol r' = l_symbol r" by blast
      with r(1,3,4) mono show ?thesis by (intro conjI bexI[of _ r']) auto
    qed
    from new old show ?thesis by (auto simp: Stock(6) process_positions_snoc)
  next
    case (Option i rq)
    with IH' show ?thesis by (simp add: process_positions_snoc)
  next
    case Skip
    with IH' show ?thesis by (simp add: process_positions_snoc)
  next
    case (Error e c)
    with IH' show ?thesis by (simp add: process_positions_snoc)
  qed
qed

lemma loop_symbols_found:
  assumes "errors (st_result (loop_end clk conn ps)) = []"
  shows "snapshot_stock_symbols ps \<subseteq> set (st_stock_symbols (loop_end clk conn ps))"
  using assms
proof (induction ps rule: rev_induct)
  case Nil
  show ?case by simp
next
  case (snoc p ps)
  let ?st = "loop_end clk conn ps"
  from sync_item_errors_grow[of clk ?st p] snoc.prems
  have "errors (st_result ?st) = []" by (auto simp: loop_end_snoc)
  note IH = snoc.IH[OF this]
  show ?case
  proof (cases rule: sync_item_cases[of p clk ?st])
    case (Stock i rq)
    with IH stock_request_symbol[OF Stock(2)] show ?thesis
      by (auto simp: snapshot_stock_symbols_snoc process_positions_snoc)
  next
    case (Option i rq)
    with IH show ?thesis by (auto simp: snapshot_stock_symbols_snoc process_positions_snoc)
  next
    case Skip
    with IH show ?thesis by (auto simp: snapshot_stock_symbols_snoc process_positions_snoc)
  next
    case (Error e c)
    with snoc.prems show ?thesis by (simp add: loop_end_snoc)
  qed
qed


subsection \<open>The store after a successful pass\<close>

lemma open_long_rows_closed:
  "open_long_rows (map (\<lambda>r. if l_closed r = None \<and> l_symbol r \<notin> syms then close_long_row clk r else r) rows)
     = filter (\<lambda>r. l_symbol r \<in> syms) (open_long_rows rows)"
  by (induction rows) (auto simp: open_long_rows_def close_long_row_def)

lemma distinct_ids_same_row:
  assumes "distinct (map o_id rows)" and "r \<in> set rows" and "r' \<in> set rows" and "o_id r = o_id r'"
  shows "r = r'"
  using assms by (meson distinct_map inj_onD)

lemma reconcile_converges:
  assumes "reconcile clk conn ps = (result, c')" and "success result"
    and "distinct (map o_id (tbl_options conn))"
  shows "open_option_keys (tbl_options c') \<subseteq> loop_option_keys ps"
    and "open_share_symbols (tbl_long_positions c') \<subseteq> snapshot_stock_symbols ps"
    and "errors result = [] \<Longrightarrow> loop_option_keys ps \<subseteq> open_option_keys (tbl_options c')"
    and "errors result = [] \<Longrightarrow> snapshot_stock_symbols ps \<subseteq> open_share_symbols (tbl_long_positions c')"
proof -
  let ?st = "loop_end clk conn ps"
  note closed = reconcile_success[OF assms(1,2)]
  have opts: "open_option_keys (tbl_options c') =
                option_key ` {r \<in> set (tbl_options (st_conn ?st)).
                               o_closed r = None \<and> o_id r \<in> set (st_option_ids ?st)}"
    unfolding closed(1) open_option_keys_def open_option_rows_closed
    by (auto simp: open_option_rows_def)
  have longs: "open_share_symbols (tbl_long_positions c') =
                l_symbol ` {r \<in> set (tbl_long_positions (st_conn ?st)).
                              l_closed r = None \<and> l_symbol r \<in> set (st_stock_symbols ?st)}"
    unfolding closed(2) open_share_symbols_def open_long_rows_closed
    by (auto simp: open_long_rows_def)
  note d = loop_distinct_ids[OF assms(3), of clk ps]
  show "open_option_keys (tbl_options c') \<subseteq> loop_option_keys ps"
  proof
    fix k assume "k \<in> open_option_keys (tbl_options c')"
    with opts obtain r where r: "r \<in> set (tbl_options (st_conn ?st))" "o_closed r = None"
      "o_id r \<in> set (st_option_ids ?st)" "k = option_key r" by auto
    from loop_ids_open[of clk conn ps] r(3) obtain r0 where
      r0: "r0 \<in> set (tbl_options (st_conn ?st))" "o_id r0 = o_id r"
      "option_key r0 \<in> loop_option_keys ps" by blast
    from distinct_ids_same_row[OF d r0(1) r(1) r0(2)] r0(3) r(4)
    show "k \<in> loop_option_keys ps" by simp
  qed
  show "open_share_symbols (tbl_long_positions c') \<subseteq> snapshot_stock_symbols ps"
    using loop_symbols_open[of clk conn ps] by (auto simp: longs)
  show "loop_option_keys ps \<subseteq> open_option_keys (tbl_options c')" if "errors result = []"
  proof
    fix k assume k: "k \<in> loop_option_keys ps"
    from that closed(3) have "errors (st_result ?st) = []" by simp
    from loop_keys_found[OF this] k obtain r where "r \<in> set (tbl_options (st_conn ?st))"
      "o_closed r = None" "option_key r = k" "o_id r \<in> set (st_option_ids ?st)" by blast
    then show "k \<in> open_option_keys (tbl_options c')" unfolding opts by blast
  qed
  show "snapshot_stock_symbols ps \<subseteq> open_share_symbols (tbl_long_positions c')"
    if "errors result = []"
  proof
    fix s assume s: "s \<in> snapshot_stock_symbols ps"
    from that closed(3) have "errors (st_result ?st) = []" by simp
    from loop_symbols_found[OF this] s have "s \<in> set (st_stock_symbols ?st)" by blast
    with loop_symbols_open[of clk conn ps] obtain r where
      "r \<in> set (tbl_long_positions (st_conn ?st))" "l_closed r = None" "l_symbol r = s" by blast
    with \<open>s \<in> set (st_stock_symbols ?st)\<close>
    show "s \<in> open_share_symbols (tbl_long_positions c')" unfolding longs by blast
  qed
qed


subsection \<open>Repeating the option upserts of a pass\<close>

lemma find_map_same:
  assumes "\<And>x. P (h x) = P x"
  shows "find P (map h xs) = map_option h (find P xs)"
  by (induction xs) (simp_all add: assms)

lemma find_append_cases:
  "find P (xs @ ys) = (case find P xs of None \<Rightarrow> find P ys | Some x \<Rightarrow> Some x)"
  by (induction xs) simp_all

lemma selected_option_update [simp]:
  "selected_option rq (update_option clk contracts premium i rows) = selected_option rq rows"
proof -
  have "find (option_matches s t k e) (update_option clk contracts premium i rows) =
          map_option (\<lambda>r. if o_id r = i
               then r\<lparr>o_contracts := contracts, o_premium := premium,
                      o_updated_at := current_timestamp clk\<rparr> else r)
            (find (option_matches s t k e) rows)" for s t k e
    unfolding update_option_def by (rule find_map_same) (simp add: option_matches_def)
  then show ?thesis
    by (cases rq) (auto simp: selected_option_def select_option_def option.map_comp comp_def
                        intro!: option.map_cong)
qed

lemma upsert_option_selected:
  assumes "selected_option rq rows = Some y"
  shows "upsert_option clk rq rows =
           (y, update_option clk (fst (option_values rq)) (snd (option_values rq)) y rows)"
  using assms
  by (cases rq) (auto simp: upsert_option_def selected_option_def option_values_def
                      split: option.splits)

lemma upsert_option_selects:
  assumes "(i, rows') = upsert_option clk rq rows"
  shows "selected_option rq rows' = Some i"
proof (cases "selected_option rq rows")
  case (Some y)
  with assms upsert_option_selected[OF Some, of clk] show ?thesis by simp
next
  case None
  obtain s t k e n p where rq: "rq = (s, t, k, e, n, p)" by (cases rq) auto
  from None have "find (option_matches s t k (isoformat e)) rows = None"
    by (simp add: rq selected_option_def select_option_def)
  with assms show ?thesis
    by (simp add: rq upsert_option_def select_option_def insert_option_def Let_def
                  selected_option_def find_append_cases option_matches_def)
qed

lemma upsert_option_keeps_selected:
  assumes "selected_option q rows = Some y"
  shows "selected_option q (snd (upsert_option clk rq rows)) = Some y"
proof (cases "selected_option rq rows")
  case (Some z)
  from upsert_option_selected[OF Some, of clk] assms show ?thesis by simp
next
  case None
  obtain s t k e n p where rq: "rq = (s, t, k, e, n, p)" by (cases rq) auto
  from None have "select_option s t k (isoformat e) rows = None"
    by (simp add: rq selected_option_def)
  with assms show ?thesis
    by (cases q)
       (auto simp: rq upsert_option_def insert_option_def Let_def selected_option_def
                   select_option_def find_append_cases)
qed

lemma upsert_options_Cons:
  "fst (upsert_options clk (rq # rqs) rows) =
     fst (upsert_option clk rq rows) # fst (upsert_options clk rqs (snd (upsert_option clk rq rows)))"
  "snd (upsert_options clk (rq # rqs) rows) =
     snd (upsert_options clk rqs (snd (upsert_option clk rq rows)))"
  by (simp_all split: prod.splits)

lemma upsert_options_keeps_selected:
  assumes "selected_option q rows = Some y"
  shows "selected_option q (snd (upsert_options clk rqs rows)) = Some y"
  using assms
proof (induction rqs arbitrary: rows)
  case Nil
  then show ?case by simp
next
  case (Cons rq rqs)
  from Cons.IH[OF upsert_option_keeps_selected[OF Cons.prems, of clk rq]]
  show ?case by (simp only: upsert_options_Cons)
qed

lemma upsert_options_selected:
  "map (\<lambda>rq. selected_option rq (snd (upsert_options clk rqs rows))) rqs =
     map Some (fst (upsert_options clk rqs rows))"
proof (induction rqs arbitrary: rows)
  case Nil
  show ?case by simp
next
  case (Cons rq rqs)
  obtain i rows1 where one: "upsert_option clk rq rows = (i, rows1)"
    by (cases "upsert_option clk rq rows")
  from upsert_option_selects[of i rows1 clk rq rows] one
  have "selected_option rq rows1 = Some i" by simp
  from upsert_options_keeps_selected[OF this, of clk rqs] Cons.IH[of rows1] one
  show ?case by (simp add: upsert_options_Cons del: upsert_options.simps)
qed

lemma upsert_options_length:
  "length (fst (upsert_options clk rqs rows)) = length rqs"
  by (induction rqs arbitrary: rows) (simp_all add: upsert_options_Cons del: upsert_options.simps(2))

lemma upsert_option_id_values:
  assumes "(i, rows') = upsert_option clk rq rows" and "r \<in> set rows'" and "o_id r = i"
  shows "(o_contracts r, o_premium r) = option_values rq"
proof (cases "selected_option rq rows")
  case (Some y)
  obtain contracts premium where v: "option_values rq = (contracts, premium)"
    by (cases "option_values rq")
  from upsert_option_selected[OF Some, of clk] assms(1) v
  have i: "i = y" and rows': "rows' = update_option clk contracts premium y rows" by simp_all
  from assms(2) obtain r0 where r0: "r0 \<in> set rows"
    "r = (if o_id r0 = y
          then r0\<lparr>o_contracts := contracts, o_premium := premium,
                  o_updated_at := current_timestamp clk\<rparr> else r0)"
    unfolding rows' update_option_def by auto
  show ?thesis
  proof (cases "o_id r0 = y")
    case True
    with r0(2) v show ?thesis by simp
  next
    case False
    with r0(2) assms(3) i show ?thesis by simp
  qed
next
  case None
  obtain s t k e n p where rq: "rq = (s, t, k, e, n, p)" by (cases rq) auto
  from None have sel: "select_option s t k (isoformat e) rows = None"
    by (simp add: rq selected_option_def)
  let ?new = "\<lparr>o_id = next_rowid (map o_id rows), o_symbol = s, o_type = t,
               o_opened = isoformat (today clk), o_strike = k, o_expiration = isoformat e,
               o_premium = p, o_contracts = n, o_closed = None,
               o_updated_at = current_timestamp clk\<rparr>"
  from assms(1) sel have i: "i = next_rowid (map o_id rows)" and rows': "rows' = rows @ [?new]"
    by (simp_all add: rq upsert_option_def insert_option_def Let_def)
  from assms(2) rows' consider "r \<in> set rows" | "r = ?new" by auto
  then show ?thesis
  proof cases
    case 1
    then have "o_id r \<in> set (map o_id rows)" by simp
    with assms(3) i next_rowid_fresh[of "map o_id rows"] show ?thesis by simp
  next
    case 2
    then show ?thesis by (simp add: rq option_values_def)
  qed
qed

lemma upsert_option_other_rows:
  assumes "(i, rows') = upsert_option clk rq rows" and "r \<in> set rows'" and "o_id r \<noteq> i"
  shows "r \<in> set rows"
proof (cases "selected_option rq rows")
  case (Some y)
  from upsert_option_selected[OF Some, of clk] assms show ?thesis
    by (auto simp: update_option_def split: if_splits)
next
  case None
  obtain s t k e n p where rq: "rq = (s, t, k, e, n, p)" by (cases rq) auto
  from None have "select_option s t k (isoformat e) rows = None"
    by (simp add: rq selected_option_def)
  with assms show ?thesis
    by (auto simp: rq upsert_option_def insert_option_def Let_def)
qed

lemma upsert_options_other_rows:
  assumes "upsert_options clk rqs rows = (ids, rows')" and "r \<in> set rows'"
    and "o_id r \<notin> set ids"
  shows "r \<in> set rows"
  using assms
proof (induction rqs arbitrary: rows ids rows')
  case Nil
  then show ?case by simp
next
  case (Cons rq rqs)
  obtain i rows1 where one: "upsert_option clk rq rows = (i, rows1)"
    by (cases "upsert_option clk rq rows")
  obtain ids' rows2 where rest: "upsert_options clk rqs rows1 = (ids', rows2)"
    by (cases "upsert_options clk rqs rows1")
  from Cons.prems one rest have eq: "ids = i # ids'" "rows' = rows2" by simp_all
  from Cons.IH[OF rest] Cons.prems(2,3) eq have "r \<in> set rows1" by simp
  from upsert_option_other_rows[OF one[symmetric] this] Cons.prems(3) eq show ?case by simp
qed

lemma last_write_None_iff: "last_write ws y = None \<longleftrightarrow> y \<notin> fst ` set ws"
  by (induction ws) (auto split: option.splits)

lemma upsert_options_last_write:
  assumes "upsert_options clk rqs rows = (ids, rows')" and "r \<in> set rows'"
    and "last_write (zip ids (map option_values rqs)) (o_id r) = Some v"
  shows "(o_contracts r, o_premium r) = v"
  using assms
proof (induction rqs arbitrary: rows ids rows')
  case Nil
  then show ?case by simp
next
  case (Cons rq rqs)
  obtain i rows1 where one: "upsert_option clk rq rows = (i, rows1)"
    by (cases "upsert_option clk rq rows")
  obtain ids' rows2 where rest: "upsert_options clk rqs rows1 = (ids', rows2)"
    by (cases "upsert_options clk rqs rows1")
  from Cons.prems one rest have eq: "ids = i # ids'" "rows' = rows2" by simp_all
  show ?case
  proof (cases "last_write (zip ids' (map option_values rqs)) (o_id r)")
    case (Some v')
    with Cons.prems(3) eq have lw: "last_write (zip ids' (map option_values rqs)) (o_id r) = Some v"
      by simp
    from Cons.prems(2) eq have "r \<in> set rows2" by simp
    from Cons.IH[OF rest this lw] show ?thesis .
  next
    case None
    with Cons.prems(3) eq have i: "i = o_id r" and v: "v = option_values rq"
      by (simp_all split: if_splits)
    from upsert_options_length[of clk rqs rows1] rest have "length ids' = length rqs" by simp
    then have "map fst (zip ids' (map option_values rqs)) = ids'" by simp
    then have "fst ` set (zip ids' (map option_values rqs)) = set ids'"
      by (simp only: set_map[symmetric])
    with None have "o_id r \<notin> set ids'"
      by (simp only: last_write_None_iff) simp
    from upsert_options_other_rows[OF rest _ this] Cons.prems(2) eq have "r \<in> set rows1" by simp
    from upsert_option_id_values[OF one[symmetric] this] i v show ?thesis by simp
  qed
qed

lemma upsert_options_replay:
  assumes "map (\<lambda>rq. selected_option rq rows) rqs = map Some ids"
  shows "upsert_options clk rqs rows =
           (ids, write_options clk (zip ids (map option_values rqs)) rows)"
  using assms
proof (induction rqs arbitrary: rows ids)
  case Nil
  then show ?case by simp
next
  case (Cons rq rqs)
  from Cons.prems obtain i ids' where ids: "ids = i # ids'" by (cases ids) simp_all
  from Cons.prems ids have sel: "selected_option rq rows = Some i"
    and rest: "map (\<lambda>rq. selected_option rq rows) rqs = map Some ids'"
    by simp_all
  obtain contracts premium where v: "option_values rq = (contracts, premium)"
    by (cases "option_values rq")
  let ?rows1 = "update_option clk contracts premium i rows"
  from upsert_option_selected[OF sel, of clk] v
  have one: "upsert_option clk rq rows = (i, ?rows1)" by simp
  from rest have "map (\<lambda>rq. selected_option rq ?rows1) rqs = map Some ids'"
    by (simp only: selected_option_update)
  from Cons.IH[OF this]
  have two: "upsert_options clk rqs ?rows1 =
               (ids', write_options clk (zip ids' (map option_values rqs)) ?rows1)" .
  have "upsert_options clk (rq # rqs) rows =
          (i # ids', write_options clk (zip ids' (map option_values rqs)) ?rows1)"
    by (simp only: upsert_options.simps one two prod.case)
  also have "write_options clk (zip ids' (map option_values rqs)) ?rows1 =
          write_options clk (zip (i # ids') (map option_values (rq # rqs))) rows"
    by (simp add: v)
  finally show ?case by (simp only: ids)
qed


lemma write_options_last_write:
  "write_options clk ws rows =
     map (\<lambda>r. case last_write ws (o_id r) of
                 None \<Rightarrow> r
               | Some (contracts, premium) \<Rightarrow>
                   r\<lparr>o_contracts := contracts, o_premium := premium,
                     o_updated_at := current_timestamp clk\<rparr>) rows"
proof (induction ws arbitrary: rows)
  case Nil
  show ?case by simp
next
  case (Cons w ws)
  obtain i contracts premium where w: "w = (i, contracts, premium)" by (cases w) auto
  have step: "(case last_write ws (o_id (if o_id r = i
                 then r\<lparr>o_contracts := contracts, o_premium := premium,
                        o_updated_at := current_timestamp clk\<rparr> else r)) of
                 None \<Rightarrow> (if o_id r = i
                 then r\<lparr>o_contracts := contracts, o_premium := premium,
                        o_updated_at := current_timestamp clk\<rparr> else r)
               | Some (c, p) \<Rightarrow>
                   (if o_id r = i
                 then r\<lparr>o_contracts := contracts, o_premium := premium,
                        o_updated_at := current_timestamp clk\<rparr> else r)
                    \<lparr>o_contracts := c, o_premium := p, o_updated_at := current_timestamp clk\<rparr>)
              = (case last_write ((i, contracts, premium) # ws) (o_id r) of
                 None \<Rightarrow> r
               | Some (c, p) \<Rightarrow>
                   r\<lparr>o_contracts := c, o_premium := p, o_updated_at := current_timestamp clk\<rparr>)"
    for r
    by (cases "last_write ws (o_id r)"; cases "o_id r = i") auto
  show ?case
    unfolding w write_options.simps Cons update_option_def map_map comp_def step ..
qed

lemma write_options_untimed:
  assumes "\<forall>r\<in>set rows. \<forall>v. last_write ws (o_id r) = Some v \<longrightarrow> (o_contracts r, o_premium r) = v"
  shows "map untimed_option (write_options clk ws rows) = map untimed_option rows"
proof -
  have "untimed_option (case last_write ws (o_id r) of
                 None \<Rightarrow> r
               | Some (contracts, premium) \<Rightarrow>
                   r\<lparr>o_contracts := contracts, o_premium := premium,
                     o_updated_at := current_timestamp clk\<rparr>) = untimed_option r"
    if "r \<in> set rows" for r
  proof (cases "last_write ws (o_id r)")
    case None
    then show ?thesis by simp
  next
    case (Some v)
    with assms that have "(o_contracts r, o_premium r) = v" by blast
    with Some show ?thesis by (cases v) (auto simp: untimed_option_def)
  qed
  then show ?thesis unfolding write_options_last_write by simp
qed

lemma write_options_flags:
  "map o_id (write_options clk ws rows) = map o_id rows"
  "map o_closed (write_options clk ws rows) = map o_closed rows"
  unfolding write_options_last_write by (auto split: option.splits)

lemma selected_option_closed:
  assumes "selected_option rq rows = Some y" and "y \<in> set ids"
  shows "selected_option rq (close_options_except clk ids rows) = Some y"
proof -
  obtain s t k e n p where rq: "rq = (s, t, k, e, n, p)" by (cases rq) auto
  let ?P = "option_matches s t k (isoformat e)"
  let ?g = "\<lambda>r. if o_closed r = None \<and> o_id r \<notin> set ids then close_option_row clk r else r"
  have "map_option o_id (find ?P rows) = Some y \<Longrightarrow>
        map_option o_id (find ?P (map ?g rows)) = Some y"
  proof (induction rows)
    case Nil
    then show ?case by simp
  next
    case (Cons x xs)
    show ?case
    proof (cases "?P x")
      case True
      with Cons.prems have "o_id x = y" by simp
      with True assms(2) show ?thesis by (simp add: option_matches_def)
    next
      case False
      then have "\<not> ?P (?g x)" by (auto simp: option_matches_def close_option_row_def)
      with False Cons show ?thesis by simp
    qed
  qed
  with assms(1) show ?thesis
    by (simp add: rq selected_option_def select_option_def close_options_except_def)
qed

lemma close_options_except_values:
  assumes "r' \<in> set (close_options_except clk ids rows)"
  shows "\<exists>r\<in>set rows. o_id r = o_id r' \<and> o_contracts r = o_contracts r' \<and> o_premium r = o_premium r'"
  using assms by (auto simp: close_options_except_def close_option_row_def split: if_splits)

lemma close_options_except_open:
  assumes "r \<in> set (close_options_except clk ids rows)" and "o_closed r = None"
  shows "o_id r \<in> set ids"
  using assms by (auto simp: close_options_except_def close_option_row_def split: if_splits)

lemma close_options_except_again:
  assumes "\<forall>r\<in>set rows. o_closed r = None \<longrightarrow> o_id r \<in> set ids"
  shows "close_options_except clk ids rows = rows"
  unfolding close_options_except_def by (rule map_idI) (use assms in auto)

text \<open>
  The option table after a pass without store faults: the upserts of the requests, then
  the closure. Running the same requests on it again selects the same rows, writes the
  values they already hold and closes nothing.
\<close>

lemma option_pass_twice:
  assumes "upsert_options clk1 rqs rows = (ids, rows1)"
  shows "\<exists>rows2. upsert_options clk2 rqs (close_options_except clk1 ids rows1) = (ids, rows2)
           \<and> map untimed_option (close_options_except clk2 ids rows2)
               = map untimed_option (close_options_except clk1 ids rows1)
           \<and> (\<forall>r\<in>set rows2. o_closed r = None \<longrightarrow> o_id r \<in> set ids)"
proof -
  let ?U = "close_options_except clk1 ids rows1"
  let ?ws = "zip ids (map option_values rqs)"
  from upsert_options_selected[of clk1 rqs rows] assms
  have sel1: "map (\<lambda>rq. selected_option rq rows1) rqs = map Some ids" by simp
  have len: "length ids = length rqs"
    using upsert_options_length[of clk1 rqs rows] assms by simp
  have "selected_option (rqs ! j) ?U = Some (ids ! j)" if "j < length rqs" for j
  proof -
    from sel1 that len have "selected_option (rqs ! j) rows1 = Some (ids ! j)"
      by (metis length_map nth_map)
    moreover from that len have "ids ! j \<in> set ids" by simp
    ultimately show ?thesis by (rule selected_option_closed)
  qed
  with len have sel2: "map (\<lambda>rq. selected_option rq ?U) rqs = map Some ids"
    by (intro nth_equalityI) simp_all
  from upsert_options_replay[OF sel2]
  have replay: "upsert_options clk2 rqs ?U = (ids, write_options clk2 ?ws ?U)" .
  have lw: "\<forall>r\<in>set ?U. \<forall>v. last_write ?ws (o_id r) = Some v \<longrightarrow> (o_contracts r, o_premium r) = v"
  proof (intro ballI allI impI)
    fix r v assume r: "r \<in> set ?U" and v: "last_write ?ws (o_id r) = Some v"
    from close_options_except_values[OF r] obtain r1 where r1: "r1 \<in> set rows1"
      "o_id r1 = o_id r" "o_contracts r1 = o_contracts r" "o_premium r1 = o_premium r" by blast
    from upsert_options_last_write[OF assms r1(1)] v r1(2)
    have "(o_contracts r1, o_premium r1) = v" by simp
    with r1(3,4) show "(o_contracts r, o_premium r) = v" by simp
  qed
  have kept: "\<forall>r\<in>set (write_options clk2 ?ws ?U). o_closed r = None \<longrightarrow> o_id r \<in> set ids"
  proof (intro ballI impI)
    fix r assume r: "r \<in> set (write_options clk2 ?ws ?U)" and is_open: "o_closed r = None"
    then obtain r0 where "r0 \<in> set ?U" "o_id r0 = o_id r" "o_closed r0 = o_closed r"
      unfolding write_options_last_write by (auto split: option.splits)
    with is_open close_options_except_open[of r0 clk1 ids rows1] show "o_id r \<in> set ids" by simp
  qed
  from close_options_except_again[OF kept] write_options_untimed[OF lw, of clk2] replay kept
  show ?thesis by simp
qed


subsection \<open>Repeating the share upserts of a pass\<close>

lemma most_recent_map:
  assumes "\<And>x. l_opened (h x) = l_opened x"
  shows "most_recent (map h xs) = map_option h (most_recent xs)"
  by (induction xs) (auto simp: assms split: option.splits)

lemma selected_long_update [simp]:
  "selected_long rq (update_long clk shares buy_price i rows) = selected_long rq rows"
proof -
  let ?h = "\<lambda>r. if l_id r = i
               then r\<lparr>l_shares := shares, l_buy_price := buy_price,
                      l_updated_at := current_timestamp clk\<rparr> else r"
  have f: "filter (long_matches s) (map ?h rows) = map ?h (filter (long_matches s) rows)" for s
    by (induction rows) (auto simp: long_matches_def)
  have "most_recent (map ?h xs) = map_option ?h (most_recent xs)" for xs
    by (rule most_recent_map) simp
  with f show ?thesis
    by (cases rq) (auto simp: selected_long_def select_long_def update_long_def
                        option.map_comp comp_def intro!: option.map_cong)
qed

lemma upsert_long_selected:
  assumes "selected_long rq rows = Some y"
  shows "upsert_long clk rq rows = (y, update_long clk (fst (snd rq)) (snd (snd rq)) y rows)"
  using assms
  by (cases rq) (auto simp: upsert_long_def selected_long_def split: option.splits)

lemma upsert_long_inserted:
  assumes "selected_long (s, n, p) rows = None"
  shows "filter (long_matches s) rows = []"
    and "upsert_long clk (s, n, p) rows =
           (next_rowid (map l_id rows),
            rows @ [\<lparr>l_id = next_rowid (map l_id rows), l_symbol = s,
                     l_opened = isoformat (today clk), l_shares = n, l_buy_price = p,
                     l_closed = None, l_updated_at = current_timestamp clk\<rparr>])"
  using assms
  by (simp_all add: selected_long_def select_long_def upsert_long_def insert_long_def Let_def)

lemma upsert_long_selects:
  assumes "(i, rows') = upsert_long clk rq rows"
  shows "selected_long rq rows' = Some i"
proof (cases "selected_long rq rows")
  case (Some y)
  with assms upsert_long_selected[OF Some, of clk] show ?thesis by simp
next
  case None
  obtain s n p where rq: "rq = (s, n, p)" by (cases rq) auto
  from upsert_long_inserted(1)[OF None[unfolded rq]]
    upsert_long_inserted(2)[OF None[unfolded rq], where clk=clk] assms
  show ?thesis
    by (simp add: rq selected_long_def select_long_def long_matches_def)
qed

lemma upsert_long_keeps_selected:
  assumes "selected_long q rows = Some y"
  shows "selected_long q (snd (upsert_long clk rq rows)) = Some y"
proof (cases "selected_long rq rows")
  case (Some z)
  from upsert_long_selected[OF Some, of clk] assms show ?thesis by simp
next
  case None
  obtain s n p where rq: "rq = (s, n, p)" by (cases rq) auto
  obtain s' n' p' where q: "q = (s', n', p')" by (cases q) auto
  note ins = upsert_long_inserted(1)[OF None[unfolded rq]]
    upsert_long_inserted(2)[OF None[unfolded rq], where clk=clk]
  from assms have "filter (long_matches s') rows \<noteq> []"
    by (auto simp: q selected_long_def select_long_def)
  with ins(1) have "s' \<noteq> s" by auto
  with assms ins(2) show ?thesis
    by (simp add: rq q selected_long_def select_long_def long_matches_def)
qed

lemma upsert_longs_Cons:
  "fst (upsert_longs clk (rq # rqs) rows) =
     fst (upsert_long clk rq rows) # fst (upsert_longs clk rqs (snd (upsert_long clk rq rows)))"
  "snd (upsert_longs clk (rq # rqs) rows) =
     snd (upsert_longs clk rqs (snd (upsert_long clk rq rows)))"
  by (simp_all split: prod.splits)

lemma upsert_longs_keeps_selected:
  assumes "selected_long q rows = Some y"
  shows "selected_long q (snd (upsert_longs clk rqs rows)) = Some y"
  using assms
proof (induction rqs arbitrary: rows)
  case Nil
  then show ?case by simp
next
  case (Cons rq rqs)
  from Cons.IH[OF upsert_long_keeps_selected[OF Cons.prems, of clk rq]]
  show ?case by (simp only: upsert_longs_Cons)
qed

lemma upsert_longs_selected:
  "map (\<lambda>rq. selected_long rq (snd (upsert_longs clk rqs rows))) rqs =
     map Some (fst (upsert_longs clk rqs rows))"
proof (induction rqs arbitrary: rows)
  case Nil
  show ?case by simp
next
  case (Cons rq rqs)
  obtain i rows1 where one: "upsert_long clk rq rows = (i, rows1)"
    by (cases "upsert_long clk rq rows")
  from upsert_long_selects[of i rows1 clk rq rows] one
  have "selected_long rq rows1 = Some i" by simp
  from upsert_longs_keeps_selected[OF this, of clk rqs] Cons.IH[of rows1] one
  show ?case by (simp add: upsert_longs_Cons del: upsert_longs.simps)
qed

lemma upsert_longs_length:
  "length (fst (upsert_longs clk rqs rows)) = length rqs"
  by (induction rqs arbitrary: rows) (simp_all add: upsert_longs_Cons del: upsert_longs.simps(2))

lemma upsert_long_id_values:
  assumes "(i, rows') = upsert_long clk rq rows" and "r \<in> set rows'" and "l_id r = i"
  shows "(l_shares r, l_buy_price r) = snd rq"
proof (cases "selected_long rq rows")
  case (Some y)
  obtain s shares buy_price where rq: "rq = (s, shares, buy_price)" by (cases rq) auto
  from upsert_long_selected[OF Some, of clk] assms(1)
  have i: "i = y" and rows': "rows' = update_long clk shares buy_price y rows"
    by (simp_all add: rq)
  from assms(2) obtain r0 where r0: "r0 \<in> set rows"
    "r = (if l_id r0 = y
          then r0\<lparr>l_shares := shares, l_buy_price := buy_price,
                  l_updated_at := current_timestamp clk\<rparr> else r0)"
    unfolding rows' update_long_def by auto
  show ?thesis
  proof (cases "l_id r0 = y")
    case True
    with r0(2) show ?thesis by (simp add: rq)
  next
    case False
    with r0(2) assms(3) i show ?thesis by simp
  qed
next
  case None
  obtain s n p where rq: "rq = (s, n, p)" by (cases rq) auto
  note ins = upsert_long_inserted(1)[OF None[unfolded rq]]
    upsert_long_inserted(2)[OF None[unfolded rq], where clk=clk]
  from assms(1) ins(2) have i: "i = next_rowid (map l_id rows)"
    and rows': "rows' = rows @ [\<lparr>l_id = next_rowid (map l_id rows), l_symbol = s,
                     l_opened = isoformat (today clk), l_shares = n, l_buy_price = p,
                     l_closed = None, l_updated_at = current_timestamp clk\<rparr>]"
    by (simp_all add: rq)
  from assms(2) rows' consider "r \<in> set rows"
    | "r = \<lparr>l_id = next_rowid (map l_id rows), l_symbol = s,
                     l_opened = isoformat (today clk), l_shares = n, l_buy_price = p,
                     l_closed = None, l_updated_at = current_timestamp clk\<rparr>" by auto
  then show ?thesis
  proof cases
    case 1
    then have "l_id r \<in> set (map l_id rows)" by simp
    with assms(3) i next_rowid_fresh[of "map l_id rows"] show ?thesis by simp
  next
    case 2
    then show ?thesis by (simp add: rq)
  qed
qed

lemma upsert_long_other_rows:
  assumes "(i, rows') = upsert_long clk rq rows" and "r \<in> set rows'" and "l_id r \<noteq> i"
  shows "r \<in> set rows"
proof (cases "selected_long rq rows")
  case (Some y)
  from upsert_long_selected[OF Some, of clk] assms show ?thesis
    by (auto simp: update_long_def split: if_splits)
next
  case None
  obtain s n p where rq: "rq = (s, n, p)" by (cases rq) auto
  from upsert_long_inserted(2)[OF None[unfolded rq], where clk=clk] assms show ?thesis
    by (auto simp: rq)
qed

lemma upsert_longs_other_rows:
  assumes "upsert_longs clk rqs rows = (ids, rows')" and "r \<in> set rows'"
    and "l_id r \<notin> set ids"
  shows "r \<in> set rows"
  using assms
proof (induction rqs arbitrary: rows ids rows')
  case Nil
  then show ?case by simp
next
  case (Cons rq rqs)
  obtain i rows1 where one: "upsert_long clk rq rows = (i, rows1)"
    by (cases "upsert_long clk rq rows")
  obtain ids' rows2 where rest: "upsert_longs clk rqs rows1 = (ids', rows2)"
    by (cases "upsert_longs clk rqs rows1")
  from Cons.prems one rest have eq: "ids = i # ids'" "rows' = rows2" by simp_all
  from Cons.IH[OF rest] Cons.prems(2,3) eq have "r \<in> set rows1" by simp
  from upsert_long_other_rows[OF one[symmetric] this] Cons.prems(3) eq show ?case by simp
qed

lemma upsert_longs_last_write:
  assumes "upsert_longs clk rqs rows = (ids, rows')" and "r \<in> set rows'"
    and "last_write (zip ids (map snd rqs)) (l_id r) = Some v"
  shows "(l_shares r, l_buy_price r) = v"
  using assms
proof (induction rqs arbitrary: rows ids rows')
  case Nil
  then show ?case by simp
next
  case (Cons rq rqs)
  obtain i rows1 where one: "upsert_long clk rq rows = (i, rows1)"
    by (cases "upsert_long clk rq rows")
  obtain ids' rows2 where rest: "upsert_longs clk rqs rows1 = (ids', rows2)"
    by (cases "upsert_longs clk rqs rows1")
  from Cons.prems one rest have eq: "ids = i # ids'" "rows' = rows2" by simp_all
  show ?case
  proof (cases "last_write (zip ids' (map snd rqs)) (l_id r)")
    case (Some v')
    with Cons.prems(3) eq have lw: "last_write (zip ids' (map snd rqs)) (l_id r) = Some v"
      by simp
    from Cons.prems(2) eq have "r \<in> set rows2" by simp
    from Cons.IH[OF rest this lw] show ?thesis .
  next
    case None
    with Cons.prems(3) eq have i: "i = l_id r" and v: "v = snd rq"
      by (simp_all split: if_splits)
    from upsert_longs_length[of clk rqs rows1] rest have "length ids' = length rqs" by simp
    then have "map fst (zip ids' (map snd rqs)) = ids'" by simp
    then have "fst ` set (zip ids' (map snd rqs)) = set ids'"
      by (simp only: set_map[symmetric])
    with None have "l_id r \<notin> set ids'"
      by (simp only: last_write_None_iff) simp
    from upsert_longs_other_rows[OF rest _ this] Cons.prems(2) eq have "r \<in> set rows1" by simp
    from upsert_long_id_values[OF one[symmetric] this] i v show ?thesis by simp
  qed
qed

lemma upsert_longs_replay:
  assumes "map (\<lambda>rq. selected_long rq rows) rqs = map Some ids"
  shows "upsert_longs clk rqs rows = (ids, write_longs clk (zip ids (map snd rqs)) rows)"
  using assms
proof (induction rqs arbitrary: rows ids)
  case Nil
  then show ?case by simp
next
  case (Cons rq rqs)
  from Cons.prems obtain i ids' where ids: "ids = i # ids'" by (cases ids) simp_all
  from Cons.prems ids have sel: "selected_long rq rows = Some i"
    and rest: "map (\<lambda>rq. selected_long rq rows) rqs = map Some ids'"
    by simp_all
  obtain s shares buy_price where rq: "rq = (s, shares, buy_price)" by (cases rq) auto
  let ?rows1 = "update_long clk shares buy_price i rows"
  from upsert_long_selected[OF sel, of clk]
  have one: "upsert_long clk rq rows = (i, ?rows1)" by (simp add: rq)
  from rest have "map (\<lambda>rq. selected_long rq ?rows1) rqs = map Some ids'"
    by (simp only: selected_long_update)
  from Cons.IH[OF this]
  have two: "upsert_longs clk rqs ?rows1 =
               (ids', write_longs clk (zip ids' (map snd rqs)) ?rows1)" .
  have "upsert_longs clk (rq # rqs) rows =
          (i # ids', write_longs clk (zip ids' (map snd rqs)) ?rows1)"
    by (simp only: upsert_longs.simps one two prod.case)
  also have "write_longs clk (zip ids' (map snd rqs)) ?rows1 =
          write_longs clk (zip (i # ids') (map snd (rq # rqs))) rows"
    by (simp add: rq)
  finally show ?case by (simp only: ids)
qed


lemma write_longs_last_write:
  "write_longs clk ws rows =
     map (\<lambda>r. case last_write ws (l_id r) of
                 None \<Rightarrow> r
               | Some (shares, buy_price) \<Rightarrow>
                   r\<lparr>l_shares := shares, l_buy_price := buy_price,
                     l_updated_at := current_timestamp clk\<rparr>) rows"
proof (induction ws arbitrary: rows)
  case Nil
  show ?case by simp
next
  case (Cons w ws)
  obtain i shares buy_price where w: "w = (i, shares, buy_price)" by (cases w) auto
  have step: "(case last_write ws (l_id (if l_id r = i
                 then r\<lparr>l_shares := shares, l_buy_price := buy_price,
                        l_updated_at := current_timestamp clk\<rparr> else r)) of
                 None \<Rightarrow> (if l_id r = i
                 then r\<lparr>l_shares := shares, l_buy_price := buy_price,
                        l_updated_at := current_timestamp clk\<rparr> else r)
               | Some (c, p) \<Rightarrow>
                   (if l_id r = i
                 then r\<lparr>l_shares := shares, l_buy_price := buy_price,
                        l_updated_at := current_timestamp clk\<rparr> else r)
                    \<lparr>l_shares := c, l_buy_price := p, l_updated_at := current_timestamp clk\<rparr>)
              = (case last_write ((i, shares, buy_price) # ws) (l_id r) of
                 None \<Rightarrow> r
               | Some (c, p) \<Rightarrow>
                   r\<lparr>l_shares := c, l_buy_price := p, l_updated_at := current_timestamp clk\<rparr>)"
    for r
    by (cases "last_write ws (l_id r)"; cases "l_id r = i") auto
  show ?case
    unfolding w write_longs.simps Cons update_long_def map_map comp_def step ..
qed

lemma write_longs_untimed:
  assumes "\<forall>r\<in>set rows. \<forall>v. last_write ws (l_id r) = Some v \<longrightarrow> (l_shares r, l_buy_price r) = v"
  shows "map untimed_long (write_longs clk ws rows) = map untimed_long rows"
proof -
  have "untimed_long (case last_write ws (l_id r) of
                 None \<Rightarrow> r
               | Some (shares, buy_price) \<Rightarrow>
                   r\<lparr>l_shares := shares, l_buy_price := buy_price,
                     l_updated_at := current_timestamp clk\<rparr>) = untimed_long r"
    if "r \<in> set rows" for r
  proof (cases "last_write ws (l_id r)")
    case None
    then show ?thesis by simp
  next
    case (Some v)
    with assms that have "(l_shares r, l_buy_price r) = v" by blast
    with Some show ?thesis by (cases v) (auto simp: untimed_long_def)
  qed
  then show ?thesis unfolding write_longs_last_write by simp
qed

lemma selected_long_closed:
  assumes "fst rq \<in> set symbols"
  shows "selected_long rq (close_longs_except clk symbols rows) = selected_long rq rows"
proof -
  obtain s n p where rq: "rq = (s, n, p)" by (cases rq) auto
  from assms have "filter (long_matches s) (close_longs_except clk symbols rows)
                     = filter (long_matches s) rows"
    by (induction rows)
       (auto simp: rq close_longs_except_def long_matches_def close_long_row_def)
  then show ?thesis by (simp add: rq selected_long_def select_long_def)
qed

lemma close_longs_except_values:
  assumes "r' \<in> set (close_longs_except clk symbols rows)"
  shows "\<exists>r\<in>set rows. l_id r = l_id r' \<and> l_shares r = l_shares r' \<and> l_buy_price r = l_buy_price r'"
  using assms by (auto simp: close_longs_except_def close_long_row_def split: if_splits)

lemma close_longs_except_open:
  assumes "r \<in> set (close_longs_except clk symbols rows)" and "l_closed r = None"
  shows "l_symbol r \<in> set symbols"
  using assms by (auto simp: close_longs_except_def close_long_row_def split: if_splits)

lemma close_longs_except_again:
  assumes "\<forall>r\<in>set rows. l_closed r = None \<longrightarrow> l_symbol r \<in> set symbols"
  shows "close_longs_except clk symbols rows = rows"
  unfolding close_longs_except_def by (rule map_idI) (use assms in auto)

text \<open>The same for the share table, whose closure keeps the symbols of the requests.\<close>

lemma long_pass_twice:
  assumes "upsert_longs clk1 rqs rows = (ids, rows1)"
  shows "\<exists>rows2. upsert_longs clk2 rqs (close_longs_except clk1 (map fst rqs) rows1) = (ids, rows2)
           \<and> map untimed_long (close_longs_except clk2 (map fst rqs) rows2)
               = map untimed_long (close_longs_except clk1 (map fst rqs) rows1)
           \<and> (\<forall>r\<in>set rows2. l_closed r = None \<longrightarrow> l_symbol r \<in> set (map fst rqs))"
proof -
  let ?U = "close_longs_except clk1 (map fst rqs) rows1"
  let ?ws = "zip ids (map snd rqs)"
  from upsert_longs_selected[of clk1 rqs rows] assms
  have sel1: "map (\<lambda>rq. selected_long rq rows1) rqs = map Some ids" by simp
  have "selected_long rq ?U = selected_long rq rows1" if "rq \<in> set rqs" for rq
    by (rule selected_long_closed) (use that in simp)
  then have "map (\<lambda>rq. selected_long rq ?U) rqs = map (\<lambda>rq. selected_long rq rows1) rqs"
    by simp
  with sel1 have sel2: "map (\<lambda>rq. selected_long rq ?U) rqs = map Some ids" by simp
  from upsert_longs_replay[OF sel2]
  have replay: "upsert_longs clk2 rqs ?U = (ids, write_longs clk2 ?ws ?U)" .
  have lw: "\<forall>r\<in>set ?U. \<forall>v. last_write ?ws (l_id r) = Some v \<longrightarrow> (l_shares r, l_buy_price r) = v"
  proof (intro ballI allI impI)
    fix r v assume r: "r \<in> set ?U" and v: "last_write ?ws (l_id r) = Some v"
    from close_longs_except_values[OF r] obtain r1 where r1: "r1 \<in> set rows1"
      "l_id r1 = l_id r" "l_shares r1 = l_shares r" "l_buy_price r1 = l_buy_price r" by blast
    from upsert_longs_last_write[OF assms r1(1)] v r1(2)
    have "(l_shares r1, l_buy_price r1) = v" by simp
    with r1(3,4) show "(l_shares r, l_buy_price r) = v" by simp
  qed
  have kept: "\<forall>r\<in>set (write_longs clk2 ?ws ?U). l_closed r = None \<longrightarrow> l_symbol r \<in> set (map fst rqs)"
  proof (intro ballI impI)
    fix r assume r: "r \<in> set (write_longs clk2 ?ws ?U)" and is_open: "l_closed r = None"
    then obtain r0 where "r0 \<in> set ?U" "l_symbol r0 = l_symbol r" "l_closed r0 = l_closed r"
      unfolding write_longs_last_write by (auto split: option.splits)
    with is_open close_longs_except_open[of r0 clk1 "map fst rqs" rows1]
    show "l_symbol r \<in> set (map fst rqs)" by simp
  qed
  from close_longs_except_again[OF kept] write_longs_untimed[OF lw, of clk2] replay kept
  show ?thesis by simp
qed


subsection \<open>A pass without store faults\<close>

lemma request_failure_cases:
  obtains (Failure) e where "request_failure p = Some e"
  | (Option) rq where "request_failure p = None" "pos_sec_type p = Some ''OPT''"
      "option_request p = Inr rq"
  | (Stock) rq where "request_failure p = None" "pos_sec_type p = Some ''STK''"
      "stock_request p = Inr rq"
  | (Other) "request_failure p = None" "pos_sec_type p \<noteq> Some ''OPT''"
      "pos_sec_type p \<noteq> Some ''STK''" "pos_sec_type p \<noteq> None"
proof -
  have "(\<exists>e. request_failure p = Some e)
      \<or> (request_failure p = None \<and> pos_sec_type p = Some ''OPT'' \<and> (\<exists>rq. option_request p = Inr rq))
      \<or> (request_failure p = None \<and> pos_sec_type p = Some ''STK'' \<and> (\<exists>rq. stock_request p = Inr rq))
      \<or> (request_failure p = None \<and> pos_sec_type p \<noteq> Some ''OPT''
          \<and> pos_sec_type p \<noteq> Some ''STK'' \<and> pos_sec_type p \<noteq> None)"
    by (cases "pos_sec_type p"; cases "option_request p"; cases "stock_request p")
       (auto simp: request_failure_def getitem_def)
  then show thesis using Failure Option Stock Other by blast
qed

lemma request_failure_requests:
  assumes "request_failure p = Some e"
  shows "option_requests (p # ps) = option_requests ps"
    and "stock_requests (p # ps) = stock_requests ps"
  using assms
  by (auto simp: request_failure_def getitem_def split: option.splits sum.splits if_splits)

lemma sync_item_option_no_faults:
  assumes "pending_faults (st_conn st) = []" and "pos_sec_type p = Some ''OPT''"
    and "option_request p = Inr rq"
  shows "sync_item clk st p =
           st\<lparr>st_conn := (st_conn st)
                  \<lparr>tbl_symbols := List.insert (fst rq) (tbl_symbols (st_conn st)),
                   tbl_options := snd (upsert_option clk rq (tbl_options (st_conn st)))\<rparr>,
              st_option_ids := st_option_ids st @ [fst (upsert_option clk rq (tbl_options (st_conn st)))],
              st_result := (st_result st)\<lparr>options_synced := options_synced (st_result st) + 1\<rparr>\<rparr>"
proof -
  obtain s t k e n pr where rq: "rq = (s, t, k, e, n, pr)" by (cases rq) auto
  from assms(2,3) sync_option_position_no_faults[OF assms(1), of clk s t k e n pr]
  show ?thesis
    by (simp add: sync_item_def try_position_def getitem_def rq)
qed

lemma sync_item_stock_no_faults:
  assumes "pending_faults (st_conn st) = []" and "pos_sec_type p = Some ''STK''"
    and "stock_request p = Inr rq"
  shows "sync_item clk st p =
           st\<lparr>st_conn := (st_conn st)
                  \<lparr>tbl_symbols := List.insert (fst rq) (tbl_symbols (st_conn st)),
                   tbl_long_positions := snd (upsert_long clk rq (tbl_long_positions (st_conn st)))\<rparr>,
              st_stock_symbols := st_stock_symbols st @ [fst rq],
              st_result := (st_result st)\<lparr>positions_synced := positions_synced (st_result st) + 1\<rparr>\<rparr>"
proof -
  obtain s n pr where rq: "rq = (s, n, pr)" by (cases rq) auto
  from assms(2,3) sync_long_position_no_faults[OF assms(1), of clk s n pr]
  show ?thesis
    by (simp add: sync_item_def try_position_def getitem_def rq)
qed

lemma sync_item_other:
  assumes "pos_sec_type p \<noteq> Some ''OPT''" and "pos_sec_type p \<noteq> Some ''STK''"
    and "pos_sec_type p \<noteq> None"
  shows "sync_item clk st p = st"
  using assms by (auto simp: sync_item_def try_position_def getitem_def)

lemma process_positions_no_faults:
  assumes "pending_faults (st_conn st) = []"
  shows "st_option_ids (process_positions clk st ps) =
           st_option_ids st @ fst (upsert_options clk (option_requests ps) (tbl_options (st_conn st)))
       \<and> tbl_options (st_conn (process_positions clk st ps)) =
           snd (upsert_options clk (option_requests ps) (tbl_options (st_conn st)))
       \<and> st_stock_symbols (process_positions clk st ps) =
           st_stock_symbols st @ map fst (stock_requests ps)
       \<and> tbl_long_positions (st_conn (process_positions clk st ps)) =
           snd (upsert_longs clk (stock_requests ps) (tbl_long_positions (st_conn st)))
       \<and> errors (st_result (process_positions clk st ps)) =
           errors (st_result st) @ failure_messages ps
       \<and> options_synced (st_result (process_positions clk st ps)) =
           options_synced (st_result st) + length (option_requests ps)
       \<and> positions_synced (st_result (process_positions clk st ps)) =
           positions_synced (st_result st) + length (stock_requests ps)
       \<and> pending_faults (st_conn (process_positions clk st ps)) = []"
  using assms
proof (induction ps arbitrary: st)
  case Nil
  then show ?case by simp
next
  case (Cons p ps)
  show ?case
  proof (cases rule: request_failure_cases[of p])
    case (Failure e)
    note step = sync_item_request_failure[OF Failure, of clk st]
    from Cons.prems have "pending_faults (st_conn (sync_item clk st p)) = []"
      by (simp add: step)
    from Cons.IH[OF this] request_failure_requests[OF Failure, of ps] Failure
    show ?thesis by (simp add: step)
  next
    case (Option rq)
    note step = sync_item_option_no_faults[OF Cons.prems Option(2,3), of clk]
    from Cons.prems have "pending_faults (st_conn (sync_item clk st p)) = []"
      by (simp add: step)
    from Cons.IH[OF this] Option
    show ?thesis by (simp add: step upsert_options_Cons del: upsert_options.simps)
  next
    case (Stock rq)
    note step = sync_item_stock_no_faults[OF Cons.prems Stock(2,3), of clk]
    from Cons.prems have "pending_faults (st_conn (sync_item clk st p)) = []"
      by (simp add: step)
    from Cons.IH[OF this] Stock
    show ?thesis by (simp add: step upsert_longs_Cons del: upsert_longs.simps)
  next
    case Other
    note step = sync_item_other[OF Other(2-4), of clk st]
    from Cons.IH[OF Cons.prems] Other show ?thesis by (simp add: step)
  qed
qed

lemma close_missing_options_no_faults:
  assumes "pending_faults conn = []"
  shows "close_missing_options clk conn ids =
           (Inr (length (filter (\<lambda>r. o_closed r = None \<and> o_id r \<notin> set ids) (tbl_options conn))),
            conn\<lparr>tbl_options := close_options_except clk ids (tbl_options conn)\<rparr>)"
  using assms
  by (simp add: close_missing_options_def cursor_execute_def close_options_where_def
                close_options_except_def)

lemma close_missing_long_positions_no_faults:
  assumes "pending_faults conn = []"
  shows "close_missing_long_positions clk conn symbols =
           (Inr (length (filter (\<lambda>r. l_closed r = None \<and> l_symbol r \<notin> set symbols)
                           (tbl_long_positions conn))),
            conn\<lparr>tbl_long_positions := close_longs_except clk symbols (tbl_long_positions conn)\<rparr>)"
  using assms
  by (simp add: close_missing_long_positions_def cursor_execute_def close_longs_where_def
                close_longs_except_def)

lemma reconcile_no_faults:
  assumes "pending_faults conn = []"
    and "upsert_options clk (option_requests ps) (tbl_options conn) = (ids, rows)"
    and "upsert_longs clk (stock_requests ps) (tbl_long_positions conn) = (lids, lrows)"
    and "reconcile clk conn ps = (result, c')"
  shows "tbl_options c' = close_options_except clk ids rows"
    and "tbl_long_positions c' = close_longs_except clk (map fst (stock_requests ps)) lrows"
    and "success result" and "errors result = failure_messages ps"
    and "options_synced result = length (option_requests ps)"
    and "positions_synced result = length (stock_requests ps)"
    and "options_closed result = length (filter (\<lambda>r. o_closed r = None \<and> o_id r \<notin> set ids) rows)"
    and "positions_closed result =
           length (filter (\<lambda>r. l_closed r = None \<and> l_symbol r \<notin> set (map fst (stock_requests ps))) lrows)"
proof -
  let ?st = "loop_end clk conn ps"
  from process_positions_no_faults[of "initial_state conn" clk ps] assms(1-3)
  have loop: "st_option_ids ?st = ids" "tbl_options (st_conn ?st) = rows"
    "st_stock_symbols ?st = map fst (stock_requests ps)"
    "tbl_long_positions (st_conn ?st) = lrows"
    "errors (st_result ?st) = failure_messages ps"
    "options_synced (st_result ?st) = length (option_requests ps)"
    "positions_synced (st_result ?st) = length (stock_requests ps)"
    "pending_faults (st_conn ?st) = []"
    by simp_all
  note c1 = close_missing_options_no_faults[OF loop(8), of clk ids]
  have "pending_faults ((st_conn ?st)\<lparr>tbl_options := close_options_except clk ids (tbl_options (st_conn ?st))\<rparr>) = []"
    using loop(8) by simp
  note c2 = close_missing_long_positions_no_faults[OF this, of clk "map fst (stock_requests ps)",
      unfolded loop(2)]
  from assms(4) have r: "result = fst (reconcile clk conn ps)" and c: "c' = snd (reconcile clk conn ps)"
    by simp_all
  show "tbl_options c' = close_options_except clk ids rows"
    and "tbl_long_positions c' = close_longs_except clk (map fst (stock_requests ps)) lrows"
    and "success result" and "errors result = failure_messages ps"
    and "options_synced result = length (option_requests ps)"
    and "positions_synced result = length (stock_requests ps)"
    and "options_closed result = length (filter (\<lambda>r. o_closed r = None \<and> o_id r \<notin> set ids) rows)"
    and "positions_closed result =
           length (filter (\<lambda>r. l_closed r = None \<and> l_symbol r \<notin> set (map fst (stock_requests ps))) lrows)"
    unfolding r c reconcile_def Let_def loop(1) loop(3) c1 by (simp_all add: c2 loop)
qed


lemma fetched_means_connected:
  assumes "get_positions (snd (ensure_connected client host port client_id)) = Inr positions"
  shows "ensure_connected client host port client_id
           = (True, snd (ensure_connected client host port client_id))"
  using assms
  by (auto simp: ensure_connected_def connect_def Let_def get_positions_def is_connected_def
           split: if_splits option.splits)

lemma healthy_store_connection:
  "get_db_connection (healthy_store db) = Inr (open_connection db [])"
  by (simp add: get_db_connection_def healthy_store_def open_connection_def)

lemma open_connection_fields [simp]:
  "tbl_options (open_connection db faults) = tbl_options db"
  "tbl_long_positions (open_connection db faults) = tbl_long_positions db"
  "tbl_symbols (open_connection db faults) = tbl_symbols db"
  "pending_faults (open_connection db faults) = faults"
  by (simp_all add: open_connection_def)

lemma healthy_pass:
  assumes "sync_positions clk svc client (healthy_store db) host port client_id
             = (result, svc', client', db')"
    and "get_positions (snd (ensure_connected client host port client_id)) = Inr positions"
    and "upsert_options clk (option_requests positions) (tbl_options db) = (ids, rows)"
    and "upsert_longs clk (stock_requests positions) (tbl_long_positions db) = (lids, lrows)"
  shows "tbl_options db' = close_options_except clk ids rows"
    and "tbl_long_positions db' = close_longs_except clk (map fst (stock_requests positions)) lrows"
    and "success result" and "errors result = failure_messages positions"
    and "options_synced result = length (option_requests positions)"
    and "positions_synced result = length (stock_requests positions)"
    and "options_closed result = length (filter (\<lambda>r. o_closed r = None \<and> o_id r \<notin> set ids) rows)"
    and "positions_closed result =
           length (filter (\<lambda>r. l_closed r = None
                                 \<and> l_symbol r \<notin> set (map fst (stock_requests positions))) lrows)"
proof -
  let ?conn = "open_connection db []"
  from sync_positions_reconciled[OF fetched_means_connected[OF assms(2)] assms(2)
         healthy_store_connection[of db], where clk=clk and svc=svc] assms(1)
  have f: "fst (reconcile clk ?conn positions) = result"
    and d: "db' = conn_close (snd (reconcile clk ?conn positions))" by simp_all
  from f have r: "reconcile clk ?conn positions = (result, snd (reconcile clk ?conn positions))"
    by (simp add: prod_eq_iff)
  have nf: "pending_faults ?conn = []" by simp
  from assms(3,4) have u: "upsert_options clk (option_requests positions) (tbl_options ?conn) = (ids, rows)"
    "upsert_longs clk (stock_requests positions) (tbl_long_positions ?conn) = (lids, lrows)"
    by simp_all
  note facts = reconcile_no_faults[OF nf u r]
  from facts d show "tbl_options db' = close_options_except clk ids rows"
    and "tbl_long_positions db' = close_longs_except clk (map fst (stock_requests positions)) lrows"
    and "success result" and "errors result = failure_messages positions"
    and "options_synced result = length (option_requests positions)"
    and "positions_synced result = length (stock_requests positions)"
    and "options_closed result = length (filter (\<lambda>r. o_closed r = None \<and> o_id r \<notin> set ids) rows)"
    and "positions_closed result =
           length (filter (\<lambda>r. l_closed r = None
                                 \<and> l_symbol r \<notin> set (map fst (stock_requests positions))) lrows)"
    by simp_all
qed

subsection \<open>The positions of a pass, one by one\<close>

lemma sync_item_conn:
  "st_conn (sync_item clk st p) = snd (try_position clk (st_conn st) p)"
  by (auto simp: sync_item_def split: prod.splits sum.splits outcome.splits)

lemma item_results_length [simp]: "length (item_results clk conn ps) = length ps"
  by (induction ps arbitrary: conn) (simp_all split: prod.splits)

lemma item_results_append:
  "item_results clk (st_conn st) (ps @ qs) =
     item_results clk (st_conn st) ps
       @ item_results clk (st_conn (process_positions clk st ps)) qs"
proof (induction ps arbitrary: st)
  case Nil
  show ?case by simp
next
  case (Cons p ps)
  obtain r c where t: "try_position clk (st_conn st) p = (r, c)"
    by (cases "try_position clk (st_conn st) p")
  then have "st_conn (sync_item clk st p) = c" by (simp add: sync_item_conn)
  with Cons[of "sync_item clk st p"] t show ?case by simp
qed






subsection \<open>The positions that synced, and the keys of the specification\<close>

lemma initial_state_conn [simp]: "st_conn (initial_state conn) = conn"
  by (simp add: initial_state_def)

lemma item_results_snoc:
  "item_results clk conn (ps @ [p]) =
     item_results clk conn ps @ [fst (try_position clk (st_conn (loop_end clk conn ps)) p)]"
  using item_results_append[of clk "initial_state conn" ps "[p]"]
  by (simp split: prod.splits)

lemma synced_positions_snoc:
  "synced_positions clk conn (ps @ [p]) =
     synced_positions clk conn ps
       @ (if isl (fst (try_position clk (st_conn (loop_end clk conn ps)) p)) then [] else [p])"
  by (simp add: synced_positions_def item_results_snoc)

lemma synced_positions_Nil [simp]: "synced_positions clk conn [] = []"
  by (simp add: synced_positions_def)

lemma synced_positions_subset: "set (synced_positions clk conn ps) \<subseteq> set ps"
  by (auto simp: synced_positions_def dest: set_zip_leftD)

lemma filter_map_fst_filter:
  assumes "\<forall>z\<in>set zs. Q z \<longrightarrow> \<not> P (fst z)"
  shows "filter P (map fst (filter (\<lambda>z. \<not> Q z) zs)) = filter P (map fst zs)"
  using assms by (induction zs) auto

lemma synced_positions_filter:
  assumes "\<forall>p\<in>set (failed_positions clk conn ps). \<not> P p"
  shows "filter P (synced_positions clk conn ps) = filter P ps"
proof -
  let ?zs = "zip ps (item_results clk conn ps)"
  have "\<forall>z\<in>set ?zs. isl (snd z) \<longrightarrow> \<not> P (fst z)"
  proof (intro ballI impI)
    fix z assume "z \<in> set ?zs" and "isl (snd z)"
    then have "fst z \<in> set (failed_positions clk conn ps)"
      by (simp add: failed_positions_def)
    with assms show "\<not> P (fst z)" by blast
  qed
  from filter_map_fst_filter[of ?zs "\<lambda>z. isl (snd z)" P, OF this]
  show ?thesis by (simp add: synced_positions_def)
qed

lemma set_map_filter_iff:
  "y \<in> set (List.map_filter f xs) \<longleftrightarrow> (\<exists>x\<in>set xs. f x = Some y)"
  by (induction xs) (auto simp: map_filter_simps split: option.splits)

lemma loop_option_keys_iff:
  "k \<in> loop_option_keys ps \<longleftrightarrow>
     (\<exists>p\<in>set ps. pos_sec_type p = Some ''OPT'' \<and> loop_option_key p = Some k)"
  by (auto simp: loop_option_keys_def set_map_filter_iff)

lemma snapshot_stock_symbols_iff:
  "s \<in> snapshot_stock_symbols ps \<longleftrightarrow>
     (\<exists>p\<in>set ps. pos_sec_type p = Some ''STK'' \<and> pos_symbol p = Some s)"
  by (auto simp: snapshot_stock_symbols_def set_map_filter_iff)

lemma starts_with_C_C [simp]: "starts_with_C ''C''"
  by (simp add: starts_with_C_def)

lemma derived_option_key_plain:
  assumes "case pos_right p of None \<Rightarrow> True | Some r \<Rightarrow> starts_with_C r \<longrightarrow> r = ''C''"
  shows "derived_option_key p = loop_option_key p"
  using assms
  by (auto simp: derived_option_key_def loop_option_key_def split: option.splits sum.splits)

lemma snapshot_option_keys_plain:
  assumes "plain_right_codes ps"
  shows "snapshot_option_keys ps = loop_option_keys ps"
proof -
  from assms have "\<forall>p\<in>set ps. derived_option_key p = loop_option_key p"
    by (auto simp: plain_right_codes_def list_all_iff intro: derived_option_key_plain)
  then have "List.map_filter derived_option_key (filter (\<lambda>p. pos_sec_type p = Some ''OPT'') ps)
           = List.map_filter loop_option_key (filter (\<lambda>p. pos_sec_type p = Some ''OPT'') ps)"
    by (induction ps) (auto simp: map_filter_def)
  then show ?thesis by (simp add: snapshot_option_keys_def loop_option_keys_def)
qed

lemma plain_right_codes_synced:
  "plain_right_codes ps \<Longrightarrow> plain_right_codes (synced_positions clk conn ps)"
  using synced_positions_subset[of clk conn ps]
  by (auto simp: plain_right_codes_def list_all_iff)

text \<open>
  Every option position that synced has, when the loop ends, an open row with its key
  whose id the loop has collected; every stock position that synced has its symbol
  collected.
\<close>

lemma sync_item_keeps_collected:
  assumes "r \<in> set (tbl_options (st_conn st))" and "o_closed r = None"
    and "o_id r \<in> set (st_option_ids st)"
  shows "\<exists>r'\<in>set (tbl_options (st_conn (sync_item clk st p))).
           o_closed r' = None \<and> option_key r' = option_key r
           \<and> o_id r' \<in> set (st_option_ids (sync_item clk st p))"
proof (cases rule: sync_item_cases[of p clk st])
  case (Option i rq)
  from upsert_option_keeps_rows[OF Option(3) assms(1)] assms(2,3) show ?thesis
    by (auto simp: Option(5))
next
  case (Stock i rq)
  with assms show ?thesis by auto
next
  case Skip
  with assms show ?thesis by auto
next
  case (Error e c)
  with assms show ?thesis by auto
qed

lemma loop_synced_options:
  "\<forall>p\<in>set (synced_positions clk conn ps). pos_sec_type p = Some ''OPT'' \<longrightarrow>
     (\<exists>k. loop_option_key p = Some k
         \<and> (\<exists>r\<in>set (tbl_options (st_conn (loop_end clk conn ps))).
               o_closed r = None \<and> option_key r = k
               \<and> o_id r \<in> set (st_option_ids (loop_end clk conn ps))))"
proof (induction ps rule: rev_induct)
  case Nil
  show ?case by simp
next
  case (snoc p ps)
  let ?st = "loop_end clk conn ps"
  have old: "\<exists>k. loop_option_key q = Some k
         \<and> (\<exists>r\<in>set (tbl_options (st_conn (sync_item clk ?st p))).
               o_closed r = None \<and> option_key r = k
               \<and> o_id r \<in> set (st_option_ids (sync_item clk ?st p)))"
    if "q \<in> set (synced_positions clk conn ps)" and "pos_sec_type q = Some ''OPT''" for q
  proof -
    from snoc that obtain k r where k: "loop_option_key q = Some k"
      and r: "r \<in> set (tbl_options (st_conn ?st))" "o_closed r = None" "option_key r = k"
        "o_id r \<in> set (st_option_ids ?st)" by blast
    from sync_item_keeps_collected[OF r(1,2,4), of clk p] r(3) k show ?thesis by auto
  qed
  have new: "\<exists>k. loop_option_key p = Some k
         \<and> (\<exists>r\<in>set (tbl_options (st_conn (sync_item clk ?st p))).
               o_closed r = None \<and> option_key r = k
               \<and> o_id r \<in> set (st_option_ids (sync_item clk ?st p)))"
    if "\<not> isl (fst (try_position clk (st_conn ?st) p))" and "pos_sec_type p = Some ''OPT''"
  proof (cases rule: sync_item_cases[of p clk ?st])
    case (Option i rq)
    from upsert_option_row_key[OF Option(3)] option_request_key[OF Option(2)] show ?thesis
      by (auto simp: Option(5))
  next
    case (Stock i rq)
    with that show ?thesis by simp
  next
    case Skip
    with that show ?thesis by simp
  next
    case (Error e c)
    with that show ?thesis by simp
  qed
  from old new show ?case
    by (auto simp: synced_positions_snoc process_positions_snoc split: if_splits)
qed

lemma sync_item_keeps_symbols:
  "set (st_stock_symbols st) \<subseteq> set (st_stock_symbols (sync_item clk st p))"
  by (cases rule: sync_item_cases[of p clk st]) auto

lemma loop_synced_stocks:
  "\<forall>p\<in>set (synced_positions clk conn ps). pos_sec_type p = Some ''STK'' \<longrightarrow>
     (\<exists>s. pos_symbol p = Some s \<and> s \<in> set (st_stock_symbols (loop_end clk conn ps)))"
proof (induction ps rule: rev_induct)
  case Nil
  show ?case by simp
next
  case (snoc p ps)
  let ?st = "loop_end clk conn ps"
  have old: "\<exists>s. pos_symbol q = Some s \<and> s \<in> set (st_stock_symbols (sync_item clk ?st p))"
    if "q \<in> set (synced_positions clk conn ps)" and "pos_sec_type q = Some ''STK''" for q
    using snoc that sync_item_keeps_symbols[of ?st clk p] by blast
  have new: "\<exists>s. pos_symbol p = Some s \<and> s \<in> set (st_stock_symbols (sync_item clk ?st p))"
    if "\<not> isl (fst (try_position clk (st_conn ?st) p))" and "pos_sec_type p = Some ''STK''"
  proof (cases rule: sync_item_cases[of p clk ?st])
    case (Stock i rq)
    from stock_request_symbol[OF Stock(2)] show ?thesis by (simp add: Stock(6))
  next
    case (Option i rq)
    with that show ?thesis by simp
  next
    case Skip
    with that show ?thesis by simp
  next
    case (Error e c)
    with that show ?thesis by simp
  qed
  from old new show ?case
    by (auto simp: synced_positions_snoc process_positions_snoc split: if_splits)
qed

lemma reconcile_keeps_synced:
  assumes "reconcile clk conn ps = (result, c')" and "success result"
  shows "loop_option_keys (synced_positions clk conn ps) \<subseteq> open_option_keys (tbl_options c')"
    and "snapshot_stock_symbols (synced_positions clk conn ps)
           \<subseteq> open_share_symbols (tbl_long_positions c')"
proof -
  let ?st = "loop_end clk conn ps"
  note closed = reconcile_success[OF assms(1,2)]
  have opts: "open_option_keys (tbl_options c') =
                option_key ` {r \<in> set (tbl_options (st_conn ?st)).
                               o_closed r = None \<and> o_id r \<in> set (st_option_ids ?st)}"
    unfolding closed(1) open_option_keys_def open_option_rows_closed
    by (auto simp: open_option_rows_def)
  have longs: "open_share_symbols (tbl_long_positions c') =
                l_symbol ` {r \<in> set (tbl_long_positions (st_conn ?st)).
                              l_closed r = None \<and> l_symbol r \<in> set (st_stock_symbols ?st)}"
    unfolding closed(2) open_share_symbols_def open_long_rows_closed
    by (auto simp: open_long_rows_def)
  show "loop_option_keys (synced_positions clk conn ps) \<subseteq> open_option_keys (tbl_options c')"
  proof
    fix k assume "k \<in> loop_option_keys (synced_positions clk conn ps)"
    then obtain p where "p \<in> set (synced_positions clk conn ps)" "pos_sec_type p = Some ''OPT''"
      "loop_option_key p = Some k" by (auto simp: loop_option_keys_iff)
    with loop_synced_options[of clk conn ps] obtain r where
      "r \<in> set (tbl_options (st_conn ?st))" "o_closed r = None" "option_key r = k"
      "o_id r \<in> set (st_option_ids ?st)" by fastforce
    then show "k \<in> open_option_keys (tbl_options c')" unfolding opts by blast
  qed
  show "snapshot_stock_symbols (synced_positions clk conn ps)
          \<subseteq> open_share_symbols (tbl_long_positions c')"
  proof
    fix s assume "s \<in> snapshot_stock_symbols (synced_positions clk conn ps)"
    then obtain p where "p \<in> set (synced_positions clk conn ps)" "pos_sec_type p = Some ''STK''"
      "pos_symbol p = Some s" by (auto simp: snapshot_stock_symbols_iff)
    with loop_synced_stocks[of clk conn ps] have s: "s \<in> set (st_stock_symbols ?st)" by fastforce
    with loop_symbols_open[of clk conn ps] obtain r where
      "r \<in> set (tbl_long_positions (st_conn ?st))" "l_closed r = None" "l_symbol r = s" by blast
    with s show "s \<in> open_share_symbols (tbl_long_positions c')" unfolding longs by blast
  qed
qed


section \<open>Properties of the sync service\<close>
text \<open>
  C1, as the code has it. Take a pass that returns \<open>success = True\<close>, on a store whose
  option ids are distinct, over a snapshot with plain right codes. Every option position
  that synced has its identity key open in the store, and every open option key is an
  option key of the snapshot; every stock position that synced has its symbol open, and
  every open share symbol is the symbol of a stock position of the snapshot. So the open
  option keys are exactly the option keys of the snapshot when no option position raised,
  the open share symbols are exactly its stock symbols when no stock position raised, and
  both hold when the error list of the pass is empty.
\<close>

theorem successful_pass_converges_up_to_failed_positions:
  assumes "sync_positions clk svc client dbe host port client_id = (result, svc', client', db')"
    and "success result"
    and "get_positions (snd (ensure_connected client host port client_id)) = Inr positions"
    and "get_db_connection dbe = Inr conn"
    and "distinct (map o_id (tbl_options (db_file dbe)))"
    and "plain_right_codes positions"
  shows "snapshot_option_keys (synced_positions clk conn positions)
           \<subseteq> open_option_keys (tbl_options db')
       \<and> open_option_keys (tbl_options db') \<subseteq> snapshot_option_keys positions
       \<and> snapshot_stock_symbols (synced_positions clk conn positions)
           \<subseteq> open_share_symbols (tbl_long_positions db')
       \<and> open_share_symbols (tbl_long_positions db') \<subseteq> snapshot_stock_symbols positions
       \<and> ((\<forall>p\<in>set (failed_positions clk conn positions). pos_sec_type p \<noteq> Some ''OPT'') \<longrightarrow>
            open_option_keys (tbl_options db') = snapshot_option_keys positions)
       \<and> ((\<forall>p\<in>set (failed_positions clk conn positions). pos_sec_type p \<noteq> Some ''STK'') \<longrightarrow>
            open_share_symbols (tbl_long_positions db') = snapshot_stock_symbols positions)
       \<and> (errors result = [] \<longrightarrow>
            open_option_keys (tbl_options db') = snapshot_option_keys positions
            \<and> open_share_symbols (tbl_long_positions db') = snapshot_stock_symbols positions)"
proof -
  let ?synced = "synced_positions clk conn positions"
  from assms(1-3) obtain conn0 where conn0: "get_db_connection dbe = Inr conn0"
    and rec0: "reconcile clk conn0 positions = (result, snd (reconcile clk conn0 positions))"
    and db0: "db' = conn_close (snd (reconcile clk conn0 positions))"
    by (rule sync_positions_success)
  from conn0 assms(4) have "conn0 = conn" by simp
  with rec0 db0 have rec: "reconcile clk conn positions = (result, snd (reconcile clk conn positions))"
    and db': "db' = conn_close (snd (reconcile clk conn positions))" by simp_all
  from get_db_connection_tables(1)[OF assms(4)] assms(5)
  have d: "distinct (map o_id (tbl_options conn))" by simp
  note plain = snapshot_option_keys_plain[OF assms(6)]
  note plain_synced = snapshot_option_keys_plain[OF plain_right_codes_synced[OF assms(6), of clk conn]]
  note upper = reconcile_converges[OF rec assms(2) d]
  note lower = reconcile_keeps_synced[OF rec assms(2)]
  have lo: "snapshot_option_keys ?synced \<subseteq> open_option_keys (tbl_options db')"
    using lower(1) by (simp add: plain_synced db')
  have uo: "open_option_keys (tbl_options db') \<subseteq> snapshot_option_keys positions"
    using upper(1) by (simp add: plain db')
  have ls: "snapshot_stock_symbols ?synced \<subseteq> open_share_symbols (tbl_long_positions db')"
    using lower(2) by (simp add: db')
  have us: "open_share_symbols (tbl_long_positions db') \<subseteq> snapshot_stock_symbols positions"
    using upper(2) by (simp add: db')
  have eo: "open_option_keys (tbl_options db') = snapshot_option_keys positions"
    if "\<forall>p\<in>set (failed_positions clk conn positions). pos_sec_type p \<noteq> Some ''OPT''"
  proof -
    from synced_positions_filter[of clk conn positions "\<lambda>p. pos_sec_type p = Some ''OPT''"] that
    have "snapshot_option_keys ?synced = snapshot_option_keys positions"
      by (simp add: snapshot_option_keys_def)
    with lo uo show ?thesis by simp
  qed
  have es: "open_share_symbols (tbl_long_positions db') = snapshot_stock_symbols positions"
    if "\<forall>p\<in>set (failed_positions clk conn positions). pos_sec_type p \<noteq> Some ''STK''"
  proof -
    from synced_positions_filter[of clk conn positions "\<lambda>p. pos_sec_type p = Some ''STK''"] that
    have "snapshot_stock_symbols ?synced = snapshot_stock_symbols positions"
      by (simp add: snapshot_stock_symbols_def)
    with ls us show ?thesis by simp
  qed
  have ee: "open_option_keys (tbl_options db') = snapshot_option_keys positions
            \<and> open_share_symbols (tbl_long_positions db') = snapshot_stock_symbols positions"
    if "errors result = []"
    using upper(3,4)[OF that] uo us by (auto simp: plain db')
  from lo uo ls us eo es ee show ?thesis by blast
qed

lemma example_pass_facts:
  "success (fst (sync_positions example_clock idle_service
                   (session_holding [aapl_put_position]) (healthy_store example_db) None None None))"
  "get_positions (snd (ensure_connected (session_holding [aapl_put_position]) None None None))
     = Inr [aapl_put_item]"
  "failed_positions example_clock (open_connection example_db []) [aapl_put_item] = []"
  "plain_right_codes [aapl_put_item]"
  "snapshot_option_keys [aapl_put_item] = {(''AAPL'', ''Put'', 150, ''2024-06-21'')}"
  "snapshot_stock_symbols [aapl_put_item] = {}"
  by code_simp+

theorem successful_pass_converges_up_to_failed_positions_witness:
  "open_option_keys (tbl_options (snd (snd (snd (sync_positions example_clock idle_service
       (session_holding [aapl_put_position]) (healthy_store example_db) None None None)))))
     = {(''AAPL'', ''Put'', 150, ''2024-06-21'')}
   \<and> open_share_symbols (tbl_long_positions (snd (snd (snd (sync_positions example_clock
       idle_service (session_holding [aapl_put_position]) (healthy_store example_db)
       None None None))))) = {}"
proof -
  obtain result svc' client' db' where run:
    "sync_positions example_clock idle_service (session_holding [aapl_put_position])
       (healthy_store example_db) None None None = (result, svc', client', db')"
    using prod_cases4 by blast
  from example_pass_facts(1) run have ok: "success result" by simp
  have d: "distinct (map o_id (tbl_options (db_file (healthy_store example_db))))"
    by (simp add: healthy_store_def example_db_def)
  from successful_pass_converges_up_to_failed_positions[OF run ok example_pass_facts(2)
         healthy_store_connection d example_pass_facts(4)]
    example_pass_facts(3,5,6) run
  show ?thesis by simp
qed

text \<open>
  C1, as the claim states it, fails. The broker reports an AAPL put with multiplier 0 and
  the store is empty: the key of the position is derivable from the snapshot, the division
  for the premium raises, the pass returns \<open>success = True\<close>, and no option key is open.
\<close>

theorem failed_position_leaves_its_key_unopened:
  "get_positions (session_holding [zero_multiplier_position]) = Inr [zero_multiplier_item]
   \<and> snapshot_option_keys [zero_multiplier_item] = {(''AAPL'', ''Put'', 150, ''2024-06-21'')}
   \<and> success (fst (sync_positions example_clock idle_service
                     (session_holding [zero_multiplier_position]) (healthy_store empty_db)
                     None None None))
   \<and> errors (fst (sync_positions example_clock idle_service
                     (session_holding [zero_multiplier_position]) (healthy_store empty_db)
                     None None None))
       = [''Error syncing position AAPL: float division by zero'']
   \<and> open_option_keys (tbl_options (snd (snd (snd (sync_positions example_clock idle_service
                     (session_holding [zero_multiplier_position]) (healthy_store empty_db)
                     None None None))))) = {}"
  by code_simp

text \<open>
  What the statement above leaves open. A position that raised is not among the collected
  ids, so the closure step treats its row like the row of a position that the broker no
  longer holds: the open AAPL put, reported with multiplier 0, is closed by the pass,
  although the comment on the closure step reads \<open>Close positions no longer in IBKR\<close>.
\<close>

lemma open_row_of_failed_position_is_closed:
  "open_option_keys (tbl_options aapl_only_db) = {(''AAPL'', ''Put'', 150, ''2024-06-21'')}
   \<and> snapshot_option_keys [zero_multiplier_item] = {(''AAPL'', ''Put'', 150, ''2024-06-21'')}
   \<and> success (fst (sync_positions example_clock idle_service
                     (session_holding [zero_multiplier_position]) (healthy_store aapl_only_db)
                     None None None))
   \<and> open_option_keys (tbl_options (snd (snd (snd (sync_positions example_clock idle_service
                     (session_holding [zero_multiplier_position]) (healthy_store aapl_only_db)
                     None None None))))) = {}"
  by code_simp


text \<open>
  C2. After a successful pass whose snapshot holds no option item, the option table is
  the prior table with every open row closed today (and nothing else changed but the
  update time of those rows); the same for the share table when the snapshot holds no
  stock item.
\<close>

theorem empty_snapshot_closes_every_open_row:
  assumes "sync_positions clk svc client dbe host port client_id = (result, svc', client', db')"
    and "success result"
    and "get_positions (snd (ensure_connected client host port client_id)) = Inr positions"
  shows "((\<forall>p\<in>set positions. pos_sec_type p \<noteq> Some ''OPT'') \<longrightarrow>
            tbl_options db' =
              map (\<lambda>r. if o_closed r = None
                        then r\<lparr>o_closed := Some (isoformat (today clk)),
                               o_updated_at := current_timestamp clk\<rparr>
                        else r) (tbl_options (db_file dbe)))
       \<and> ((\<forall>p\<in>set positions. pos_sec_type p \<noteq> Some ''STK'') \<longrightarrow>
            tbl_long_positions db' =
              map (\<lambda>r. if l_closed r = None
                        then r\<lparr>l_closed := Some (isoformat (today clk)),
                               l_updated_at := current_timestamp clk\<rparr>
                        else r) (tbl_long_positions (db_file dbe)))"
proof -
  from assms obtain conn where conn: "get_db_connection dbe = Inr conn"
    and rec: "reconcile clk conn positions = (result, snd (reconcile clk conn positions))"
    and db': "db' = conn_close (snd (reconcile clk conn positions))"
    by (rule sync_positions_success)
  note closed = reconcile_success[OF rec assms(2)]
  note tables = get_db_connection_tables[OF conn]
  show ?thesis
  proof (intro conjI impI)
    assume "\<forall>p\<in>set positions. pos_sec_type p \<noteq> Some ''OPT''"
    from process_positions_no_options[OF this, of clk "initial_state conn"]
    show "tbl_options db' =
              map (\<lambda>r. if o_closed r = None
                        then r\<lparr>o_closed := Some (isoformat (today clk)),
                               o_updated_at := current_timestamp clk\<rparr>
                        else r) (tbl_options (db_file dbe))"
      using closed(1) tables(1) db' by (simp add: close_option_row_def)
  next
    assume "\<forall>p\<in>set positions. pos_sec_type p \<noteq> Some ''STK''"
    from process_positions_no_stocks[OF this, of clk "initial_state conn"]
    show "tbl_long_positions db' =
              map (\<lambda>r. if l_closed r = None
                        then r\<lparr>l_closed := Some (isoformat (today clk)),
                               l_updated_at := current_timestamp clk\<rparr>
                        else r) (tbl_long_positions (db_file dbe))"
      using closed(2) tables(2) db' by (simp add: close_long_row_def)
  qed
qed

theorem empty_snapshot_closes_every_open_row_witness:
  "tbl_options (snd (snd (snd (sync_positions example_clock idle_service (session_holding [])
       (healthy_store example_db) None None None)))) =
     [aapl_put_row\<lparr>o_closed := Some ''2024-05-17'', o_updated_at := ''2024-05-17 14:30:00''\<rparr>]
   \<and> tbl_long_positions (snd (snd (snd (sync_positions example_clock idle_service
       (session_holding []) (healthy_store example_db) None None None)))) =
     [msft_row\<lparr>l_closed := Some ''2024-05-17'', l_updated_at := ''2024-05-17 14:30:00''\<rparr>]"
proof -
  obtain result svc' client' db' where run:
    "sync_positions example_clock idle_service (session_holding []) (healthy_store example_db)
       None None None = (result, svc', client', db')"
    using prod_cases4 by blast
  have "success (fst (sync_positions example_clock idle_service (session_holding [])
                        (healthy_store example_db) None None None))"
    by code_simp
  with run have ok: "success result" by simp
  have fetched: "get_positions (snd (ensure_connected (session_holding []) None None None)) = Inr []"
    by (simp add: ensure_connected_def is_connected_def session_holding_def get_positions_def)
  have iso: "isoformat (today example_clock) = ''2024-05-17''"
    by (simp add: example_clock_def isoformat_def digit_char_def)
  from empty_snapshot_closes_every_open_row[OF run ok fetched] run iso show ?thesis
    by (simp add: healthy_store_def example_db_def aapl_put_row_def msft_row_def example_clock_def)
qed


text \<open>
  C3. Two passes in a row over the same snapshot, on a store that raises no fault: the
  second pass leaves both tables as the first left them, row for row and column for
  column except the update time (so it inserts no row, writes the values the rows
  already hold, and opens or closes none); it syncs as many positions as the first,
  closes none, and reports the same errors.
\<close>

theorem second_pass_changes_nothing:
  assumes "sync_positions clk1 svc client (healthy_store db0) host port client_id
             = (result1, svc1, client1, db1)"
    and "get_positions (snd (ensure_connected client host port client_id)) = Inr positions"
    and "sync_positions clk2 svc1 client2 (healthy_store db1) host2 port2 client_id2
             = (result2, svc2, client2', db2)"
    and "get_positions (snd (ensure_connected client2 host2 port2 client_id2)) = Inr positions"
  shows "map untimed_option (tbl_options db2) = map untimed_option (tbl_options db1)
       \<and> map untimed_long (tbl_long_positions db2) = map untimed_long (tbl_long_positions db1)
       \<and> length (tbl_options db2) = length (tbl_options db1)
       \<and> length (tbl_long_positions db2) = length (tbl_long_positions db1)
       \<and> success result1 \<and> success result2
       \<and> options_synced result2 = options_synced result1
       \<and> positions_synced result2 = positions_synced result1
       \<and> options_closed result2 = 0 \<and> positions_closed result2 = 0
       \<and> errors result2 = errors result1"
proof -
  let ?rqs = "option_requests positions" and ?srqs = "stock_requests positions"
  obtain ids rows1 where o1: "upsert_options clk1 ?rqs (tbl_options db0) = (ids, rows1)"
    by (cases "upsert_options clk1 ?rqs (tbl_options db0)")
  obtain lids lrows1 where l1: "upsert_longs clk1 ?srqs (tbl_long_positions db0) = (lids, lrows1)"
    by (cases "upsert_longs clk1 ?srqs (tbl_long_positions db0)")
  note first = healthy_pass[OF assms(1,2) o1 l1]
  from option_pass_twice[OF o1, of clk2] obtain rows2 where
    o2: "upsert_options clk2 ?rqs (close_options_except clk1 ids rows1) = (ids, rows2)"
    and oeq: "map untimed_option (close_options_except clk2 ids rows2)
               = map untimed_option (close_options_except clk1 ids rows1)"
    and okept: "\<forall>r\<in>set rows2. o_closed r = None \<longrightarrow> o_id r \<in> set ids" by blast
  from long_pass_twice[OF l1, of clk2] obtain lrows2 where
    l2: "upsert_longs clk2 ?srqs (close_longs_except clk1 (map fst ?srqs) lrows1) = (lids, lrows2)"
    and leq: "map untimed_long (close_longs_except clk2 (map fst ?srqs) lrows2)
               = map untimed_long (close_longs_except clk1 (map fst ?srqs) lrows1)"
    and lkept: "\<forall>r\<in>set lrows2. l_closed r = None \<longrightarrow> l_symbol r \<in> set (map fst ?srqs)" by blast
  note second = healthy_pass[OF assms(3,4) o2[folded first(1)] l2[folded first(2)]]
  have ocount: "filter (\<lambda>r. o_closed r = None \<and> o_id r \<notin> set ids) rows2 = []"
    using okept by (auto simp: filter_empty_conv)
  have lcount: "filter (\<lambda>r. l_closed r = None \<and> l_symbol r \<notin> set (map fst ?srqs)) lrows2 = []"
    using lkept by (auto simp: filter_empty_conv)
  have o: "map untimed_option (tbl_options db2) = map untimed_option (tbl_options db1)"
    using oeq first(1) second(1) by simp
  have l: "map untimed_long (tbl_long_positions db2) = map untimed_long (tbl_long_positions db1)"
    using leq first(2) second(2) by simp
  from o have "length (map untimed_option (tbl_options db2)) = length (map untimed_option (tbl_options db1))"
    by simp
  then have ol: "length (tbl_options db2) = length (tbl_options db1)" by simp
  from l have "length (map untimed_long (tbl_long_positions db2))
                 = length (map untimed_long (tbl_long_positions db1))" by simp
  then have ll: "length (tbl_long_positions db2) = length (tbl_long_positions db1)" by simp
  from o l ol ll first(3-6) second(3-8) ocount lcount show ?thesis by simp
qed


lemma aapl_put_fetched:
  "get_positions (snd (ensure_connected (session_holding [aapl_put_position]) None None None))
     = Inr [aapl_put_item]"
  by code_simp

lemma first_run_inserts: "length (tbl_options (snd (snd (snd first_run)))) = 1"
  unfolding first_run_def by code_simp

theorem second_pass_changes_nothing_witness:
  "length (tbl_options (snd (snd (snd first_run)))) = 1
   \<and> length (tbl_options (snd (snd (snd second_run)))) = 1
   \<and> map untimed_option (tbl_options (snd (snd (snd second_run))))
       = map untimed_option (tbl_options (snd (snd (snd first_run))))
   \<and> options_synced (fst second_run) = options_synced (fst first_run)
   \<and> options_closed (fst second_run) = 0 \<and> success (fst second_run)"
proof -
  have run1: "sync_positions example_clock idle_service (session_holding [aapl_put_position])
        (healthy_store empty_db) None None None
      = (fst first_run, fst (snd first_run), fst (snd (snd first_run)), snd (snd (snd first_run)))"
    by (simp add: first_run_def)
  have run2: "sync_positions later_clock (fst (snd first_run)) (session_holding [aapl_put_position])
        (healthy_store (snd (snd (snd first_run)))) None None None
      = (fst second_run, fst (snd second_run), fst (snd (snd second_run)), snd (snd (snd second_run)))"
    by (simp add: second_run_def)
  from second_pass_changes_nothing[OF run1 aapl_put_fetched run2 aapl_put_fetched]
    first_run_inserts
  show ?thesis by simp
qed

text \<open>
  C4. If no two open option rows of the store share an identity key, then after any
  sequence of sync requests (whatever their snapshots, duplicates included, whatever
  their store faults and clocks) no two open option rows share an identity key.
\<close>

theorem open_option_keys_stay_distinct:
  assumes "unique_open_keys (tbl_options db)"
  shows "unique_open_keys (tbl_options (snd (run_passes svc db passes)))"
  using assms
proof (induction passes arbitrary: svc db)
  case Nil
  then show ?case by simp
next
  case (Cons p ps)
  obtain result svc' client' db' where run:
    "sync_positions (pass_clock p) svc (pass_client p)
       \<lparr>db_file = db, db_connect_fault = pass_connect_fault p,
        db_statement_faults = pass_statement_faults p\<rparr>
       (pass_host p) (pass_port p) (pass_client_id p) = (result, svc', client', db')"
    using prod_cases4 by blast
  from sync_positions_unique[OF run] Cons.prems have "unique_open_keys (tbl_options db')" by simp
  from Cons.IH[OF this] run show ?case by simp
qed


theorem open_option_keys_stay_distinct_witness:
  "unique_open_keys (tbl_options empty_db)
   \<and> unique_open_keys (tbl_options (snd (run_passes idle_service empty_db [doubled_pass])))
   \<and> map o_contracts (tbl_options (snd (run_passes idle_service empty_db [doubled_pass]))) = [5]"
proof -
  have a: "unique_open_keys (tbl_options empty_db)"
    by (simp add: empty_db_def unique_open_keys_def open_option_rows_def)
  have c: "map o_contracts (tbl_options (snd (run_passes idle_service empty_db [doubled_pass]))) = [5]"
    by code_simp
  from open_option_keys_stay_distinct[OF a, of idle_service "[doubled_pass]"] a c
  show ?thesis by simp
qed

text \<open>
  The option type of a synced item, as line 75 of sync_service.py computes it: \<open>Call\<close>
  exactly when the right code is the one-letter string \<open>C\<close>. On the codes \<open>C\<close> and
  \<open>P\<close> that \<open>get_positions\<close> documents, this is \<open>Call\<close> iff the code starts with \<open>C\<close>.
\<close>

lemma option_type_of_synced_item:
  assumes "try_position clk conn pos = (Inr (OptionSynced i), c')"
  shows "\<exists>r\<in>set (tbl_options c'). o_id r = i \<and> o_closed r = None
           \<and> (o_type r = ''Call'' \<longleftrightarrow> pos_right pos = Some ''C'')
           \<and> (o_type r = ''Put'' \<longleftrightarrow> pos_right pos \<noteq> Some ''C'')"
proof -
  from try_position_option(2)[OF assms] obtain rq where rq: "option_request pos = Inr rq"
    and up: "(i, tbl_options c') = upsert_option clk rq (tbl_options conn)" by blast
  obtain symbol option_type strike expiration contracts premium
    where rq_def: "rq = (symbol, option_type, strike, expiration, contracts, premium)"
    by (cases rq) auto
  from upsert_option_row[OF up[unfolded rq_def]] obtain r where r: "r \<in> set (tbl_options c')"
    "o_id r = i" "o_closed r = None"
    "option_key r = (symbol, option_type, strike, isoformat expiration)" by blast
  from option_request_fields(2)[OF rq[unfolded rq_def]] obtain code where
    "pos_right pos = Some code" "option_type = (if code = ''C'' then ''Call'' else ''Put'')"
    by blast
  with r(4) have "(o_type r = ''Call'' \<longleftrightarrow> pos_right pos = Some ''C'')
           \<and> (o_type r = ''Put'' \<longleftrightarrow> pos_right pos \<noteq> Some ''C'')"
    by (auto simp: option_key_def)
  with r(1-3) show ?thesis by blast
qed

lemma option_type_on_documented_codes:
  assumes "try_position clk conn pos = (Inr (OptionSynced i), c')"
    and "pos_right pos = Some code" and "code = ''C'' \<or> code = ''P''"
  shows "\<exists>r\<in>set (tbl_options c'). o_id r = i \<and> o_closed r = None
           \<and> (o_type r = ''Call'' \<longleftrightarrow> starts_with_C code)
           \<and> (o_type r = ''Put'' \<longleftrightarrow> \<not> starts_with_C code)"
proof -
  from assms(3) have "starts_with_C code \<longleftrightarrow> code = ''C''"
    by (auto simp: starts_with_C_def)
  with option_type_of_synced_item[OF assms(1)] assms(2) show ?thesis by auto
qed

text \<open>
  C5 fails on the code. The broker spells a right code out as \<open>CALL\<close>: the code starts
  with \<open>C\<close>, the test of line 75 is an equality with \<open>C\<close>, and the position is stored
  as a \<open>Put\<close>.
\<close>

theorem right_code_CALL_is_stored_as_put:
  "position_dict aapl_call_position = Inr aapl_call_item
   \<and> pos_right aapl_call_item = Some ''CALL'' \<and> starts_with_C ''CALL''
   \<and> success (fst (reconcile example_clock (open_connection empty_db []) [aapl_call_item]))
   \<and> errors (fst (reconcile example_clock (open_connection empty_db []) [aapl_call_item])) = []
   \<and> map o_type (tbl_options (snd (reconcile example_clock (open_connection empty_db [])
                                      [aapl_call_item]))) = [''Put'']"
  by code_simp


text \<open>
  C6. The row that a synced option item is stored in holds, as contract count, the
  absolute value of the item's (whole-number) quantity and, as premium, the item's
  average cost divided by its multiplier, 100 when the item has none. In the scenario of
  the specification the open AAPL put is updated in place to 3 contracts at 3.75: the
  table still has one row, the row is open, and nothing is closed.
\<close>

theorem contracts_and_premium_of_synced_option:
  assumes "try_position clk conn pos = (Inr (OptionSynced i), c')"
    and "pos_position pos = Some (of_int quantity)"
  shows "(\<exists>r\<in>set (tbl_options c'). o_id r = i \<and> o_closed r = None
            \<and> o_contracts r = \<bar>quantity\<bar>
            \<and> (\<exists>cost. pos_avg_cost pos = Some cost
                  \<and> o_premium r =
                      cost / of_int (case pos_multiplier pos of None \<Rightarrow> 100 | Some m \<Rightarrow> m)))
       \<and> reconcile example_clock (open_connection aapl_only_db []) [aapl_put_item] =
           (\<lparr>success = True, synced_at = Some (now_synced example_clock), options_synced = 1,
             positions_synced = 0, options_closed = 0, positions_closed = 0, errors = []\<rparr>,
            \<lparr>tbl_symbols = [''AAPL''],
             tbl_options = [aapl_put_row\<lparr>o_contracts := 3, o_premium := 15 / 4,
                                         o_updated_at := current_timestamp example_clock\<rparr>],
             tbl_long_positions = [], pending_faults = []\<rparr>)"
proof -
  from try_position_option(2)[OF assms(1)] obtain rq where rq: "option_request pos = Inr rq"
    and up: "(i, tbl_options c') = upsert_option clk rq (tbl_options conn)" by blast
  obtain symbol option_type strike expiration contracts premium
    where rq_def: "rq = (symbol, option_type, strike, expiration, contracts, premium)"
    by (cases rq) auto
  from upsert_option_row[OF up[unfolded rq_def]] obtain r where r: "r \<in> set (tbl_options c')"
    "o_id r = i" "o_closed r = None" "o_contracts r = contracts" "o_premium r = premium" by blast
  from option_request_fields(5)[OF rq[unfolded rq_def]] assms(2)
  have "contracts = \<bar>quantity\<bar>" by auto
  moreover from option_request_fields(6)[OF rq[unfolded rq_def]]
  obtain cost where "pos_avg_cost pos = Some cost"
    "premium = cost / of_int (case pos_multiplier pos of None \<Rightarrow> 100 | Some m \<Rightarrow> m)" by blast
  ultimately have general: "\<exists>r\<in>set (tbl_options c'). o_id r = i \<and> o_closed r = None
            \<and> o_contracts r = \<bar>quantity\<bar>
            \<and> (\<exists>cost. pos_avg_cost pos = Some cost
                  \<and> o_premium r =
                      cost / of_int (case pos_multiplier pos of None \<Rightarrow> 100 | Some m \<Rightarrow> m))"
    using r by blast
  have scenario: "reconcile example_clock (open_connection aapl_only_db []) [aapl_put_item] =
           (\<lparr>success = True, synced_at = Some (now_synced example_clock), options_synced = 1,
             positions_synced = 0, options_closed = 0, positions_closed = 0, errors = []\<rparr>,
            \<lparr>tbl_symbols = [''AAPL''],
             tbl_options = [aapl_put_row\<lparr>o_contracts := 3, o_premium := 15 / 4,
                                         o_updated_at := current_timestamp example_clock\<rparr>],
             tbl_long_positions = [], pending_faults = []\<rparr>)"
    by code_simp
  from general scenario show ?thesis by blast
qed

lemma aapl_put_item_synced_once:
  "try_position example_clock (open_connection aapl_only_db []) aapl_put_item =
     (Inr (OptionSynced 1),
      \<lparr>tbl_symbols = [''AAPL''],
       tbl_options = [aapl_put_row\<lparr>o_contracts := 3, o_premium := 15 / 4,
                                   o_updated_at := ''2024-05-17 14:30:00''\<rparr>],
       tbl_long_positions = [], pending_faults = []\<rparr>)"
  by code_simp

theorem contracts_and_premium_of_synced_option_witness:
  "o_contracts (aapl_put_row\<lparr>o_contracts := 3, o_premium := 15 / 4,
                             o_updated_at := ''2024-05-17 14:30:00''\<rparr>) = \<bar>- 3\<bar>
   \<and> o_premium (aapl_put_row\<lparr>o_contracts := 3, o_premium := 15 / 4,
                             o_updated_at := ''2024-05-17 14:30:00''\<rparr>) = 375 / of_int 100"
proof -
  have q: "pos_position aapl_put_item = Some (of_int (- 3))"
    by (simp add: aapl_put_item_def)
  have c: "pos_avg_cost aapl_put_item = Some 375" "pos_multiplier aapl_put_item = Some 100"
    by (simp_all add: aapl_put_item_def)
  from contracts_and_premium_of_synced_option[OF aapl_put_item_synced_once q] c
  show ?thesis by simp
qed





text \<open>
  C8, as the code has it. When connecting and fetching succeed and one of the two closure
  calls raises, the exception is not raised to the caller: it becomes the last entry of
  the error list, prefixed \<open>Sync failed:\<close>, the run returns \<open>success = False\<close> with no
  \<open>synced_at\<close>, and the run is still published as the last run.
\<close>

theorem closure_fault_fails_the_run:
  assumes "ensure_connected client host port client_id = (True, client1)"
    and "get_positions client1 = Inr positions"
    and "get_db_connection dbe = Inr conn"
    and "close_missing_options clk (st_conn (loop_end clk conn positions))
           (st_option_ids (loop_end clk conn positions)) = (Inl e, c1)
         \<or> (\<exists>n c2. close_missing_options clk (st_conn (loop_end clk conn positions))
                      (st_option_ids (loop_end clk conn positions)) = (Inr n, c1)
                   \<and> close_missing_long_positions clk c1
                       (st_stock_symbols (loop_end clk conn positions)) = (Inl e, c2))"
    and "sync_positions clk svc client dbe host port client_id = (result, svc', client', db')"
  shows "success result = False \<and> synced_at result = None
         \<and> errors result =
             errors (st_result (loop_end clk conn positions)) @ [''Sync failed: '' @ exn_str e]
         \<and> last_sync_result svc' = Some result"
proof -
  from sync_positions_reconciled[OF assms(1-3), where clk=clk and svc=svc] assms(5)
  have res: "result = fst (reconcile clk conn positions)" and svc': "svc' = publish clk svc result"
    by simp_all
  have init: "synced_at (st_result (loop_end clk conn positions)) = None"
    by simp
  have "success result = False \<and> synced_at result = None
         \<and> errors result =
             errors (st_result (loop_end clk conn positions)) @ [''Sync failed: '' @ exn_str e]"
  proof (cases rule: reconcile_cases[of clk conn positions])
    case (OptionsFault e' c)
    with assms(4) have "e' = e" by auto
    with OptionsFault(2) res init show ?thesis by (simp add: sync_failed_def)
  next
    case (LongsFault n c e' c2)
    with assms(4) have "e' = e" by auto
    with LongsFault(3) res init show ?thesis by (simp add: sync_failed_def)
  next
    case (Done n c m c2)
    with assms(4) show ?thesis by auto
  qed
  with svc' show ?thesis by (simp add: publish_def)
qed

lemma closure_fault_example:
  "ensure_connected (session_holding []) None None None = (True, session_holding [])"
  "get_positions (session_holding []) = Inr []"
  "get_db_connection (faulty_store example_db [Some ''database is locked'']) =
     Inr (open_connection example_db [Some ''database is locked''])"
  "close_missing_options example_clock (open_connection example_db [Some ''database is locked'']) []
     = (Inl (DatabaseError ''database is locked''), open_connection example_db [])"
  by (simp_all add: ensure_connected_def is_connected_def session_holding_def get_positions_def
        get_db_connection_def faulty_store_def open_connection_def close_missing_options_def
        cursor_execute_def)

theorem closure_fault_fails_the_run_witness:
  "success (fst (sync_positions example_clock idle_service (session_holding [])
                   (faulty_store example_db [Some ''database is locked'']) None None None)) = False
   \<and> errors (fst (sync_positions example_clock idle_service (session_holding [])
                   (faulty_store example_db [Some ''database is locked'']) None None None))
       = [''Sync failed: database is locked'']"
proof -
  obtain result svc' client' db' where run:
    "sync_positions example_clock idle_service (session_holding [])
       (faulty_store example_db [Some ''database is locked'']) None None None
     = (result, svc', client', db')"
    using prod_cases4 by blast
  have fault: "close_missing_options example_clock
           (st_conn (loop_end example_clock (open_connection example_db [Some ''database is locked'']) []))
           (st_option_ids (loop_end example_clock (open_connection example_db [Some ''database is locked'']) []))
           = (Inl (DatabaseError ''database is locked''), open_connection example_db [])
         \<or> (\<exists>n c2. close_missing_options example_clock
           (st_conn (loop_end example_clock (open_connection example_db [Some ''database is locked'']) []))
           (st_option_ids (loop_end example_clock (open_connection example_db [Some ''database is locked'']) []))
              = (Inr n, open_connection example_db [])
                   \<and> close_missing_long_positions example_clock (open_connection example_db [])
                       (st_stock_symbols (loop_end example_clock (open_connection example_db [Some ''database is locked'']) []))
                      = (Inl (DatabaseError ''database is locked''), c2))"
    using closure_fault_example(4) by simp
  from closure_fault_fails_the_run[OF closure_fault_example(1-3) fault run] run
  show ?thesis by (simp add: initial_result_def)
qed

text \<open>
  C8, as the claim states it, fails: with an empty snapshot and a store whose first
  statement raises, the closure call raises and the run returns \<open>success = False\<close>.
\<close>

theorem closure_fault_is_not_a_success:
  "fst (close_missing_options example_clock
          (open_connection example_db [Some ''database is locked'']) [])
     = Inl (DatabaseError ''database is locked'')
   \<and> success (fst (sync_positions example_clock idle_service (session_holding [])
                     (faulty_store example_db [Some ''database is locked'']) None None None))
       = False
   \<and> errors (fst (sync_positions example_clock idle_service (session_holding [])
                     (faulty_store example_db [Some ''database is locked'']) None None None))
       = [''Sync failed: database is locked'']"
  by code_simp


text \<open>
  C9. When no session exists and the connection attempt fails, the run returns
  \<open>success = False\<close> with the single error \<open>Failed to connect to IBKR\<close>, every counter
  is zero, and the store is the store the run was given: nothing was reconciled.
\<close>

theorem connect_failure_skips_reconciliation:
  assumes "\<not> is_connected client"
    and "\<not> fst (connect client host port client_id)"
    and "sync_positions clk svc client dbe host port client_id = (result, svc', client', db')"
  shows "success result = False \<and> errors result = [''Failed to connect to IBKR'']
         \<and> options_synced result = 0 \<and> positions_synced result = 0
         \<and> options_closed result = 0 \<and> positions_closed result = 0
         \<and> db' = db_file dbe"
proof -
  obtain client1 where "ensure_connected client host port client_id = (False, client1)"
    using assms(1,2) ensure_connected_False_iff[of client host port client_id]
    by (cases "ensure_connected client host port client_id") auto
  from sync_positions_connect_failed[OF this, where clk=clk and svc=svc and dbe=dbe] assms(3)
  show ?thesis by (auto simp: initial_result_def)
qed

theorem connect_failure_skips_reconciliation_witness:
  "success (fst (sync_positions example_clock idle_service refusing_client
                   (healthy_store example_db) None None None)) = False
   \<and> errors (fst (sync_positions example_clock idle_service refusing_client
                    (healthy_store example_db) None None None)) = [''Failed to connect to IBKR'']
   \<and> snd (snd (snd (sync_positions example_clock idle_service refusing_client
                    (healthy_store example_db) None None None))) = example_db"
proof -
  have a: "\<not> is_connected refusing_client"
    by (simp add: is_connected_def refusing_client_def)
  have b: "\<not> fst (connect refusing_client None None None)"
    by (simp add: connect_def refusing_client_def)
  obtain result svc' client' db' where run:
    "sync_positions example_clock idle_service refusing_client (healthy_store example_db)
       None None None = (result, svc', client', db')"
    using prod_cases4 by blast
  from connect_failure_skips_reconciliation[OF a b run] run show ?thesis
    by (simp add: healthy_store_def)
qed


text \<open>
  C10. A run that returns early because the connection attempt failed leaves
  \<open>last_sync\<close> and \<open>last_sync_result\<close> as they were, so \<open>get_status\<close> still reports the
  previous run; every other run replaces both with its own time and result.
\<close>

theorem last_run_kept_only_on_connect_failure:
  assumes "sync_positions clk svc client dbe host port client_id = (result, svc', client', db')"
  shows "(\<not> is_connected client \<and> \<not> fst (connect client host port client_id) \<longrightarrow>
            svc' = svc
            \<and> status_last_sync (get_status svc' client2 dbe2) = last_sync svc
            \<and> status_last_sync_result (get_status svc' client2 dbe2) = last_sync_result svc)
       \<and> (is_connected client \<or> fst (connect client host port client_id) \<longrightarrow>
            last_sync svc' = Some (now_finished clk) \<and> last_sync_result svc' = Some result
            \<and> status_last_sync (get_status svc' client2 dbe2) = Some (now_finished clk)
            \<and> status_last_sync_result (get_status svc' client2 dbe2) = Some result)"
proof (cases "ensure_connected client host port client_id")
  case (Pair connected client1)
  show ?thesis
  proof (cases connected)
    case True
    with Pair have ok: "is_connected client \<or> fst (connect client host port client_id)"
      using ensure_connected_False_iff[of client host port client_id] by auto
    from Pair True have "ensure_connected client host port client_id = (True, client1)" by simp
    from sync_positions_published[OF this assms] have "svc' = publish clk svc result" .
    with ok show ?thesis by (auto simp: publish_def get_status_def)
  next
    case False
    with Pair have bad: "\<not> is_connected client \<and> \<not> fst (connect client host port client_id)"
      using ensure_connected_False_iff[of client host port client_id] by auto
    from Pair False have "ensure_connected client host port client_id = (False, client1)" by simp
    from sync_positions_connect_failed[OF this, where clk=clk and svc=svc and dbe=dbe] assms
    have "svc' = svc" by simp
    with bad show ?thesis by (auto simp: get_status_def)
  qed
qed

theorem last_run_kept_only_on_connect_failure_witness:
  "fst (snd refused_run) = fst (snd first_run)
   \<and> last_sync (fst (snd first_run)) = Some (now_finished example_clock)
   \<and> last_sync_result (fst (snd first_run)) = Some (fst first_run)"
proof -
  have a: "\<not> is_connected refusing_client \<and> \<not> fst (connect refusing_client None None None)"
    by (simp add: is_connected_def refusing_client_def connect_def)
  have b: "is_connected (session_holding [aapl_put_position])
           \<or> fst (connect (session_holding [aapl_put_position]) None None None)"
    by (simp add: is_connected_def session_holding_def)
  have run1: "sync_positions example_clock idle_service (session_holding [aapl_put_position])
        (healthy_store empty_db) None None None
      = (fst first_run, fst (snd first_run), fst (snd (snd first_run)), snd (snd (snd first_run)))"
    by (simp add: first_run_def)
  have run2: "sync_positions later_clock (fst (snd first_run)) refusing_client
        (healthy_store (snd (snd (snd first_run)))) None None None
      = (fst refused_run, fst (snd refused_run), fst (snd (snd refused_run)),
         snd (snd (snd refused_run)))"
    by (simp add: refused_run_def)
  from last_run_kept_only_on_connect_failure[OF run2] a
  have "fst (snd refused_run) = fst (snd first_run)" by blast
  moreover from last_run_kept_only_on_connect_failure[OF run1] b
  have "last_sync (fst (snd first_run)) = Some (now_finished example_clock)
        \<and> last_sync_result (fst (snd first_run)) = Some (fst first_run)"
    by blast
  ultimately show ?thesis by simp
qed

end
